theory Spec2Isabelle
  imports Main "HOL-Library.Word"
begin

unbundle bit_operations_syntax

section \<open>Common conventions\<close>

text \<open>
  The C sources abort through \<^verbatim>\<open>assert\<close> and \<^verbatim>\<open>assertf\<close>. Every such abort is a
  value \<open>Inl (Assertion msg)\<close> of the result type \<open>error + 'a\<close>; \<open>msg\<close> names the
  assertion that fired. The index arithmetic of the sources is done on C \<^verbatim>\<open>int\<close>; it is
  modelled on \<open>int\<close>, with the shifts and masks of the source kept as \<open>push_bit\<close>,
  \<open>drop_bit\<close> and \<open>AND\<close> (signed overflow, undefined in C, is outside the model).
\<close>

datatype error = Assertion string

definition ebind :: "error + 'a \<Rightarrow> ('a \<Rightarrow> error + 'b) \<Rightarrow> error + 'b" where
  "ebind r f = (case r of Inl e \<Rightarrow> Inl e | Inr x \<Rightarrow> f x)"

text \<open>C division truncates towards zero.\<close>

definition cdiv :: "int \<Rightarrow> int \<Rightarrow> int" where
  "cdiv a b = sgn a * sgn b * (\<bar>a\<bar> div \<bar>b\<bar>)"

text \<open>The macro \<^verbatim>\<open>ROUND_UP(n, d)\<close>: \<^verbatim>\<open>((n + d - 1) / d * d)\<close>.\<close>

definition ROUND_UP :: "int \<Rightarrow> int \<Rightarrow> int" where
  "ROUND_UP n d = cdiv (n + d - 1) d * d"

section \<open>Sample buffer (samplebuffer.c)\<close>

text \<open>
  Modelled from the spec: the header \<^verbatim>\<open>samplebuffer.h\<close> (the layout of
  \<^verbatim>\<open>samplebuffer_t\<close> and the macros \<^verbatim>\<open>SAMPLES_PTR\<close>, \<^verbatim>\<open>SAMPLES_BPS_SHIFT\<close>,
  \<^verbatim>\<open>SAMPLES_PTR_MAKE\<close>) is not among the sources. The packed field
  \<^verbatim>\<open>ptr_and_flags\<close> is kept as its two components: \<open>ptr\<close>, the 8-byte aligned base
  address of the sample memory, and \<open>bps\<close>, the bits-per-sample shift. The uncached sample
  memory is the field \<open>mem\<close>, a byte store addressed by the offset from \<open>ptr\<close>.
\<close>

record samplebuffer =
  ptr :: "32 word"
  bps :: nat
  size_sb :: int
  wpos :: int
  widx :: int
  ridx :: int
  wnext :: int
  state_size :: int
  mem :: "nat \<Rightarrow> 8 word"

text \<open>
  Modelled from the spec: \<^verbatim>\<open>n64sys.h\<close> with the macros \<^verbatim>\<open>UncachedAddr\<close> and \<^verbatim>\<open>CachedAddr\<close> is
  not among the sources. The uncached view of an address is the address with bit 29 set
  (the segment \<^verbatim>\<open>0xA0000000\<close>), the cached view the one with that bit clear.
\<close>

definition UncachedAddr :: "32 word \<Rightarrow> 32 word" where
  "UncachedAddr a = a OR 0x20000000"

definition CachedAddr :: "32 word \<Rightarrow> 32 word" where
  "CachedAddr a = a AND NOT 0x20000000"

text \<open>\<^verbatim>\<open>samplebuffer_init\<close>: the structure is zeroed, bound to the memory, \<open>wnext = -1\<close>.\<close>

definition samplebuffer_init ::
  "32 word \<Rightarrow> (nat \<Rightarrow> 8 word) \<Rightarrow> int \<Rightarrow> int \<Rightarrow> error + samplebuffer" where
  "samplebuffer_init uncached_mem m nbytes ssize =
     (if \<not> UncachedAddr uncached_mem = uncached_mem
      then Inl (Assertion ''specified buffer must be in the uncached segment'')
      else if uncached_mem AND 7 \<noteq> 0 then Inl (Assertion ''(buf->ptr_and_flags & 7) == 0'')
      else Inr \<lparr> ptr = uncached_mem, bps = 0, size_sb = nbytes, wpos = 0, widx = 0, ridx = 0,
                 wnext = -1, state_size = (if ssize \<noteq> 0 then ssize else 0), mem = m \<rparr>)"

definition samplebuffer_set_bps :: "samplebuffer \<Rightarrow> int \<Rightarrow> error + samplebuffer" where
  "samplebuffer_set_bps buf bits_per_sample =
     (if \<not> (bits_per_sample = 8 \<or> bits_per_sample = 16 \<or> bits_per_sample = 32)
      then Inl (Assertion ''bits_per_sample == 8 || bits_per_sample == 16 || bits_per_sample == 32'')
      else if \<not> (widx buf = 0 \<and> ridx buf = 0 \<and> wpos buf = 0)
      then Inl (Assertion ''samplebuffer_set_bps can only be called on an empty samplebuffer'')
      else
        let nbytes = push_bit (bps buf) (size_sb buf);
            bps' = (if bits_per_sample = 8 then 0 else (if bits_per_sample = 16 then 1 else 2))
        in Inr (buf\<lparr>bps := bps', size_sb := drop_bit bps' nbytes\<rparr>))"

definition samplebuffer_flush :: "samplebuffer \<Rightarrow> samplebuffer" where
  "samplebuffer_flush buf = buf\<lparr>wpos := 0, widx := 0, ridx := 0, wnext := -1\<rparr>"

definition samplebuffer_undo :: "samplebuffer \<Rightarrow> int \<Rightarrow> error + samplebuffer" where
  "samplebuffer_undo buf wlen =
     (if \<not> widx buf \<ge> wlen then Inl (Assertion ''samplebuffer_append_undo: invalid wlen'')
      else Inr (buf\<lparr>widx := widx buf - wlen\<rparr>))"

text \<open>
  The compaction copy of \<^verbatim>\<open>samplebuffer_discard\<close> moves 64-bit words: an unaligned
  big-endian load from the source, a store to the destination, both pointers advancing by 8.
\<close>

definition load64 :: "(nat \<Rightarrow> 8 word) \<Rightarrow> nat \<Rightarrow> 64 word" where
  "load64 m a = word_rcat (map m [a..<a + 8])"

definition byte64 :: "64 word \<Rightarrow> nat \<Rightarrow> 8 word" where
  "byte64 v i = ucast (drop_bit (8 * (7 - i)) v)"

definition store64 :: "(nat \<Rightarrow> 8 word) \<Rightarrow> nat \<Rightarrow> 64 word \<Rightarrow> (nat \<Rightarrow> 8 word)" where
  "store64 m a v = (\<lambda>k. if a \<le> k \<and> k < a + 8 then byte64 v (k - a) else m k)"

fun copy64 :: "nat \<Rightarrow> nat \<Rightarrow> nat \<Rightarrow> (nat \<Rightarrow> 8 word) \<Rightarrow> (nat \<Rightarrow> 8 word)" where
  "copy64 0 src dst m = m"
| "copy64 (Suc n) src dst m = copy64 n (src + 8) (dst + 8) (store64 m dst (load64 m src))"

definition samplebuffer_discard :: "samplebuffer \<Rightarrow> int \<Rightarrow> error + samplebuffer" where
  "samplebuffer_discard buf wpos' =
     (let idx = wpos' - wpos buf in
      if idx \<le> 0 then Inr buf
      else
        let idx = (if idx > widx buf then widx buf else idx) in
        if push_bit (bps buf) idx AND 1 \<noteq> 0 \<and> idx - 1 = 0 then Inr buf
        else
          let idx = (if push_bit (bps buf) idx AND 1 \<noteq> 0 then idx - 1 else idx);
              kept_bytes = push_bit (bps buf) (widx buf - idx)
          in ebind
               (if kept_bytes > 0 then
                  if ptr buf AND 7 \<noteq> 0 then Inl (Assertion ''((uint32_t)dst & 7) == 0'')
                  else
                    let src = nat (push_bit (bps buf) idx);
                        kept_bytes = ROUND_UP kept_bytes 8
                    in Inr (buf\<lparr>mem := copy64 (nat (cdiv kept_bytes 8)) src 0 (mem buf)\<rparr>)
                else Inr buf)
               (\<lambda>b. let b = b\<lparr>wpos := wpos b + idx, widx := widx b - idx, ridx := ridx b - idx\<rparr>
                    in Inr (if ridx b < 0 then b\<lparr>ridx := 0\<rparr> else b)))"

text \<open>Masks with 7 and 1 on \<open>int\<close> are remainders modulo 8 and 2.\<close>

lemma and_7_eq_mod: "(k::int) AND 7 = k mod 8"
proof -
  have "k AND mask 3 = k mod 2 ^ 3"
    by (simp only: take_bit_eq_mask [symmetric] take_bit_eq_mod)
  then show ?thesis by (simp add: mask_eq_exp_minus_1)
qed

lemma and_1_eq_mod: "(k::int) AND 1 = k mod 2"
  by (simp add: and_one_eq)

lemma rollback_measure:
  assumes "push_bit s r AND 7 \<noteq> (0::int)"
  shows "(r - 1) mod 8 < r mod 8" and "0 < r mod 8"
proof -
  have "r mod 8 \<noteq> 0"
  proof
    assume "r mod 8 = 0"
    then have "8 dvd r" by presburger
    then have "8 dvd r * 2 ^ s" by simp
    then have "(r * 2 ^ s) mod 8 = 0" by presburger
    with assms show False by (simp add: and_7_eq_mod push_bit_eq_mult)
  qed
  then show "(r - 1) mod 8 < r mod 8" and "0 < r mod 8" by presburger+
qed

text \<open>The loop \<^verbatim>\<open>while ((ridx << bps) & 7) ridx--;\<close> of \<^verbatim>\<open>samplebuffer_append\<close>.\<close>

function append_rollback :: "nat \<Rightarrow> int \<Rightarrow> int" where
  "append_rollback s r = (if push_bit s r AND 7 \<noteq> 0 then append_rollback s (r - 1) else r)"
  by pat_completeness auto

termination
  by (relation "measure (\<lambda>(s, r). nat (r mod 8))") (auto simp: rollback_measure)

definition samplebuffer_append :: "samplebuffer \<Rightarrow> int \<Rightarrow> error + (32 word \<times> samplebuffer)" where
  "samplebuffer_append buf wlen =
     ebind
       (if widx buf + wlen > size_sb buf then
          if \<not> widx buf \<ge> ridx buf
          then Inl (Assertion ''samplebuffer_append: invalid consistency check'')
          else samplebuffer_discard buf (wpos buf + append_rollback (bps buf) (ridx buf))
        else Inr buf)
       (\<lambda>b. if \<not> (push_bit (bps b) (wpos b) mod 2 = 0) then Inl (Assertion ''buf->wpos'')
             else if \<not> widx b + wlen \<le> size_sb b
             then Inl (Assertion ''samplebuffer_append: buffer too small'')
             else Inr (ptr b + word_of_int (push_bit (bps b) (widx b)),
                       b\<lparr>widx := widx b + wlen\<rparr>))"

text \<open>
  The read callback \<^verbatim>\<open>wv_read(ctx, sbuf, wpos, wlen, seeking)\<close> bound to a buffer by
  \<^verbatim>\<open>samplebuffer_set_waveform\<close> is a parameter of the operations that invoke it; \<open>'c\<close> is
  the state the callback owns besides the buffer (its waveform, file position, codec state).
\<close>

type_synonym 'c WaveformRead =
  "'c \<Rightarrow> samplebuffer \<Rightarrow> int \<Rightarrow> int \<Rightarrow> bool \<Rightarrow> error + ('c \<times> samplebuffer)"

text \<open>The macro \<^verbatim>\<open>ROUNDUP8_BPS(nsamples, bps)\<close> local to \<^verbatim>\<open>samplebuffer_get\<close>.\<close>

definition ROUNDUP8_BPS :: "int \<Rightarrow> nat \<Rightarrow> int" where
  "ROUNDUP8_BPS nsamples s = push_bit (3 - s) (drop_bit (3 - s) (nsamples + (drop_bit s 8 - 1)))"

text \<open>
  \<^verbatim>\<open>samplebuffer_get\<close>, in the three blocks of the source: the branch that flushes and
  decodes from scratch, the branch that reuses resident frames and reads the missing ones,
  and the closing lines that check the window and build the result.
\<close>

definition get_seek ::
  "'c WaveformRead \<Rightarrow> 'c \<Rightarrow> samplebuffer \<Rightarrow> int \<Rightarrow> int \<Rightarrow> error + ('c \<times> samplebuffer)" where
  "get_seek wv_read c buf wpos' wlen =
     (let s = bps buf;
          seeking = (wpos' \<noteq> wnext buf);
          buf = samplebuffer_flush buf;
          buf = buf\<lparr>wpos := wpos'\<rparr>;
          len = wlen;
          odd_phase = (push_bit s (wpos buf) AND 1 \<noteq> 0);
          buf = (if odd_phase then buf\<lparr>wpos := wpos buf - 1\<rparr> else buf);
          len = (if odd_phase then len + 1 else len)
      in ebind (wv_read c buf (wpos buf) (ROUNDUP8_BPS len s) seeking)
           (\<lambda>(c, buf). Inr (c, buf\<lparr>wnext := wpos buf + widx buf\<rparr>)))"

definition get_refill ::
  "'c WaveformRead \<Rightarrow> 'c \<Rightarrow> samplebuffer \<Rightarrow> int \<Rightarrow> int \<Rightarrow> error + ('c \<times> samplebuffer)" where
  "get_refill wv_read c buf wpos' wlen =
     (let s = bps buf;
          buf = buf\<lparr>ridx := wpos' - wpos buf\<rparr>;
          reuse = wpos buf + widx buf - wpos'
      in if reuse < wlen then
           if \<not> (wpos' + reuse = wnext buf) then Inl (Assertion ''wpos+reuse == buf->wnext'')
           else ebind (wv_read c buf (wpos' + reuse) (ROUNDUP8_BPS (wlen - reuse) s) False)
                  (\<lambda>(c, buf). Inr (c, buf\<lparr>wnext := wpos buf + widx buf\<rparr>))
         else Inr (c, buf))"

definition get_return ::
  "int \<Rightarrow> int \<Rightarrow> 'c \<times> samplebuffer \<Rightarrow> error + (32 word \<times> int \<times> 'c \<times> samplebuffer)" where
  "get_return wpos' wlen = (\<lambda>(c, buf).
     if \<not> (wpos' \<ge> wpos buf \<and> wpos' < wpos buf + widx buf)
     then Inl (Assertion ''samplebuffer_get: logic error'')
     else
       let idx = wpos' - wpos buf;
           len = widx buf - idx;
           wlen = (if len < wlen then len else wlen)
       in Inr (ptr buf + word_of_int (push_bit (bps buf) idx), wlen, c, buf))"

definition samplebuffer_get ::
  "'c WaveformRead \<Rightarrow> 'c \<Rightarrow> samplebuffer \<Rightarrow> int \<Rightarrow> int
     \<Rightarrow> error + (32 word \<times> int \<times> 'c \<times> samplebuffer)" where
  "samplebuffer_get wv_read c buf wpos' wlen =
     ebind
       (if widx buf = 0 \<or> wpos' < wpos buf \<or> wpos' > wpos buf + widx buf
        then get_seek wv_read c buf wpos' wlen
        else get_refill wv_read c buf wpos' wlen)
       (get_return wpos' wlen)"

text \<open>
  A sequence of operations on one sample buffer. Each operation is one public function of
  \<^verbatim>\<open>samplebuffer.c\<close>; \<open>samplebuffer_trace\<close> runs a sequence and returns the buffer after
  each operation, stopping at the first assertion failure.
\<close>

datatype sb_op =
    Op_init "32 word" int int
  | Op_set_bps int
  | Op_get int int
  | Op_append int
  | Op_undo int
  | Op_discard int
  | Op_flush

fun samplebuffer_step ::
  "'c WaveformRead \<Rightarrow> sb_op \<Rightarrow> 'c \<times> samplebuffer \<Rightarrow> error + ('c \<times> samplebuffer)" where
  "samplebuffer_step rd (Op_init p nbytes ssize) (c, buf) =
     ebind (samplebuffer_init p (mem buf) nbytes ssize) (\<lambda>b. Inr (c, b))"
| "samplebuffer_step rd (Op_set_bps bits) (c, buf) =
     ebind (samplebuffer_set_bps buf bits) (\<lambda>b. Inr (c, b))"
| "samplebuffer_step rd (Op_get wp wl) (c, buf) =
     ebind (samplebuffer_get rd c buf wp wl) (\<lambda>(p, wl', c', b). Inr (c', b))"
| "samplebuffer_step rd (Op_append wl) (c, buf) =
     ebind (samplebuffer_append buf wl) (\<lambda>(p, b). Inr (c, b))"
| "samplebuffer_step rd (Op_undo wl) (c, buf) =
     ebind (samplebuffer_undo buf wl) (\<lambda>b. Inr (c, b))"
| "samplebuffer_step rd (Op_discard wp) (c, buf) =
     ebind (samplebuffer_discard buf wp) (\<lambda>b. Inr (c, b))"
| "samplebuffer_step rd Op_flush (c, buf) = Inr (c, samplebuffer_flush buf)"

fun samplebuffer_trace ::
  "'c WaveformRead \<Rightarrow> sb_op list \<Rightarrow> 'c \<times> samplebuffer \<Rightarrow> error + samplebuffer list" where
  "samplebuffer_trace rd [] st = Inr []"
| "samplebuffer_trace rd (x # xs) st =
     ebind (samplebuffer_step rd x st)
       (\<lambda>st'. ebind (samplebuffer_trace rd xs st') (\<lambda>bs. Inr (snd st' # bs)))"

text \<open>The invariant of the spec: \<open>0 \<le> ridx \<le> widx \<le> size\<close>.\<close>

definition samplebuffer_inv :: "samplebuffer \<Rightarrow> bool" where
  "samplebuffer_inv buf = (0 \<le> ridx buf \<and> ridx buf \<le> widx buf \<and> widx buf \<le> size_sb buf)"

text \<open>
  The raw PCM read callback of \<^verbatim>\<open>wav64.c\<close> seen from the buffer: it appends \<open>wlen\<close>
  frames (\<^verbatim>\<open>raw_waveform_read\<close>); the bytes it then stores do not touch the indices.
\<close>

definition raw_read_indices :: "unit WaveformRead" where
  "raw_read_indices c sbuf wpos' wlen seeking =
     ebind (samplebuffer_append sbuf wlen) (\<lambda>(p, b). Inr (c, b))"

text \<open>
  A read callback keeps a property \<open>P\<close> of the buffer when every call for a non-negative
  number of frames that returns leaves \<open>P\<close> in place.
\<close>

definition read_preserves :: "(samplebuffer \<Rightarrow> bool) \<Rightarrow> 'c WaveformRead \<Rightarrow> bool" where
  "read_preserves P rd =
     (\<forall>c b wp wl sk c' b'. 0 \<le> wl \<longrightarrow> P b \<longrightarrow> rd c b wp wl sk = Inr (c', b') \<longrightarrow> P b')"


text \<open>
  Side conditions under which the index invariant is kept: a non-negative size at
  \<^verbatim>\<open>samplebuffer_init\<close>, a non-negative length at \<^verbatim>\<open>samplebuffer_get\<close> and
  \<^verbatim>\<open>samplebuffer_append\<close>, and at \<^verbatim>\<open>samplebuffer_undo\<close> a length between 0 and the
  number of frames beyond \<open>ridx\<close> (the assertion of the source only checks
  \<open>wlen \<le> widx\<close>). The shift amounts \<^verbatim>\<open>3-(bps)\<close> of \<^verbatim>\<open>ROUNDUP8_BPS\<close> are defined in C
  for \<open>bps \<le> 3\<close> only.
\<close>

fun op_guard :: "sb_op \<Rightarrow> samplebuffer \<Rightarrow> bool" where
  "op_guard (Op_init p nbytes ssize) buf = (0 \<le> nbytes)"
| "op_guard (Op_get wp wl) buf = (0 \<le> wl \<and> bps buf \<le> 3)"
| "op_guard (Op_append wl) buf = (0 \<le> wl)"
| "op_guard (Op_undo wl) buf = (0 \<le> wl \<and> wl \<le> widx buf - ridx buf)"
| "op_guard _ buf = True"

fun trace_guarded :: "'c WaveformRead \<Rightarrow> sb_op list \<Rightarrow> 'c \<times> samplebuffer \<Rightarrow> bool" where
  "trace_guarded rd [] st = True"
| "trace_guarded rd (x # xs) st =
     (op_guard x (snd st) \<and>
      (case samplebuffer_step rd x st of Inl e \<Rightarrow> True | Inr st' \<Rightarrow> trace_guarded rd xs st'))"

definition trace_inv :: "error + samplebuffer list \<Rightarrow> bool" where
  "trace_inv r = (case r of Inl e \<Rightarrow> True | Inr bs \<Rightarrow> list_all samplebuffer_inv bs)"

text \<open>A buffer record before \<^verbatim>\<open>samplebuffer_init\<close>, over memory holding zero bytes.\<close>

definition blank_buffer :: samplebuffer where
  "blank_buffer = \<lparr> ptr = 0, bps = 0, size_sb = 0, wpos = 0, widx = 0, ridx = 0, wnext = 0,
                     state_size = 0, mem = (\<lambda>k. 0) \<rparr>"



section \<open>Binary output helpers (tools/common/binout.c)\<close>

text \<open>
  A \<^verbatim>\<open>FILE\<close> opened for writing is its bytes and the file position. \<^verbatim>\<open>fputc\<close> stores
  one byte at the position (past the end the gap reads as zero) and advances it.
\<close>

record FILE =
  fdata :: "8 word list"
  fpos :: nat

definition fputc :: "8 word \<Rightarrow> FILE \<Rightarrow> FILE" where
  "fputc v f =
     (if fpos f < length (fdata f)
      then f\<lparr>fdata := (fdata f)[fpos f := v], fpos := fpos f + 1\<rparr>
      else f\<lparr>fdata := fdata f @ replicate (fpos f - length (fdata f)) 0 @ [v],
             fpos := fpos f + 1\<rparr>)"

definition ftell :: "FILE \<Rightarrow> int" where
  "ftell f = int (fpos f)"

definition fseek_set :: "FILE \<Rightarrow> int \<Rightarrow> FILE" where
  "fseek_set f p = (if p < 0 then f else f\<lparr>fpos := nat p\<rparr>)"

text \<open>
  The big-endian writers \<^verbatim>\<open>_w8\<close>, \<^verbatim>\<open>_w16\<close>, \<^verbatim>\<open>_w32\<close>, \<^verbatim>\<open>_w64\<close>. Inside them the macros
  \<^verbatim>\<open>w8\<close>, \<^verbatim>\<open>w16\<close>, \<^verbatim>\<open>w32\<close> are applied to halves that always fit, so their truncation
  check cannot fire there.
\<close>

definition w8 :: "FILE \<Rightarrow> 8 word \<Rightarrow> FILE" where
  "w8 f v = fputc v f"

definition w16 :: "FILE \<Rightarrow> 16 word \<Rightarrow> FILE" where
  "w16 f v = w8 (w8 f (ucast (drop_bit 8 v))) (ucast (v AND 0xff))"

definition w32 :: "FILE \<Rightarrow> 32 word \<Rightarrow> FILE" where
  "w32 f v = w16 (w16 f (ucast (drop_bit 16 v))) (ucast (v AND 0xffff))"

definition w64 :: "FILE \<Rightarrow> 64 word \<Rightarrow> FILE" where
  "w64 f v = w32 (w32 f (ucast (drop_bit 32 v))) (ucast (v AND 0xffffffff))"

text \<open>
  The macro \<^verbatim>\<open>_wconv(type, v)\<close> applied to a 64-bit signed value: the bits of \<open>v\<close> above
  the width of \<open>type\<close> must be all zero or all one, else the program aborts.
\<close>

definition wconv :: "nat \<Rightarrow> int \<Rightarrow> error + int" where
  "wconv width v =
     (let ext = drop_bit 1 (drop_bit (width - 1) v)
      in if ext \<noteq> 0 \<and> ext \<noteq> -1
         then Inl (Assertion ''ext == 0 || ext == (uint64_t)-1'') else Inr v)"

definition w64_at :: "FILE \<Rightarrow> int \<Rightarrow> 64 word \<Rightarrow> error + FILE" where
  "w64_at f p v =
     (let cur = ftell f in
      if \<not> cur \<ge> 0 then Inl (Assertion ''cur >= 0'')
      else Inr (fseek_set (w64 (fseek_set f p) v) cur))"

definition w32_at :: "FILE \<Rightarrow> int \<Rightarrow> 32 word \<Rightarrow> error + FILE" where
  "w32_at f p v =
     (let cur = ftell f in
      if \<not> cur \<ge> 0 then Inl (Assertion ''cur >= 0'')
      else Inr (fseek_set (w32 (fseek_set f p) v) cur))"

definition w16_at :: "FILE \<Rightarrow> int \<Rightarrow> 16 word \<Rightarrow> error + FILE" where
  "w16_at f p v =
     (let cur = ftell f in
      if \<not> cur \<ge> 0 then Inl (Assertion ''cur >= 0'')
      else Inr (fseek_set (w16 (fseek_set f p) v) cur))"

definition w8_at :: "FILE \<Rightarrow> int \<Rightarrow> 8 word \<Rightarrow> error + FILE" where
  "w8_at f p v =
     (let cur = ftell f in
      if \<not> cur \<ge> 0 then Inl (Assertion ''cur >= 0'')
      else Inr (fseek_set (w8 (fseek_set f p) v) cur))"

text \<open>
  The table \<^verbatim>\<open>placeholder_hash\<close>: for each name the offset (\<open>-1\<close> while unknown) and, per
  width, the array of file positions waiting for it. The arrays have the element types of
  the source.
\<close>

record placeholder_data =
  offset :: int
  pending_offsets_64 :: "64 word list"
  pending_offsets_32 :: "32 word list"
  pending_offsets_16 :: "16 word list"
  pending_offsets_8 :: "8 word list"

type_synonym placeholder_hash = "string \<rightharpoonup> placeholder_data"

definition placeholder_get_data :: "placeholder_hash \<Rightarrow> string \<Rightarrow> placeholder_hash \<times> placeholder_data" where
  "placeholder_get_data h name =
     (case h name of
        None \<Rightarrow>
          (let default_value = \<lparr> offset = -1, pending_offsets_64 = [], pending_offsets_32 = [],
                                  pending_offsets_16 = [], pending_offsets_8 = [] \<rparr>
           in (h(name \<mapsto> default_value), default_value))
      | Some d \<Rightarrow> (h, d))"

text \<open>The four patch loops of \<^verbatim>\<open>__placeholder_make\<close>, each over one pending array.\<close>

fun patch_pending_64 :: "FILE \<Rightarrow> 64 word list \<Rightarrow> int \<Rightarrow> error + FILE" where
  "patch_pending_64 f [] off = Inr f"
| "patch_pending_64 f (p # ps) off =
     ebind (wconv 32 off) (\<lambda>v. ebind (w32_at f (int (unat p)) (word_of_int v))
       (\<lambda>f'. patch_pending_64 f' ps off))"

fun patch_pending_32 :: "FILE \<Rightarrow> 32 word list \<Rightarrow> int \<Rightarrow> error + FILE" where
  "patch_pending_32 f [] off = Inr f"
| "patch_pending_32 f (p # ps) off =
     ebind (wconv 32 off) (\<lambda>v. ebind (w32_at f (int (unat p)) (word_of_int v))
       (\<lambda>f'. patch_pending_32 f' ps off))"

fun patch_pending_16 :: "FILE \<Rightarrow> 16 word list \<Rightarrow> int \<Rightarrow> error + FILE" where
  "patch_pending_16 f [] off = Inr f"
| "patch_pending_16 f (p # ps) off =
     ebind (wconv 16 off) (\<lambda>v. ebind (w16_at f (int (unat p)) (word_of_int v))
       (\<lambda>f'. patch_pending_16 f' ps off))"

fun patch_pending_8 :: "FILE \<Rightarrow> 8 word list \<Rightarrow> int \<Rightarrow> error + FILE" where
  "patch_pending_8 f [] off = Inr f"
| "patch_pending_8 f (p # ps) off =
     ebind (wconv 8 off) (\<lambda>v. ebind (w8_at f (int (unat p)) (word_of_int v))
       (\<lambda>f'. patch_pending_8 f' ps off))"

definition placeholder_make ::
  "FILE \<times> placeholder_hash \<Rightarrow> int \<Rightarrow> string \<Rightarrow> error + (FILE \<times> placeholder_hash)" where
  "placeholder_make fh off name =
     (let (h, d) = placeholder_get_data (snd fh) name;
          d = d\<lparr>offset := off\<rparr>
      in ebind (patch_pending_64 (fst fh) (pending_offsets_64 d) (offset d)) (\<lambda>f.
         ebind (patch_pending_32 f (pending_offsets_32 d) (offset d)) (\<lambda>f.
         ebind (patch_pending_16 f (pending_offsets_16 d) (offset d)) (\<lambda>f.
         ebind (patch_pending_8 f (pending_offsets_8 d) (offset d)) (\<lambda>f.
           Inr (f, h(name \<mapsto> d\<lparr>pending_offsets_64 := [], pending_offsets_32 := [],
                                  pending_offsets_16 := [], pending_offsets_8 := []\<rparr>)))))))"

text \<open>\<^verbatim>\<open>placeholder_set\<close> and \<^verbatim>\<open>placeholder_set_offset\<close>, with the formatted name.\<close>

definition placeholder_set :: "FILE \<times> placeholder_hash \<Rightarrow> string \<Rightarrow> error + (FILE \<times> placeholder_hash)" where
  "placeholder_set fh name = placeholder_make fh (ftell (fst fh)) name"

definition placeholder_set_offset ::
  "FILE \<times> placeholder_hash \<Rightarrow> int \<Rightarrow> string \<Rightarrow> error + (FILE \<times> placeholder_hash)" where
  "placeholder_set_offset fh off name = placeholder_make fh off name"

definition w64_placeholder_named ::
  "FILE \<times> placeholder_hash \<Rightarrow> string \<Rightarrow> error + (FILE \<times> placeholder_hash)" where
  "w64_placeholder_named fh name =
     (let (h, d) = placeholder_get_data (snd fh) name in
      if offset d = -1
      then Inr (w64 (fst fh) 0,
                h(name \<mapsto> d\<lparr>pending_offsets_64 := pending_offsets_64 d @ [word_of_int (ftell (fst fh))]\<rparr>))
      else Inr (w64 (fst fh) (word_of_int (offset d)), h))"

definition w32_placeholder_named ::
  "FILE \<times> placeholder_hash \<Rightarrow> string \<Rightarrow> error + (FILE \<times> placeholder_hash)" where
  "w32_placeholder_named fh name =
     (let (h, d) = placeholder_get_data (snd fh) name in
      if offset d = -1
      then Inr (w32 (fst fh) 0,
                h(name \<mapsto> d\<lparr>pending_offsets_32 := pending_offsets_32 d @ [word_of_int (ftell (fst fh))]\<rparr>))
      else ebind (wconv 32 (offset d)) (\<lambda>v. Inr (w32 (fst fh) (word_of_int v), h)))"

definition w16_placeholder_named ::
  "FILE \<times> placeholder_hash \<Rightarrow> string \<Rightarrow> error + (FILE \<times> placeholder_hash)" where
  "w16_placeholder_named fh name =
     (let (h, d) = placeholder_get_data (snd fh) name in
      if offset d = -1
      then Inr (w16 (fst fh) 0,
                h(name \<mapsto> d\<lparr>pending_offsets_16 := pending_offsets_16 d @ [word_of_int (ftell (fst fh))]\<rparr>))
      else ebind (wconv 16 (offset d)) (\<lambda>v. Inr (w16 (fst fh) (word_of_int v), h)))"

definition w8_placeholder_named ::
  "FILE \<times> placeholder_hash \<Rightarrow> string \<Rightarrow> error + (FILE \<times> placeholder_hash)" where
  "w8_placeholder_named fh name =
     (let (h, d) = placeholder_get_data (snd fh) name in
      if offset d = -1
      then Inr (w8 (fst fh) 0,
                h(name \<mapsto> d\<lparr>pending_offsets_8 := pending_offsets_8 d @ [word_of_int (ftell (fst fh))]\<rparr>))
      else ebind (wconv 8 (offset d)) (\<lambda>v. Inr (w8 (fst fh) (word_of_int v), h)))"

text \<open>Reading back a big-endian field of \<open>n\<close> bytes at a file position.\<close>

definition be_value :: "8 word list \<Rightarrow> nat \<Rightarrow> nat \<Rightarrow> nat" where
  "be_value bytes p n = foldl (\<lambda>acc b. acc * 256 + unat b) 0 (take n (drop p bytes))"

text \<open>
  A producer that emits one placeholder for \<open>name\<close> at the start of an empty file and then
  calls \<^verbatim>\<open>placeholder_set\<close> at the end of what it wrote; \<open>file_bytes\<close> reads the bytes of
  the resulting file.
\<close>

definition emit_then_set ::
  "(FILE \<times> placeholder_hash \<Rightarrow> string \<Rightarrow> error + (FILE \<times> placeholder_hash)) \<Rightarrow> string
     \<Rightarrow> error + (FILE \<times> placeholder_hash)" where
  "emit_then_set emit name =
     ebind (emit (\<lparr>fdata = [], fpos = 0\<rparr>, Map.empty) name) (\<lambda>fh. placeholder_set fh name)"

definition file_bytes :: "error + (FILE \<times> placeholder_hash) \<Rightarrow> error + 8 word list" where
  "file_bytes r = map_sum id (fdata \<circ> fst) r"

section \<open>Huffman overlay of VADPCM (tools/audioconv64/huff_vadpcm.c)\<close>

text \<open>
  A node of the Huffman tree: a leaf carries its symbol, an inner node (symbol \<open>-1\<close> in the
  source) its two children; both carry the frequency.
\<close>

datatype HuffNode = Leaf int int | Node int HuffNode HuffNode

fun frequency :: "HuffNode \<Rightarrow> int" where
  "frequency (Leaf s f) = f"
| "frequency (Node f l r) = f"

record HuffCode =
  hc_value :: int
  hc_length :: int

text \<open>
  \<^verbatim>\<open>build_huffman_tree\<close>. The array is kept sorted by frequency with \<^verbatim>\<open>qsort\<close>, which
  leaves the order of equal frequencies open; the model sorts stably.
\<close>

lemma length_sort_key_merge [termination_simp]:
  "length (sort_key frequency (rest @ [n])) = Suc (length rest)"
  by simp

fun build_loop :: "HuffNode list \<Rightarrow> HuffNode list" where
  "build_loop (l # r # rest) =
     build_loop (sort_key frequency (rest @ [Node (frequency l + frequency r) l r]))"
| "build_loop heap = heap"

definition build_huffman_tree :: "int list \<Rightarrow> nat \<Rightarrow> error + HuffNode" where
  "build_huffman_tree frequencies n =
     (let heap = map (\<lambda>i. Leaf (int i) (frequencies ! i))
                   (filter (\<lambda>i. frequencies ! i \<noteq> 0) [0..<n])
      in case build_loop (sort_key frequency heap) of
           [] \<Rightarrow> Inl (Assertion ''build_huffman_tree: empty heap'')
         | root # _ \<Rightarrow> Inr root)"

fun generate_huffman_codes :: "HuffNode \<Rightarrow> int \<Rightarrow> int \<Rightarrow> HuffCode list \<Rightarrow> HuffCode list" where
  "generate_huffman_codes (Leaf s f) code len codes =
     codes[nat s := \<lparr> hc_value = code, hc_length = len \<rparr>]"
| "generate_huffman_codes (Node f l r) code len codes =
     generate_huffman_codes r (push_bit 1 code OR 1) (len + 1)
       (generate_huffman_codes l (push_bit 1 code OR 0) (len + 1) codes)"

text \<open>\<^verbatim>\<open>calculate_frequencies\<close>: three contexts of sixteen counters, then the normalisation.\<close>

definition huff_context :: "nat \<Rightarrow> nat" where
  "huff_context i = (if i < 2 then i else 2)"

definition bump :: "int list list \<Rightarrow> nat \<Rightarrow> nat \<Rightarrow> int list list" where
  "bump freq c sy = freq[c := (freq ! c)[sy := freq ! c ! sy + 1]]"

definition count_byte :: "int list list \<Rightarrow> nat \<times> 8 word \<Rightarrow> int list list" where
  "count_byte freq kb =
     (let i = 2 * fst kb;
          sym0 = unat (drop_bit 4 (snd kb));
          sym1 = unat (snd kb AND 15)
      in bump (bump freq (huff_context i) sym0) (huff_context (i + 1)) sym1)"

primrec count_frames :: "nat \<Rightarrow> int list list \<Rightarrow> 8 word list \<Rightarrow> int list list" where
  "count_frames 0 freq input_data = freq"
| "count_frames (Suc n) freq input_data =
     count_frames n (foldl count_byte freq (zip [0..<9] (take 9 input_data))) (drop 9 input_data)"

definition normalize_context :: "int list \<Rightarrow> error + int list" where
  "normalize_context fs =
     (let sum = sum_list fs in
      if sum = 0 then Inr fs
      else if \<exists>f \<in> set fs. cdiv (f * 255 + sum - 1) sum = 0 \<and> f \<noteq> 0
           then Inl (Assertion ''freq->freq[i][j] == 0'')
           else Inr (map (\<lambda>f. cdiv (f * 255 + sum - 1) sum) fs))"

fun sequence_err :: "(error + 'a) list \<Rightarrow> error + 'a list" where
  "sequence_err [] = Inr []"
| "sequence_err (r # rs) = ebind r (\<lambda>x. ebind (sequence_err rs) (\<lambda>xs. Inr (x # xs)))"

definition calculate_frequencies :: "8 word list \<Rightarrow> error + int list list" where
  "calculate_frequencies input_data =
     (if \<not> length input_data mod 9 = 0 then Inl (Assertion ''data_len % 9 == 0'')
      else sequence_err (map normalize_context
             (count_frames (length input_data div 9) (replicate 3 (replicate 16 0)) input_data)))"

text \<open>
  The loop \<^verbatim>\<open>while (1)\<close> of \<^verbatim>\<open>huffv_compress\<close> for one context: build the tree, generate
  the codes, and while a code is longer than 8 bits halve the frequencies above 1 and retry.
  The entries of \<open>codes\<close> keep their \<open>value\<close> between rounds; only the lengths are reset.
\<close>

partial_function (option) fit_context ::
  "int list \<Rightarrow> HuffCode list \<Rightarrow> (error + (HuffNode \<times> HuffCode list)) option" where
  "fit_context freq codes =
     (let codes = map (\<lambda>c. c\<lparr>hc_length := -1\<rparr>) codes in
      case build_huffman_tree freq 16 of
        Inl e \<Rightarrow> Some (Inl e)
      | Inr root \<Rightarrow>
          (let codes = generate_huffman_codes root 0 0 codes in
           if \<forall>c \<in> set codes. \<not> hc_length c > 8 then Some (Inr (root, codes))
           else fit_context (map (\<lambda>f. if f > 1 then cdiv f 2 else f) freq) codes))"

declare fit_context.simps [code]

text \<open>Serialisation of one context: eight bytes of packed lengths, sixteen bytes of values.\<close>

definition length_nibble :: "HuffCode \<Rightarrow> int" where
  "length_nibble c = (if hc_length c < 0 then 0xF else hc_length c)"

definition serialize_context :: "HuffCode list \<Rightarrow> error + 8 word list" where
  "serialize_context codes =
     (if \<exists>c \<in> set codes. \<not> hc_length c < 16 then Inl (Assertion ''ctx[i].codes[j].length < 16'')
      else if \<exists>c \<in> set codes. \<not> hc_value c < 256 then Inl (Assertion ''ctx[i].codes[j].value < 256'')
      else Inr (map (\<lambda>j. word_of_int (push_bit 4 (length_nibble (codes ! (2 * j)))
                                  OR length_nibble (codes ! (2 * j + 1)))) [0..<8]
                @ map (\<lambda>c. word_of_int (hc_value c)) codes))"

text \<open>
  The bit writer: \<open>buffer\<close> is the \<^verbatim>\<open>uint32_t\<close> accumulator, \<open>bit_pos\<close> the number of pending
  bits, \<open>out\<close> the bytes written so far (\<open>written\<close> is its length).
\<close>

record bitwriter =
  bw_buffer :: "32 word"
  bw_bit_pos :: int
  bw_out :: "8 word list"

function flush_bytes :: "nat \<Rightarrow> bitwriter \<Rightarrow> error + bitwriter" where
  "flush_bytes output_len w =
     (if bw_bit_pos w \<ge> 8 then
        if \<not> length (bw_out w) < output_len then Inl (Assertion ''written < output_len'')
        else flush_bytes output_len
               (w\<lparr>bw_out := bw_out w @ [ucast (drop_bit (nat (bw_bit_pos w - 8)) (bw_buffer w))],
                   bw_bit_pos := bw_bit_pos w - 8\<rparr>)
      else Inr w)"
  by pat_completeness auto

termination
  by (relation "measure (\<lambda>(n, w). nat (bw_bit_pos w))") auto

definition put_symbol :: "HuffCode \<Rightarrow> bitwriter \<Rightarrow> bitwriter" where
  "put_symbol c w =
     w\<lparr>bw_buffer := push_bit (nat (hc_length c)) (bw_buffer w) OR word_of_int (hc_value c),
        bw_bit_pos := bw_bit_pos w + hc_length c\<rparr>"

definition encode_byte ::
  "HuffCode list list \<Rightarrow> nat \<Rightarrow> error + bitwriter \<Rightarrow> nat \<times> 8 word \<Rightarrow> error + bitwriter" where
  "encode_byte ctx output_len r kb =
     ebind r (\<lambda>w.
       let i = 2 * fst kb;
           sym0 = unat (drop_bit 4 (snd kb));
           sym1 = unat (snd kb AND 15);
           c0 = ctx ! huff_context i ! sym0;
           c1 = ctx ! huff_context (i + 1) ! sym1
       in if \<not> hc_length c0 \<ge> 0 then Inl (Assertion ''ctx[c0].codes[sym0].length >= 0'')
          else if \<not> hc_length c1 \<ge> 0 then Inl (Assertion ''ctx[c1].codes[sym1].length >= 0'')
          else flush_bytes output_len (put_symbol c1 (put_symbol c0 w)))"

primrec encode_frames ::
  "nat \<Rightarrow> HuffCode list list \<Rightarrow> nat \<Rightarrow> error + bitwriter \<Rightarrow> 8 word list \<Rightarrow> error + bitwriter" where
  "encode_frames 0 ctx output_len r input_data = r"
| "encode_frames (Suc n) ctx output_len r input_data =
     encode_frames n ctx output_len
       (foldl (encode_byte ctx output_len) r (zip [0..<9] (take 9 input_data)))
       (drop 9 input_data)"

definition encode_tail :: "nat \<Rightarrow> bitwriter \<Rightarrow> error + 8 word list" where
  "encode_tail output_len w =
     (if bw_bit_pos w > 0 then
        if \<not> length (bw_out w) < output_len then Inl (Assertion ''written < output_len'')
        else if \<not> bw_bit_pos w < 8 then Inl (Assertion ''bit_pos < 8'')
        else Inr (bw_out w @ [ucast (push_bit (nat (8 - bw_bit_pos w)) (bw_buffer w))])
      else Inr (bw_out w))"

text \<open>
  \<^verbatim>\<open>huffv_compress\<close>: the result is the compressed bytes (the function returns their count)
  and the 72 bytes of serialised contexts. The value is \<open>None\<close> if the fitting loop of a
  context never ends.
\<close>

definition huffv_compress ::
  "8 word list \<Rightarrow> nat \<Rightarrow> nat \<Rightarrow> (error + (8 word list \<times> 8 word list)) option" where
  "huffv_compress input_data output_len outctxlen =
     (if \<not> length input_data > 0 then Some (Inl (Assertion ''data_len > 0''))
      else case calculate_frequencies input_data of
        Inl e \<Rightarrow> Some (Inl e)
      | Inr freq \<Rightarrow>
         (let fresh = replicate 16 \<lparr> hc_value = 0, hc_length = 0 \<rparr> in
          case (fit_context (freq ! 0) fresh, fit_context (freq ! 1) fresh,
                fit_context (freq ! 2) fresh) of
            (Some r0, Some r1, Some r2) \<Rightarrow>
              Some (ebind (sequence_err [r0, r1, r2]) (\<lambda>fitted.
                let ctx = map snd fitted in
                ebind (sequence_err (map serialize_context ctx)) (\<lambda>ser.
                  if \<not> length (concat ser) = outctxlen then Inl (Assertion ''outctxlen == 0'')
                  else ebind (encode_frames (length input_data div 9) ctx output_len
                                (Inr \<lparr> bw_buffer = 0, bw_bit_pos = 0, bw_out = [] \<rparr>) input_data)
                         (\<lambda>w. ebind (encode_tail output_len w)
                            (\<lambda>out. Inr (out, concat ser))))))
          | _ \<Rightarrow> None))"

text \<open>
  One lookup table: 256 bytes, high nibble the symbol, low nibble the code length. The body
  of the loop over the contexts is the same in \<^verbatim>\<open>huffv_decompress_init\<close> and in
  \<^verbatim>\<open>wav64_vadpcm_init_huffman\<close> (wav64\_vadpcm.c): zero the table, fill the entries of each
  used symbol, then require every entry to be non-zero.
\<close>

definition symbol_length :: "8 word list \<Rightarrow> nat \<Rightarrow> nat" where
  "symbol_length lengths sy =
     unat (drop_bit (4 * (if even sy then 1 else 0)) (lengths ! (sy div 2)) AND 0xF)"

fun fill_entries :: "8 word list \<Rightarrow> nat \<Rightarrow> nat \<Rightarrow> 8 word \<Rightarrow> error + 8 word list" where
  "fill_entries codes code 0 v = Inr codes"
| "fill_entries codes code (Suc k) v =
     ebind (fill_entries codes code k v) (\<lambda>codes.
       if \<not> codes ! (code + k) = 0 then Inl (Assertion ''lookup[i].codes[code + k] == 0'')
       else Inr (codes[code + k := v]))"

definition fill_symbol ::
  "8 word list \<Rightarrow> 8 word list \<Rightarrow> error + 8 word list \<Rightarrow> nat \<Rightarrow> error + 8 word list" where
  "fill_symbol lengths vals r sy =
     ebind r (\<lambda>codes.
       let len = symbol_length lengths sy in
       if len = 0xF then Inr codes
       else if \<not> len \<le> 8 then Inl (Assertion ''len <= 8'')
       else if \<not> unat (vals ! sy) < 2 ^ len then Inl (Assertion ''sctx->values[sym] < (1 << len)'')
       else
         let shift = 8 - len;
             code = unat (vals ! sy) * 2 ^ shift;
             table_value = word_of_nat (sy * 16) OR (word_of_nat len AND 0xF)
         in fill_entries codes code (2 ^ shift) table_value)"

definition build_lookup :: "8 word list \<Rightarrow> 8 word list \<Rightarrow> error + 8 word list" where
  "build_lookup lengths vals =
     ebind (foldl (fill_symbol lengths vals) (Inr (replicate 256 0)) [0..<16]) (\<lambda>codes.
       if \<exists>j \<in> set [0..<256]. \<not> codes ! j \<noteq> 0 then Inl (Assertion ''lookup[i].codes[j] != 0'')
       else Inr codes)"

definition huffv_decompress_init :: "8 word list \<Rightarrow> error + 8 word list list" where
  "huffv_decompress_init ctx_data =
     (if \<not> length ctx_data = 72 then Inl (Assertion ''ctx_len == HUFF_CONTEXT_LEN'')
      else sequence_err
             (map (\<lambda>i. build_lookup (take 8 (drop (i * 24) ctx_data))
                                     (take 16 (drop (i * 24 + 8) ctx_data))) [0..<3]))"

text \<open>
  \<^verbatim>\<open>huffv_decompress\<close> of the tool: a bit reader over the compressed bytes, refilled one byte
  at a time (with zero bits past the end), decoding 18 nibbles per block.
\<close>

record bitreader =
  br_buffer :: "32 word"
  br_count :: int
  br_index :: nat

function refill :: "8 word list \<Rightarrow> bitreader \<Rightarrow> bitreader" where
  "refill compressed r =
     (if br_count r < 8 then
        refill compressed
          (r\<lparr>br_buffer := (if br_index r < length compressed
                            then push_bit 8 (br_buffer r) OR ucast (compressed ! br_index r)
                            else push_bit 8 (br_buffer r)),
              br_index := br_index r + 1, br_count := br_count r + 8\<rparr>)
      else r)"
  by pat_completeness auto

termination
  by (relation "measure (\<lambda>(c, r). nat (8 - br_count r))") auto

definition decode_nibble ::
  "8 word list \<Rightarrow> 8 word list list \<Rightarrow> error + (bitreader \<times> 8 word list) \<Rightarrow> nat
     \<Rightarrow> error + (bitreader \<times> 8 word list)" where
  "decode_nibble compressed lookup st n =
     ebind st (\<lambda>(r, nibbles).
       let r = refill compressed r;
           index = unat (drop_bit (nat (br_count r - 8)) (br_buffer r) AND 0xFF);
           code_val = lookup ! huff_context n ! index;
           symbol = drop_bit 4 code_val;
           code_len = int (unat (code_val AND 0x0F))
       in if \<not> code_len \<le> 8 then Inl (Assertion ''code_len <= 8'')
          else Inr (r\<lparr>br_count := br_count r - code_len\<rparr>, nibbles @ [symbol]))"

primrec decode_blocks ::
  "nat \<Rightarrow> 8 word list \<Rightarrow> 8 word list list \<Rightarrow> bitreader \<Rightarrow> 8 word list
     \<Rightarrow> error + (bitreader \<times> 8 word list)" where
  "decode_blocks 0 compressed lookup r out = Inr (r, out)"
| "decode_blocks (Suc b) compressed lookup r out =
     ebind (foldl (decode_nibble compressed lookup) (Inr (r, [])) [0..<18]) (\<lambda>(r, nibbles).
       decode_blocks b compressed lookup r
         (out @ map (\<lambda>i. push_bit 4 (nibbles ! (2 * i)) OR (nibbles ! (2 * i + 1) AND 0x0F)) [0..<9]))"

definition huffv_decompress ::
  "8 word list \<Rightarrow> 8 word list list \<Rightarrow> nat \<Rightarrow> error + (8 word list \<times> int)" where
  "huffv_decompress compressed lookup output_len =
     (if \<not> output_len mod 9 = 0 then Inl (Assertion ''output_len % 9 == 0'')
      else ebind (decode_blocks (output_len div 9) compressed lookup
                    \<lparr> br_buffer = 0, br_count = 0, br_index = 0 \<rparr> [])
             (\<lambda>(r, out). Inr (out, int (br_index r) * 8 - br_count r)))"

text \<open>
  The round trip as \<^verbatim>\<open>conv_wav64.cpp\<close> runs it after compressing: compress into a buffer as
  large as the input, build the tables from the serialised contexts, decompress to the
  input's length.
\<close>

definition huffv_roundtrip :: "8 word list \<Rightarrow> (error + 8 word list) option" where
  "huffv_roundtrip dest =
     map_option (\<lambda>r. ebind r (\<lambda>(compbuf, ctxbuf).
         ebind (huffv_decompress_init ctxbuf) (\<lambda>tbl.
           ebind (huffv_decompress compbuf tbl (length dest)) (\<lambda>(scratch, bitpos). Inr scratch))))
       (huffv_compress dest (length dest) 72)"

text \<open>
  The hypothesis of the table-building property, in the spec's words: the stored lengths
  (\<open>0xF\<close> for an unused symbol) and MSB-aligned values of a context form a valid prefix code:
  some symbol is used, every used symbol has a length of at most 8 and a value that fits
  it, and no used code word is a prefix of another one.
\<close>

definition code_is_prefix :: "nat \<times> nat \<Rightarrow> nat \<times> nat \<Rightarrow> bool" where
  "code_is_prefix a b = (fst a \<le> fst b \<and> snd b div 2 ^ (fst b - fst a) = snd a)"

definition valid_prefix_code :: "8 word list \<Rightarrow> 8 word list \<Rightarrow> bool" where
  "valid_prefix_code lengths vals =
     (let used = filter (\<lambda>s. symbol_length lengths s \<noteq> 0xF) [0..<16];
          word_of = (\<lambda>s. (symbol_length lengths s, unat (vals ! s)))
      in used \<noteq> [] \<and>
         (\<forall>s \<in> set used. fst (word_of s) \<le> 8 \<and> snd (word_of s) < 2 ^ fst (word_of s)) \<and>
         (\<forall>s \<in> set used. \<forall>t \<in> set used. s \<noteq> t \<longrightarrow> \<not> code_is_prefix (word_of s) (word_of t)))"

section \<open>WAV64 and the VADPCM codec (wav64.c, wav64\_vadpcm.c)\<close>

text \<open>
  A file descriptor is the bytes of its file and the current offset. \<^verbatim>\<open>lseek\<close> with
  \<^verbatim>\<open>SEEK_SET\<close> sets the offset (a negative target is refused), \<^verbatim>\<open>read\<close> returns the
  bytes from the offset on, at most the count asked for, and advances.
\<close>

record fd_state =
  fd_data :: "8 word list"
  fd_offset :: int

definition lseek_set :: "fd_state \<Rightarrow> int \<Rightarrow> fd_state" where
  "lseek_set fd off = (if off < 0 then fd else fd\<lparr>fd_offset := off\<rparr>)"

definition read_fd :: "fd_state \<Rightarrow> int \<Rightarrow> 8 word list \<times> fd_state" where
  "read_fd fd count =
     (let bytes = take (nat count) (drop (nat (fd_offset fd)) (fd_data fd))
      in (bytes, fd\<lparr>fd_offset := fd_offset fd + int (length bytes)\<rparr>))"

definition store_bytes :: "(nat \<Rightarrow> 8 word) \<Rightarrow> nat \<Rightarrow> 8 word list \<Rightarrow> (nat \<Rightarrow> 8 word)" where
  "store_bytes m a bytes = (\<lambda>k. if a \<le> k \<and> k < a + length bytes then bytes ! (k - a) else m k)"

text \<open>
  Modelled from the spec: \<^verbatim>\<open>mixer.h\<close> with the declaration of \<^verbatim>\<open>waveform_t\<close> is not among
  the sources; the record has the attributes named in the spec and used by the code. The
  function pointer \<^verbatim>\<open>wave.read\<close> is one of the read callbacks of the repository.
\<close>

datatype read_fn = Read_NULL | Read_wav64_none | Read_wav64_none_memcopy | Read_waveform_vadpcm

record waveform_t =
  name :: string
  channels :: int
  bits :: int
  frequency :: int
  len :: int
  loop_len :: int
  wave_state_size :: int
  read :: read_fn

text \<open>The structures of \<^verbatim>\<open>wav64_vadpcm_internal.h\<close> and \<^verbatim>\<open>wav64_internal.h\<close>.\<close>

record wav64_vadpcm_skippoint_t =
  skip_state :: "int list list"
  skip_bitpos :: int
  skip_offset :: int

record wav64_vadpcm_huffctx_t =
  ctx_lengths :: "8 word list"
  ctx_values :: "8 word list"

record wav64_header_vadpcm_t =
  npredictors :: int
  order :: int
  vflags :: "8 word"
  num_skippoints :: int
  huff_tbl :: "8 word list list option"
  skip_points :: "wav64_vadpcm_skippoint_t list"
  huff_ctx :: "wav64_vadpcm_huffctx_t list"
  codebook :: "int list list"

definition VADPCM_FLAG_HUFFMAN :: "8 word" where
  "VADPCM_FLAG_HUFFMAN = push_bit 0 1"

record wav64_state_t =
  format :: int
  ext :: "wav64_header_vadpcm_t option"
  samples :: "(nat \<Rightarrow> 8 word) option"
  current_fd :: int
  base_offset :: int
  nsimul :: int
  st_flags :: "8 word"

text \<open>
  What a read callback of a WAV64 works on besides the sample buffer: the waveform and its
  state (\<^verbatim>\<open>sbuf->wave\<close>), the descriptor \<^verbatim>\<open>current_fd\<close>, the bit position kept in the
  per-voice state \<^verbatim>\<open>sbuf->state\<close>, and the queue of commands sent to the RSP. The predictor
  vectors of the per-voice state are only written by the RSP: \<^verbatim>\<open>rsp_vadpcm_copystate\<close> with
  a NULL source clears them, with a skip point restores them from it.
\<close>

datatype rsp_cmd =
    Rspq_highpri_begin
  | Rspq_highpri_end
  | Rspq_highpri_sync
  | Rsp_vadpcm_copystate "nat option"
  | Rsp_vadpcm_decompress "32 word" "32 word" bool int

record wav64_io =
  io_wave :: waveform_t
  io_st :: wav64_state_t
  io_fd :: fd_state
  io_bitpos :: int
  io_rspq :: "rsp_cmd list"

definition rspq_write :: "rsp_cmd \<Rightarrow> wav64_io \<Rightarrow> wav64_io" where
  "rspq_write cmd c = c\<lparr>io_rspq := io_rspq c @ [cmd]\<rparr>"

definition is_huffman :: "wav64_header_vadpcm_t \<Rightarrow> bool" where
  "is_huffman vhead = (vflags vhead AND VADPCM_FLAG_HUFFMAN \<noteq> 0)"

text \<open>The search loop over the skip points of \<^verbatim>\<open>waveform_vadpcm_read\<close>: the first match.\<close>

fun find_skippoint :: "wav64_vadpcm_skippoint_t list \<Rightarrow> nat \<Rightarrow> int \<Rightarrow> nat option" where
  "find_skippoint [] i wpos' = None"
| "find_skippoint (p # ps) i wpos' =
     (if wpos' = skip_offset p then Some i else find_skippoint ps (Suc i) wpos')"

text \<open>The first block of \<^verbatim>\<open>waveform_vadpcm_read\<close>: positioning the stream.\<close>

definition vadpcm_seek ::
  "wav64_header_vadpcm_t \<Rightarrow> wav64_io \<Rightarrow> int \<Rightarrow> bool \<Rightarrow> error + wav64_io" where
  "vadpcm_seek vhead c wpos' seeking =
     (if seeking then
        let c = rspq_write Rspq_highpri_begin c in
        ebind
          (if wpos' = 0 then
             let c = rspq_write (Rsp_vadpcm_copystate None) c;
                 c = c\<lparr>io_fd := lseek_set (io_fd c) (base_offset (io_st c))\<rparr>
             in Inr (c\<lparr>io_bitpos := 0\<rparr>)
           else
             case find_skippoint (take (nat (num_skippoints vhead)) (skip_points vhead)) 0 wpos' of
               None \<Rightarrow> Inl (Assertion ''wav64: invalid VADPCM seeking point'')
             | Some i \<Rightarrow>
                 let c = c\<lparr>io_bitpos := skip_bitpos (skip_points vhead ! i)\<rparr>;
                     c = rspq_write (Rsp_vadpcm_copystate (Some i)) c
                 in Inr (if \<not> is_huffman vhead
                         then c\<lparr>io_fd := lseek_set (io_fd c)
                                             (base_offset (io_st c) + cdiv wpos' 16 * 9)\<rparr>
                         else c))
          (\<lambda>c. Inr (rspq_write Rspq_highpri_end c))
      else if \<not> (wpos' mod 16 = 0) then Inl (Assertion ''(wpos % 16) == 0'')
      else Inr (if \<not> is_huffman vhead
                then c\<lparr>io_fd := lseek_set (io_fd c) (base_offset (io_st c) + cdiv wpos' 16 * 9)\<rparr>
                else c))"

text \<open>
  \<^verbatim>\<open>huffv_decompress\<close> of the runtime: read \<open>slen\<close> bytes at the byte of the current bit
  position into the scratch area, then decode \<open>len / 9\<close> frames of 18 nibbles through the
  three lookup tables, a 64-bit register being refilled by big-endian 32-bit words. The
  scratch area is filled and read through its cached view; \<open>phys_off base p\<close> is the place
  in the buffer memory (which starts at the uncached address \<open>base\<close>) of the byte that the
  pointer \<open>p\<close> designates in either view. Pointers are compared as the 32-bit addresses they
  are: the check inside the refill loop compares the cached \<open>src\<close> with the uncached
  \<open>scratch + slen\<close>, the closing check compares two cached addresses.
\<close>

definition phys_off :: "32 word \<Rightarrow> 32 word \<Rightarrow> nat" where
  "phys_off base p = unat (UncachedAddr p - base)"

record hbits =
  hb_buffer :: "64 word"
  hb_bits :: int
  hb_src :: "32 word"
  hb_bitpos :: int

definition load32 :: "(nat \<Rightarrow> 8 word) \<Rightarrow> nat \<Rightarrow> 32 word" where
  "load32 m a = word_rcat [m a, m (a + 1), m (a + 2), m (a + 3)]"

function hrefill ::
  "(nat \<Rightarrow> 8 word) \<Rightarrow> 32 word \<Rightarrow> 32 word \<Rightarrow> int \<Rightarrow> hbits \<Rightarrow> error + hbits" where
  "hrefill m base scratch slen h =
     (if hb_bits h < 32 then
        let h = h\<lparr>hb_buffer := push_bit 32 (hb_buffer h)
                                   OR ucast (load32 m (phys_off base (hb_src h))),
                   hb_src := hb_src h + 4\<rparr>
        in if \<not> hb_src h < scratch + word_of_int slen
           then Inl (Assertion ''invalid read past end'')
           else hrefill m base scratch slen (h\<lparr>hb_bits := hb_bits h + 32\<rparr>)
      else Inr h)"
  by pat_completeness auto

termination
  by (relation "measure (\<lambda>(m, b, s, l, h). nat (32 - hb_bits h))") auto

definition hsymbol :: "8 word list \<Rightarrow> hbits \<Rightarrow> error + (8 word \<times> hbits)" where
  "hsymbol tbl h =
     (let code = tbl ! unat (drop_bit (nat (hb_bits h - 8)) (hb_buffer h) AND 0xFF);
          len1 = int (unat (code AND 0xF));
          val1 = drop_bit 4 code
      in if \<not> len1 \<le> 8 then Inl (Assertion ''len1 <= 8'')
         else Inr (val1, h\<lparr>hb_bits := hb_bits h - len1, hb_bitpos := hb_bitpos h + len1\<rparr>))"

definition hbyte ::
  "8 word list list \<Rightarrow> 32 word \<Rightarrow> 32 word \<Rightarrow> int
     \<Rightarrow> error + ((nat \<Rightarrow> 8 word) \<times> nat \<times> hbits) \<Rightarrow> nat
     \<Rightarrow> error + ((nat \<Rightarrow> 8 word) \<times> nat \<times> hbits)" where
  "hbyte tbl base scratch slen st j =
     ebind st (\<lambda>(m, dst, h).
       ebind (hrefill m base scratch slen h) (\<lambda>h.
       ebind (hsymbol (tbl ! (if j = 0 then 0 else 2)) h) (\<lambda>(val1, h).
       ebind (hsymbol (tbl ! (if j = 0 then 1 else 2)) h) (\<lambda>(val2, h).
         Inr (m(dst := push_bit 4 val1 OR val2), dst + 1, h)))))"

primrec hframes ::
  "nat \<Rightarrow> 8 word list list \<Rightarrow> 32 word \<Rightarrow> 32 word \<Rightarrow> int \<Rightarrow> (nat \<Rightarrow> 8 word) \<times> nat \<times> hbits
     \<Rightarrow> error + ((nat \<Rightarrow> 8 word) \<times> nat \<times> hbits)" where
  "hframes 0 tbl base scratch slen st = Inr st"
| "hframes (Suc n) tbl base scratch slen st =
     ebind (foldl (hbyte tbl base scratch slen) (Inr st) [0..<9]) (hframes n tbl base scratch slen)"

definition huffv_decompress_rt ::
  "wav64_header_vadpcm_t \<Rightarrow> wav64_io \<Rightarrow> (nat \<Rightarrow> 8 word) \<Rightarrow> 32 word \<Rightarrow> nat \<Rightarrow> int
     \<Rightarrow> 32 word \<Rightarrow> int \<Rightarrow> error + (wav64_io \<times> (nat \<Rightarrow> 8 word))" where
  "huffv_decompress_rt vhead c m base dst len' scratch slen =
     (case huff_tbl vhead of
        None \<Rightarrow> Inl (Assertion ''vhead->huff_tbl'')
      | Some tbl \<Rightarrow>
         (let bitpos = io_bitpos c;
              fd = lseek_set (io_fd c) (base_offset (io_st c) + cdiv bitpos 8);
              (bytes, fd) = read_fd fd slen;
              m = store_bytes m (phys_off base (CachedAddr scratch)) bytes;
              src = CachedAddr scratch;
              h = (if bitpos mod 8 \<noteq> 0
                   then \<lparr> hb_buffer = ucast (m (phys_off base src)), hb_bits = 8 - bitpos mod 8,
                          hb_src = src + 1, hb_bitpos = bitpos \<rparr>
                   else \<lparr> hb_buffer = 0, hb_bits = 0, hb_src = src, hb_bitpos = bitpos \<rparr>)
          in if \<not> len' mod 9 = 0 then Inl (Assertion ''len % 9 == 0'')
             else ebind (hframes (nat (cdiv len' 9)) tbl base scratch slen (m, dst, h))
                    (\<lambda>(m, dst, h).
                       if \<not> hb_src h \<le> CachedAddr scratch + word_of_int slen
                       then Inl (Assertion ''invalid read past end'')
                       else Inr (c\<lparr>io_fd := fd, io_bitpos := hb_bitpos h\<rparr>, m))))"

text \<open>
  One round of the decode loop of \<^verbatim>\<open>waveform_vadpcm_read\<close>: reserve the frames, fetch the
  compressed bytes to the tail of the reserved area, queue the RSP decompression. The
  result carries the number of frames of the round.
\<close>

definition vadpcm_chunk ::
  "wav64_header_vadpcm_t \<Rightarrow> wav64_io \<times> samplebuffer \<Rightarrow> int \<Rightarrow> bool
     \<Rightarrow> error + ((wav64_io \<times> samplebuffer) \<times> int)" where
  "vadpcm_chunk vhead cs wlen highpri =
     (let c = fst cs; sbuf = snd cs;
          max_vadpcm_frames = (if channels (io_wave c) = 1 then 94 else cdiv 94 2);
          nframes = min (cdiv wlen 16) max_vadpcm_frames
      in ebind (samplebuffer_append sbuf (nframes * 16)) (\<lambda>(dest, sbuf).
           let src_bytes = 9 * nframes * channels (io_wave c);
               src = dest + word_of_int (push_bit (bps sbuf) (nframes * 16)) - word_of_int src_bytes
           in ebind
                (if is_huffman vhead then
                   let scratch_size = ROUND_UP (cdiv (int (unat (src - dest))) 2) 16;
                       scratch = (if dest AND 15 \<noteq> 0 then dest + (16 - (dest AND 15)) else dest)
                   in ebind (huffv_decompress_rt vhead c (mem sbuf) (ptr sbuf)
                               (unat (src - ptr sbuf)) src_bytes scratch scratch_size)
                        (\<lambda>(c, m). Inr (c, sbuf\<lparr>mem := m\<rparr>))
                 else
                   let (bytes, fd) = read_fd (io_fd c) src_bytes in
                   if \<not> src_bytes = int (length bytes) then Inl (Assertion ''invalid read past end'')
                   else Inr (c\<lparr>io_fd := fd\<rparr>,
                             sbuf\<lparr>mem := store_bytes (mem sbuf) (unat (src - ptr sbuf)) bytes\<rparr>))
                (\<lambda>(c, sbuf).
                   let c = (if \<not> highpri then rspq_write Rspq_highpri_begin c else c) in
                   if \<not> (nframes > 0 \<and> nframes \<le> 256)
                   then Inl (Assertion ''nframes > 0 && nframes <= 256'')
                   else Inr ((rspq_write (Rsp_vadpcm_decompress src dest
                                (channels (io_wave c) = 2) nframes) c, sbuf), nframes))))"

lemma vadpcm_chunk_progress:
  "vadpcm_chunk vhead cs wlen highpri = Inr (cs', nframes) \<Longrightarrow> 0 < nframes"
  unfolding vadpcm_chunk_def Let_def ebind_def
  by (auto split: sum.splits prod.splits if_splits)

function vadpcm_chunks ::
  "wav64_header_vadpcm_t \<Rightarrow> wav64_io \<times> samplebuffer \<Rightarrow> int \<Rightarrow> int \<Rightarrow> bool
     \<Rightarrow> error + ((wav64_io \<times> samplebuffer) \<times> int \<times> bool)" where
  "vadpcm_chunks vhead cs wpos' wlen highpri =
     (if wlen > 0 then
        case vadpcm_chunk vhead cs wlen highpri of
          Inl e \<Rightarrow> Inl e
        | Inr (cs', nframes) \<Rightarrow>
            vadpcm_chunks vhead cs' (wpos' + 16 * nframes) (wlen - 16 * nframes) True
      else Inr (cs, wpos', highpri))"
  by pat_completeness auto

termination
  by (relation "measure (\<lambda>(v, cs, wp, wl, h). nat wl)") (auto dest: vadpcm_chunk_progress)

definition waveform_vadpcm_read :: "wav64_io WaveformRead" where
  "waveform_vadpcm_read c sbuf wpos' wlen seeking =
     (case ext (io_st c) of
        None \<Rightarrow> Inl (Assertion ''wav->st->ext'')
      | Some vhead \<Rightarrow>
         if \<not> state_size sbuf \<ge> 48
         then Inl (Assertion ''sbuf->state_size >= sizeof(wav64_state_vadpcm_t)'')
         else ebind (vadpcm_seek vhead c wpos' seeking) (\<lambda>c.
           let wlen = ROUND_UP wlen 32 in
           if wlen = 0 then Inr (c, sbuf)
           else ebind (vadpcm_chunks vhead (c, sbuf) wpos' wlen False) (\<lambda>((c, sbuf), wpos', highpri).
             let c = (if highpri then rspq_write Rspq_highpri_end c else c) in
             if loop_len (io_wave c) \<noteq> 0 \<and> wpos' > len (io_wave c) then
               ebind (samplebuffer_undo sbuf (wpos' - len (io_wave c)))
                 (\<lambda>sbuf. Inr (rspq_write Rspq_highpri_sync c, sbuf))
             else Inr (c, sbuf))))"

text \<open>
  \<^verbatim>\<open>wav64_vadpcm_init_huffman\<close>: the three lookup tables, each built by the loop body
  shared with the converter's \<^verbatim>\<open>huffv_decompress_init\<close>.
\<close>

definition wav64_vadpcm_init_huffman :: "wav64_header_vadpcm_t \<Rightarrow> error + wav64_header_vadpcm_t" where
  "wav64_vadpcm_init_huffman vhead =
     ebind (sequence_err (map (\<lambda>i. build_lookup (ctx_lengths (huff_ctx vhead ! i))
                                                  (ctx_values (huff_ctx vhead ! i))) [0..<3]))
       (\<lambda>tbl. Inr (vhead\<lparr>huff_tbl := Some tbl\<rparr>))"

text \<open>
  A mono VADPCM WAV64 without Huffman and of 64 samples that no voice has read yet: the
  payload starts at offset 100 of a file of 136 bytes (byte \<open>k\<close> holds \<open>k\<close>); the skip-point
  table is the parameter. With it, the 16-bit sample buffer of a voice right after
  \<^verbatim>\<open>samplebuffer_init\<close> and \<^verbatim>\<open>samplebuffer_set_bps\<close>.
\<close>

definition demo_vadpcm :: "wav64_vadpcm_skippoint_t list \<Rightarrow> wav64_io" where
  "demo_vadpcm sps =
     \<lparr> io_wave = \<lparr> name = ''demo.wav64'', channels = 1, bits = 16, frequency = 32000, len = 64,
                    loop_len = 0, wave_state_size = 48, read = Read_waveform_vadpcm \<rparr>,
       io_st = \<lparr> format = 1,
                  ext = Some \<lparr> npredictors = 1, order = 2, vflags = 0,
                               num_skippoints = int (length sps), huff_tbl = None,
                               skip_points = sps, huff_ctx = [], codebook = [] \<rparr>,
                  samples = None, current_fd = 3, base_offset = 100, nsimul = 0, st_flags = 0 \<rparr>,
       io_fd = \<lparr> fd_data = map word_of_nat [0..<136], fd_offset = 0 \<rparr>,
       io_bitpos = 0,
       io_rspq = [] \<rparr>"

definition demo_voice_buffer :: samplebuffer where
  "demo_voice_buffer =
     blank_buffer\<lparr>ptr := 0xA0100000, bps := 1, size_sb := 64, wnext := -1, state_size := 48\<rparr>"

declare vadpcm_chunks.simps [simp del]

section \<open>WAV64 container: open, loop control, close (wav64.c)\<close>

text \<open>The raw PCM read callbacks \<^verbatim>\<open>wav64_none_read\<close> and \<^verbatim>\<open>wav64_none_read_memcopy\<close>.\<close>

definition none_bps :: "waveform_t \<Rightarrow> nat" where
  "none_bps w = (if bits w = 8 then 0 else 1) + (if channels w = 2 then 1 else 0)"

definition wav64_none_read :: "wav64_io WaveformRead" where
  "wav64_none_read c sbuf wpos' wlen seeking =
     (let s = none_bps (io_wave c);
          fd = lseek_set (io_fd c) (base_offset (io_st c) + push_bit s wpos')
      in ebind (samplebuffer_append sbuf wlen) (\<lambda>(ram_addr, sbuf).
           let (bytes, fd) = read_fd fd (push_bit s wlen)
           in Inr (c\<lparr>io_fd := fd\<rparr>,
                   sbuf\<lparr>mem := store_bytes (mem sbuf) (unat (ram_addr - ptr sbuf)) bytes\<rparr>)))"

definition wav64_none_read_memcopy :: "wav64_io WaveformRead" where
  "wav64_none_read_memcopy c sbuf wpos' wlen seeking =
     (let s = none_bps (io_wave c) in
      case samples (io_st c) of
        None \<Rightarrow> Inl (Assertion ''wav->st->samples'')
      | Some smp \<Rightarrow>
          ebind (samplebuffer_append sbuf wlen) (\<lambda>(dst_addr, sbuf).
            Inr (c, sbuf\<lparr>mem := store_bytes (mem sbuf) (unat (dst_addr - ptr sbuf))
                                  (map (\<lambda>k. smp (nat (push_bit s wpos') + k))
                                       [0..<nat (push_bit s wlen)])\<rparr>)))"

text \<open>The call \<^verbatim>\<open>wave->read(...)\<close> through the function pointer stored in the waveform.\<close>

definition call_read :: "wav64_io WaveformRead" where
  "call_read c sbuf wpos' wlen seeking =
     (case read (io_wave c) of
        Read_NULL \<Rightarrow> Inl (Assertion ''wave->read'')
      | Read_wav64_none \<Rightarrow> wav64_none_read c sbuf wpos' wlen seeking
      | Read_wav64_none_memcopy \<Rightarrow> wav64_none_read_memcopy c sbuf wpos' wlen seeking
      | Read_waveform_vadpcm \<Rightarrow> waveform_vadpcm_read c sbuf wpos' wlen seeking)"

text \<open>
  The 28-byte header \<^verbatim>\<open>wav64_header_t\<close>, read from the file in one piece on a big-endian
  machine. Bytes that a short file does not supply are taken as zero.
\<close>

record wav64_header_t =
  head_id :: "8 word list"
  head_version :: int
  head_format :: int
  head_channels :: int
  head_nbits :: int
  head_freq :: int
  head_len :: int
  head_loop_len :: int
  head_start_offset :: int
  head_state_size :: int

definition be32 :: "8 word list \<Rightarrow> nat \<Rightarrow> 32 word" where
  "be32 b k = word_rcat [b ! k, b ! (k + 1), b ! (k + 2), b ! (k + 3)]"

definition read_header :: "8 word list \<Rightarrow> wav64_header_t" where
  "read_header bytes =
     (let b = bytes @ replicate (28 - length bytes) 0 in
      \<lparr> head_id = take 4 b,
        head_version = sint (b ! 4),
        head_format = sint (b ! 5),
        head_channels = sint (b ! 6),
        head_nbits = sint (b ! 7),
        head_freq = sint (be32 b 8),
        head_len = sint (be32 b 12),
        head_loop_len = sint (be32 b 16),
        head_start_offset = uint (be32 b 20),
        head_state_size = uint (be32 b 24) \<rparr>)"

definition WAV64_ID :: "8 word list" where
  "WAV64_ID = map of_char ''WV64''"

definition WAV_RIFF_ID :: "8 word list" where
  "WAV_RIFF_ID = map of_char ''RIFF''"

definition WAV_RIFX_ID :: "8 word list" where
  "WAV_RIFX_ID = map of_char ''RIFX''"

text \<open>
  A \<^verbatim>\<open>wav64_t\<close> is the waveform and the pointer \<open>st\<close> to its heap block (\<open>None\<close> is NULL).
  The environment of the container functions: the files that can be opened, the open
  descriptors, the heap blocks, and for each mixer channel the address of the waveform it
  plays. \<open>sys_next\<close> and \<open>sys_next_fd\<close> stand for the allocator's and the kernel's choice of
  a fresh block address and descriptor number.
\<close>

record wav64_t =
  wave :: waveform_t
  st :: "nat option"

record wav64_sys =
  sys_files :: "string \<rightharpoonup> 8 word list"
  sys_fds :: "int \<rightharpoonup> fd_state"
  sys_heap :: "nat \<rightharpoonup> wav64_state_t"
  sys_next :: nat
  sys_next_fd :: int
  sys_playing :: "nat \<Rightarrow> nat option"

datatype wav64_streaming_mode_t = WAV64_STREAMING_FULL | WAV64_STREAMING_NONE

definition WAV64_FORMAT_RAW :: int where "WAV64_FORMAT_RAW = 0"
definition WAV64_FORMAT_VADPCM :: int where "WAV64_FORMAT_VADPCM = 1"
definition WAV64_NUM_FORMATS :: int where "WAV64_NUM_FORMATS = 4"
definition WAV64_FLAG_OWNED_FD :: "8 word" where "WAV64_FLAG_OWNED_FD = push_bit 0 1"

text \<open>
  The codec table \<^verbatim>\<open>algos\<close> as statically initialised: raw PCM and VADPCM. (The entry for
  Opus is only filled by \<^verbatim>\<open>__wav64_init_compression_lvl3\<close>; its codec sits on an external
  decoder and is not part of the model.)
\<close>

definition wav64_none_init :: "waveform_t \<times> wav64_state_t \<Rightarrow> int \<Rightarrow> error + (waveform_t \<times> wav64_state_t)" where
  "wav64_none_init ws ssize =
     (if samples (snd ws) = None then Inr ((fst ws)\<lparr>read := Read_wav64_none\<rparr>, snd ws)
      else Inr ((fst ws)\<lparr>read := Read_wav64_none_memcopy\<rparr>, snd ws))"

definition wav64_vadpcm_init :: "waveform_t \<times> wav64_state_t \<Rightarrow> int \<Rightarrow> error + (waveform_t \<times> wav64_state_t)" where
  "wav64_vadpcm_init ws ssize =
     (if \<not> ssize = 48 then Inl (Assertion ''wav64: invalid state size for VADPCM'')
      else case ext (snd ws) of
        None \<Rightarrow> Inl (Assertion ''wav->st->ext'')
      | Some vhead \<Rightarrow>
          ebind (if is_huffman vhead then wav64_vadpcm_init_huffman vhead else Inr vhead)
            (\<lambda>vhead. Inr ((fst ws)\<lparr>read := Read_waveform_vadpcm\<rparr>, (snd ws)\<lparr>ext := Some vhead\<rparr>)))"

definition wav64_vadpcm_close :: "wav64_state_t \<Rightarrow> wav64_state_t" where
  "wav64_vadpcm_close s =
     (case ext s of
        None \<Rightarrow> s
      | Some vhead \<Rightarrow> (if huff_tbl vhead \<noteq> None then s\<lparr>ext := Some (vhead\<lparr>huff_tbl := None\<rparr>)\<rparr> else s))"

definition algos_init ::
  "int \<Rightarrow> (waveform_t \<times> wav64_state_t \<Rightarrow> int \<Rightarrow> error + (waveform_t \<times> wav64_state_t)) option" where
  "algos_init fmt =
     (if fmt = WAV64_FORMAT_RAW then Some wav64_none_init
      else if fmt = WAV64_FORMAT_VADPCM then Some wav64_vadpcm_init
      else None)"

definition algos_close :: "int \<Rightarrow> (wav64_state_t \<Rightarrow> wav64_state_t) option" where
  "algos_close fmt = (if fmt = WAV64_FORMAT_VADPCM then Some wav64_vadpcm_close else None)"

text \<open>
  The preload of \<^verbatim>\<open>internal_open\<close>: one \<^verbatim>\<open>samplebuffer_get\<close> of the whole waveform into a
  local sample buffer over the block's sample area, through the codec's read callback.
\<close>

definition preload_samples ::
  "waveform_t \<times> wav64_state_t \<Rightarrow> fd_state \<Rightarrow> 32 word \<Rightarrow> int \<Rightarrow> int
     \<Rightarrow> error + ((nat \<Rightarrow> 8 word) \<times> fd_state)" where
  "preload_samples ws fd addr nbytes ssize =
     ebind (samplebuffer_init addr (\<lambda>k. 0) nbytes ssize) (\<lambda>sbuf.
     ebind (samplebuffer_set_bps sbuf (bits (fst ws))) (\<lambda>sbuf.
       if \<not> wave_state_size (fst ws) \<le> state_size sbuf
       then Inl (Assertion ''wave->state_size <= buf->state_size'')
       else ebind (samplebuffer_get call_read
                     \<lparr> io_wave = fst ws, io_st = snd ws, io_fd = fd, io_bitpos = 0, io_rspq = [] \<rparr>
                     sbuf 0 (len (fst ws)))
              (\<lambda>(p, wlen, c, sbuf).
                 if \<not> wlen = len (fst ws) then Inl (Assertion ''wav64: preload failed'')
                 else Inr (mem sbuf, io_fd c))))"

text \<open>
  \<^verbatim>\<open>internal_open\<close>, in the blocks of its body. \<open>file_handle < 0\<close> opens \<open>file_name\<close>
  (with \<^verbatim>\<open>rom:/\<close> put in front of a name without a colon); otherwise the descriptor is
  read from its current offset. The parameter \<open>as_vhead\<close> is the cast of the extension
  bytes to \<^verbatim>\<open>wav64_header_vadpcm_t\<close>.
\<close>

definition open_name :: "int \<Rightarrow> string \<Rightarrow> string" where
  "open_name file_handle file_name =
     (if file_handle < 0 \<and> CHR '':'' \<notin> set file_name then ''rom:/'' @ file_name else file_name)"

definition open_handle ::
  "wav64_sys \<Rightarrow> int \<Rightarrow> string \<Rightarrow> error + (int \<times> int \<times> bool \<times> wav64_sys)" where
  "open_handle sys file_handle file_name =
     (if file_handle < 0 then
        case sys_files sys file_name of
          None \<Rightarrow> Inl (Assertion ''must_open'')
        | Some data \<Rightarrow>
            Inr (sys_next_fd sys, 0, True,
                 sys\<lparr>sys_fds := (sys_fds sys)(sys_next_fd sys \<mapsto> \<lparr> fd_data = data, fd_offset = 0 \<rparr>),
                     sys_next_fd := sys_next_fd sys + 1\<rparr>)
      else
        case sys_fds sys file_handle of
          None \<Rightarrow> Inl (Assertion ''bad file descriptor'')
        | Some fd \<Rightarrow> Inr (file_handle, fd_offset fd, False, sys))"

definition header_check ::
  "wav64_header_t
     \<Rightarrow> error + (waveform_t \<times> wav64_state_t \<Rightarrow> int \<Rightarrow> error + (waveform_t \<times> wav64_state_t))" where
  "header_check head =
     (if head_id head \<noteq> WAV64_ID then
        (if \<not> (head_id head \<noteq> WAV_RIFF_ID \<and> head_id head \<noteq> WAV_RIFX_ID)
         then Inl (Assertion ''wav64: use audioconv64 to convert to wav64 format'')
         else Inl (Assertion ''wav64: invalid ID''))
      else if \<not> head_version head = 4 then Inl (Assertion ''wav64: invalid version'')
      else if \<not> head_format head < WAV64_NUM_FORMATS
      then Inl (Assertion ''Unknown wav64 compression format'')
      else case algos_init (head_format head) of
        None \<Rightarrow> Inl (Assertion ''wav64: compression level not initialized'')
      | Some init \<Rightarrow> Inr init)"

definition header_wave :: "string \<Rightarrow> wav64_header_t \<Rightarrow> waveform_t" where
  "header_wave file_name head =
     \<lparr> name = file_name, channels = head_channels head, bits = head_nbits head,
       frequency = head_freq head, len = head_len head, loop_len = head_loop_len head,
       wave_state_size = head_state_size head, read = Read_NULL \<rparr>"

definition header_state ::
  "(8 word list \<Rightarrow> wav64_header_vadpcm_t) \<Rightarrow> wav64_header_t \<Rightarrow> 8 word list \<Rightarrow> int \<Rightarrow> int
     \<Rightarrow> bool \<Rightarrow> wav64_state_t" where
  "header_state as_vhead head ebytes file_handle start_offset owned_fd =
     \<lparr> format = head_format head,
       ext = (if head_format head = WAV64_FORMAT_VADPCM then Some (as_vhead ebytes) else None),
       samples = None, current_fd = file_handle,
       base_offset = head_start_offset head + start_offset, nsimul = 0,
       st_flags = (if owned_fd then WAV64_FLAG_OWNED_FD else 0) \<rparr>"

definition open_preload ::
  "wav64_header_t \<Rightarrow> nat \<Rightarrow> waveform_t \<times> wav64_state_t \<Rightarrow> fd_state
     \<Rightarrow> error + (waveform_t \<times> wav64_state_t \<times> fd_state)" where
  "open_preload head heap ws fd =
     (let preload_size = ROUND_UP (head_len head * head_channels head
                                    * drop_bit 3 (head_nbits head)) 16;
          preload_extra_alloc =
            ROUND_UP (if head_format head = WAV64_FORMAT_RAW then 0 else 4096) 16
      in ebind (preload_samples ws fd (UncachedAddr (word_of_nat (heap + 64)))
                  (preload_size + preload_extra_alloc) (head_state_size head))
           (\<lambda>(smp, fd).
              let s = (case algos_close (format (snd ws)) of
                         None \<Rightarrow> snd ws | Some close \<Rightarrow> close (snd ws));
                  s = s\<lparr>samples := Some smp, ext := None, format := WAV64_FORMAT_RAW\<rparr>
              in ebind (wav64_none_init (fst ws, s) (head_state_size head))
                   (\<lambda>(w, s). Inr (w, s, fd))))"

definition internal_open ::
  "(8 word list \<Rightarrow> wav64_header_vadpcm_t) \<Rightarrow> wav64_sys \<Rightarrow> int \<Rightarrow> string
     \<Rightarrow> wav64_streaming_mode_t \<Rightarrow> error + (wav64_t \<times> wav64_sys)" where
  "internal_open as_vhead sys file_handle file_name streaming_mode =
     ebind (open_handle sys file_handle (open_name file_handle file_name))
       (\<lambda>(fh, start_offset, owned_fd, sys).
          let (hbytes, fd) = read_fd (the (sys_fds sys fh)) 28;
              head = read_header hbytes
          in ebind (header_check head) (\<lambda>init.
               let heap = sys_next sys;
                   w = header_wave (open_name file_handle file_name) head;
                   (ebytes, fd) = read_fd fd (head_start_offset head - 28);
                   s = header_state as_vhead head ebytes fh start_offset owned_fd
               in ebind (init (w, s) (head_state_size head)) (\<lambda>ws.
                  ebind (if streaming_mode = WAV64_STREAMING_NONE
                         then open_preload head heap ws fd
                         else Inr (fst ws, snd ws, fd))
                    (\<lambda>(w, s, fd).
                       Inr (\<lparr> wave = w, st = Some heap \<rparr>,
                            sys\<lparr>sys_fds := (sys_fds sys)(fh \<mapsto> fd),
                                sys_heap := (sys_heap sys)(heap \<mapsto> s),
                                sys_next := heap + 1\<rparr>)))))"

definition wav64_open ::
  "(8 word list \<Rightarrow> wav64_header_vadpcm_t) \<Rightarrow> wav64_sys \<Rightarrow> string \<Rightarrow> error + (wav64_t \<times> wav64_sys)" where
  "wav64_open as_vhead sys file_name = internal_open as_vhead sys (-1) file_name WAV64_STREAMING_FULL"

definition wav64_load ::
  "(8 word list \<Rightarrow> wav64_header_vadpcm_t) \<Rightarrow> wav64_sys \<Rightarrow> string \<Rightarrow> wav64_streaming_mode_t
     \<Rightarrow> error + (wav64_t \<times> wav64_sys)" where
  "wav64_load as_vhead sys file_name streaming_mode =
     internal_open as_vhead sys (-1) file_name streaming_mode"

definition wav64_set_loop :: "wav64_t \<Rightarrow> bool \<Rightarrow> wav64_t" where
  "wav64_set_loop wav loop =
     (let w = (wave wav)\<lparr>loop_len := (if loop then len (wave wav) else 0)\<rparr>
      in if bits w = 8 \<and> loop_len w AND 1 \<noteq> 0
         then wav\<lparr>wave := w\<lparr>loop_len := loop_len w - 1\<rparr>\<rparr>
         else wav\<lparr>wave := w\<rparr>)"

text \<open>
  \<^verbatim>\<open>wav64_close\<close> on a caller-allocated \<^verbatim>\<open>wav64_t\<close> at address \<open>wav_addr\<close> (the address the
  mixer knows the waveform by). \<^verbatim>\<open>MIXER_MAX_CHANNELS\<close> is 32. A non-NULL \<open>st\<close> that
  points to no live block is a dangling pointer, which C leaves undefined; the model aborts
  there.
\<close>

definition MIXER_MAX_CHANNELS :: nat where
  "MIXER_MAX_CHANNELS = 32"

definition wav64_zero :: wav64_t where
  "wav64_zero =
     \<lparr> wave = \<lparr> name = [], channels = 0, bits = 0, frequency = 0, len = 0, loop_len = 0,
                 wave_state_size = 0, read = Read_NULL \<rparr>,
       st = None \<rparr>"

definition wav64_close :: "nat \<Rightarrow> wav64_t \<times> wav64_sys \<Rightarrow> error + (wav64_t \<times> wav64_sys)" where
  "wav64_close wav_addr ws =
     (let wav = fst ws; sys = snd ws in
      case st wav of
        None \<Rightarrow> Inr (wav, sys)
      | Some heap \<Rightarrow>
         (case sys_heap sys heap of
            None \<Rightarrow> Inl (Assertion ''wav->st points to freed memory'')
          | Some s \<Rightarrow>
             (let sys = sys\<lparr>sys_playing :=
                          (\<lambda>i. if i < MIXER_MAX_CHANNELS \<and> sys_playing sys i = Some wav_addr
                                then None else sys_playing sys i)\<rparr>;
                  s = (case algos_close (format s) of None \<Rightarrow> s | Some close \<Rightarrow> close s);
                  sys = (if current_fd s \<ge> 0 \<and> st_flags s AND WAV64_FLAG_OWNED_FD \<noteq> 0
                         then sys\<lparr>sys_fds := (sys_fds sys)(current_fd s := None)\<rparr> else sys)
              in Inr (wav64_zero, sys\<lparr>sys_heap := (sys_heap sys)(heap := None)\<rparr>))))"

text \<open>
  A file system with one 8-bit mono raw WAV64 of 33 samples whose header stores the loop
  length 17, and the state after that file has been opened as the waveform at address 7 and
  started on mixer channel 0.
\<close>

definition demo_loop_file :: "8 word list" where
  "demo_loop_file =
     map of_char ''WV64'' @ [4, 0, 1, 8] @ [0, 0, 0x7D, 0] @ [0, 0, 0, 33] @ [0, 0, 0, 17]
       @ [0, 0, 0, 28] @ [0, 0, 0, 0] @ replicate 33 0x40"

definition demo_sys :: wav64_sys where
  "demo_sys =
     \<lparr> sys_files = [''rom:/loop.wav64'' \<mapsto> demo_loop_file], sys_fds = Map.empty,
       sys_heap = Map.empty, sys_next = 4096, sys_next_fd = 3, sys_playing = (\<lambda>i. None) \<rparr>"

definition no_vhead :: "8 word list \<Rightarrow> wav64_header_vadpcm_t" where
  "no_vhead b = \<lparr> npredictors = 0, order = 0, vflags = 0, num_skippoints = 0, huff_tbl = None,
                  skip_points = [], huff_ctx = [], codebook = [] \<rparr>"

definition demo_open_state :: wav64_state_t where
  "demo_open_state =
     \<lparr> format = 0, ext = None, samples = None, current_fd = 3, base_offset = 28, nsimul = 0,
       st_flags = WAV64_FLAG_OWNED_FD \<rparr>"

definition demo_open_wav :: wav64_t where
  "demo_open_wav =
     \<lparr> wave = \<lparr> name = ''rom:/loop.wav64'', channels = 1, bits = 8, frequency = 32000, len = 33,
                 loop_len = 17, wave_state_size = 0, read = Read_wav64_none \<rparr>,
       st = Some 4096 \<rparr>"

definition demo_open_sys :: wav64_sys where
  "demo_open_sys =
     \<lparr> sys_files = [''rom:/loop.wav64'' \<mapsto> demo_loop_file],
       sys_fds = [3 \<mapsto> \<lparr> fd_data = demo_loop_file, fd_offset = 28 \<rparr>],
       sys_heap = [4096 \<mapsto> demo_open_state], sys_next = 4097, sys_next_fd = 4,
       sys_playing = (\<lambda>i. if i = 0 then Some 7 else None) \<rparr>"

section \<open>XM64 player: the tick callback (xm64.c)\<close>

text \<open>
  The player computes with C \<^verbatim>\<open>float\<close>s: sample positions, frequencies, volumes and the
  samples left in a tick. Their arithmetic is not fixed here: \<open>'f\<close> is the type of floats and
  a record of operations says what the callback needs of them: the float \<open>0\<close>, the product,
  the tests \<open>x >= 0\<close> and \<open>x <= 0\<close>, \<^verbatim>\<open>ceilf\<close> converted to \<^verbatim>\<open>int\<close>, and the subtraction of an
  \<^verbatim>\<open>int\<close>.
\<close>

record 'f float_ops =
  f_zero :: 'f
  f_mul :: "'f \<Rightarrow> 'f \<Rightarrow> 'f"
  f_ge0 :: "'f \<Rightarrow> bool"
  f_le0 :: "'f \<Rightarrow> bool"
  f_ceil :: "'f \<Rightarrow> int"
  f_sub_int :: "'f \<Rightarrow> int \<Rightarrow> 'f"

text \<open>
  Modelled from the spec: \<^verbatim>\<open>mixer.h\<close> and the mixer itself are not among the sources. A
  voice of the mixer plays at most one waveform, known by its address, at a position, a
  frequency and a pair of volumes; \<^verbatim>\<open>mixer_ch_play\<close> binds a waveform to the voice from
  position 0, \<^verbatim>\<open>mixer_ch_stop\<close> unbinds it, the setters store their arguments, and a voice
  is playing when a waveform is bound to it. The mixer also keeps the list of the calls
  that changed it, in the order they were made. Voice numbers are not checked against the
  number of voices of the mixer.
\<close>

datatype 'f mixer_call =
    Mixer_ch_play int nat
  | Mixer_ch_stop int
  | Mixer_ch_set_pos int 'f
  | Mixer_ch_set_freq int 'f
  | Mixer_ch_set_vol int 'f 'f

record 'f mixer_voice =
  v_wave :: "nat option"
  v_pos :: 'f
  v_freq :: 'f
  v_vol :: "'f \<times> 'f"

record 'f mixer =
  mx_voice :: "int \<Rightarrow> 'f mixer_voice"
  mx_calls :: "'f mixer_call list"

definition mixer_ch_playing :: "'f mixer \<Rightarrow> int \<Rightarrow> bool" where
  "mixer_ch_playing mx ch = (v_wave (mx_voice mx ch) \<noteq> None)"

definition mixer_ch_playing_waveform :: "'f mixer \<Rightarrow> int \<Rightarrow> nat option" where
  "mixer_ch_playing_waveform mx ch = v_wave (mx_voice mx ch)"

definition mixer_ch_get_pos :: "'f mixer \<Rightarrow> int \<Rightarrow> 'f" where
  "mixer_ch_get_pos mx ch = v_pos (mx_voice mx ch)"

definition mixer_ch_play :: "'f float_ops \<Rightarrow> int \<Rightarrow> nat \<Rightarrow> 'f mixer \<Rightarrow> 'f mixer" where
  "mixer_ch_play fl ch w mx =
     mx\<lparr>mx_voice := (mx_voice mx)(ch := (mx_voice mx ch)\<lparr>v_wave := Some w, v_pos := f_zero fl\<rparr>),
        mx_calls := mx_calls mx @ [Mixer_ch_play ch w]\<rparr>"

definition mixer_ch_stop :: "int \<Rightarrow> 'f mixer \<Rightarrow> 'f mixer" where
  "mixer_ch_stop ch mx =
     mx\<lparr>mx_voice := (mx_voice mx)(ch := (mx_voice mx ch)\<lparr>v_wave := None\<rparr>),
        mx_calls := mx_calls mx @ [Mixer_ch_stop ch]\<rparr>"

definition mixer_ch_set_pos :: "int \<Rightarrow> 'f \<Rightarrow> 'f mixer \<Rightarrow> 'f mixer" where
  "mixer_ch_set_pos ch p mx =
     mx\<lparr>mx_voice := (mx_voice mx)(ch := (mx_voice mx ch)\<lparr>v_pos := p\<rparr>),
        mx_calls := mx_calls mx @ [Mixer_ch_set_pos ch p]\<rparr>"

definition mixer_ch_set_freq :: "int \<Rightarrow> 'f \<Rightarrow> 'f mixer \<Rightarrow> 'f mixer" where
  "mixer_ch_set_freq ch fr mx =
     mx\<lparr>mx_voice := (mx_voice mx)(ch := (mx_voice mx ch)\<lparr>v_freq := fr\<rparr>),
        mx_calls := mx_calls mx @ [Mixer_ch_set_freq ch fr]\<rparr>"

definition mixer_ch_set_vol :: "int \<Rightarrow> 'f \<Rightarrow> 'f \<Rightarrow> 'f mixer \<Rightarrow> 'f mixer" where
  "mixer_ch_set_vol ch l r mx =
     mx\<lparr>mx_voice := (mx_voice mx)(ch := (mx_voice mx ch)\<lparr>v_vol := (l, r)\<rparr>),
        mx_calls := mx_calls mx @ [Mixer_ch_set_vol ch l r]\<rparr>"

text \<open>
  \<^verbatim>\<open>wav64_play\<close> of wav64.c; the waveform is the first member of the \<^verbatim>\<open>wav64_t\<close>, so
  \<^verbatim>\<open>&wav->wave\<close> is the address of the \<^verbatim>\<open>wav64_t\<close>.
\<close>

definition wav64_play :: "'f float_ops \<Rightarrow> nat \<Rightarrow> int \<Rightarrow> 'f mixer \<Rightarrow> 'f mixer" where
  "wav64_play fl wav ch mx = mixer_ch_play fl ch wav mx"

text \<open>
  Modelled from the spec: \<^verbatim>\<open>xm64.h\<close>, \<^verbatim>\<open>libxm/xm.h\<close> and \<^verbatim>\<open>libxm/xm_internal.h\<close> with the
  structures of the player are not among the sources; the records have the fields that
  xm64.c and libxm/context.c use. The array \<^verbatim>\<open>ctx->channels\<close> has
  \<^verbatim>\<open>ctx->module.num_channels\<close> entries: it is the list \<open>xm_channels\<close>, and \<open>num_channels\<close> is
  its length. A channel's \<open>sample\<close> is the sample it points to (\<open>None\<close> is NULL), of which
  the callback reads the pointer \<open>smp_wave\<close> to its \<^verbatim>\<open>wav64_t\<close>; its \<open>instrument\<close> points into
  the instruments of the module, by index.
\<close>

record xm_sample_t =
  smp_wave :: nat

record xm_instrument_t =
  ins_muted :: bool

record 'f xm_channel_context_t =
  instrument :: "nat option"
  sample :: "xm_sample_t option"
  sample_position :: 'f
  ch_frequency :: 'f
  actual_volume :: "'f \<times> 'f"
  muted :: bool

record 'f xm_context_t =
  instruments :: "xm_instrument_t list"
  xm_channels :: "'f xm_channel_context_t list"
  current_table_index :: int
  current_row :: int
  current_tick :: int
  remaining_samples_in_tick :: 'f
  loop_count :: int
  global_volume :: 'f
  amplification :: 'f

definition num_channels :: "'f xm_context_t \<Rightarrow> nat" where
  "num_channels cx = length (xm_channels cx)"

record 'f xm64player_t =
  ctx :: "'f xm_context_t"
  first_ch :: int
  playing :: bool
  stop_requested :: bool
  looping :: bool
  seek_patidx :: int
  seek_row :: int
  seek_tick :: int

text \<open>\<^verbatim>\<open>xm_seek\<close> of libxm/context.c; its parameters are two \<^verbatim>\<open>uint8_t\<close> and a \<^verbatim>\<open>uint16_t\<close>.\<close>

definition xm_seek :: "'f float_ops \<Rightarrow> 'f xm_context_t \<Rightarrow> int \<Rightarrow> int \<Rightarrow> int \<Rightarrow> 'f xm_context_t" where
  "xm_seek fl cx pot row' tick' =
     cx\<lparr>current_table_index := pot mod 256, current_row := row' mod 256,
        current_tick := tick' mod 65536, remaining_samples_in_tick := f_zero fl\<rparr>"

text \<open>The static function \<^verbatim>\<open>stop\<close>.\<close>

definition stop_channels :: "int \<Rightarrow> nat \<Rightarrow> 'f mixer \<Rightarrow> 'f mixer" where
  "stop_channels first n mx = foldl (\<lambda>mx i. mixer_ch_stop (first + int i) mx) mx [0..<n]"

definition stop :: "'f xm64player_t \<Rightarrow> 'f mixer \<Rightarrow> 'f xm64player_t \<times> 'f mixer" where
  "stop xmp mx =
     (xmp\<lparr>playing := False, stop_requested := False\<rparr>,
      stop_channels (first_ch xmp) (num_channels (ctx xmp)) mx)"

text \<open>
  The callback \<^verbatim>\<open>tick\<close>, in the blocks of its body. First the positions of the playing
  voices are read back into the channels.
\<close>

definition sync_positions :: "int \<Rightarrow> 'f mixer \<Rightarrow> 'f xm_context_t \<Rightarrow> 'f xm_context_t" where
  "sync_positions first mx cx =
     cx\<lparr>xm_channels :=
          map (\<lambda>(i, ch). if mixer_ch_playing mx (first + int i)
                          then ch\<lparr>sample_position := mixer_ch_get_pos mx (first + int i)\<rparr>
                          else ch)
            (zip [0..<length (xm_channels cx)] (xm_channels cx))\<rparr>"

text \<open>A pending seek: \<^verbatim>\<open>xm_seek\<close>, every sample position zeroed, every voice stopped.\<close>

definition do_seek :: "'f float_ops \<Rightarrow> 'f xm64player_t \<Rightarrow> 'f mixer \<Rightarrow> 'f xm64player_t \<times> 'f mixer" where
  "do_seek fl xmp mx =
     (let cx = xm_seek fl (ctx xmp) (seek_patidx xmp) (seek_row xmp) (seek_tick xmp);
          cx = cx\<lparr>xm_channels := map (\<lambda>ch. ch\<lparr>sample_position := f_zero fl\<rparr>) (xm_channels cx)\<rparr>
      in (xmp\<lparr>ctx := cx, seek_patidx := -1\<rparr>,
          stop_channels (first_ch xmp) (num_channels cx) mx))"

text \<open>
  The body of the closing loop for channel \<open>i\<close>. \<^verbatim>\<open>ch->instrument->muted\<close> is only read when
  the channel itself is not muted; the model aborts where that pointer is NULL or dangling,
  which C leaves undefined.
\<close>

definition channel_muted :: "'f xm_context_t \<Rightarrow> 'f xm_channel_context_t \<Rightarrow> error + bool" where
  "channel_muted cx ch =
     (if muted ch then Inr True
      else case instrument ch of
        None \<Rightarrow> Inl (Assertion ''ch->instrument'')
      | Some k \<Rightarrow> (if k < length (instruments cx) then Inr (ins_muted (instruments cx ! k))
                   else Inl (Assertion ''ch->instrument'')))"

definition update_channel ::
  "'f float_ops \<Rightarrow> 'f \<Rightarrow> int \<Rightarrow> 'f xm_context_t \<Rightarrow> nat \<Rightarrow> 'f mixer \<Rightarrow> error + 'f mixer" where
  "update_channel fl gvol first cx i mx =
     (let ch = xm_channels cx ! i in
      if sample ch \<noteq> None \<and> f_ge0 fl (sample_position ch) then
        let w = smp_wave (the (sample ch)) in
        ebind (channel_muted cx ch) (\<lambda>m.
          let mx = (if mixer_ch_playing_waveform mx (first + int i) \<noteq> Some w
                    then wav64_play fl w (first + int i) mx else mx);
              mx = mixer_ch_set_pos (first + int i) (sample_position ch) mx;
              mx = mixer_ch_set_freq (first + int i) (ch_frequency ch) mx;
              mx = mixer_ch_set_vol (first + int i)
                     (if m then f_zero fl else f_mul fl gvol (fst (actual_volume ch)))
                     (if m then f_zero fl else f_mul fl gvol (snd (actual_volume ch))) mx
          in Inr mx)
      else Inr (mixer_ch_stop (first + int i) mx))"

fun update_channels ::
  "'f float_ops \<Rightarrow> 'f \<Rightarrow> int \<Rightarrow> 'f xm_context_t \<Rightarrow> nat list \<Rightarrow> 'f mixer \<Rightarrow> error + 'f mixer" where
  "update_channels fl gvol first cx [] mx = Inr mx"
| "update_channels fl gvol first cx (i # ids) mx =
     ebind (update_channel fl gvol first cx i mx) (update_channels fl gvol first cx ids)"

text \<open>
  \<^verbatim>\<open>tick\<close>. The engine step \<^verbatim>\<open>xm_tick\<close> of libxm is a parameter. The result is the delay
  returned to the mixer, the player and the mixer.
\<close>

definition tick ::
  "'f float_ops \<Rightarrow> ('f xm_context_t \<Rightarrow> 'f xm_context_t) \<Rightarrow> 'f xm64player_t \<Rightarrow> 'f mixer
     \<Rightarrow> error + (int \<times> 'f xm64player_t \<times> 'f mixer)" where
  "tick fl xm_tick xmp mx =
     (let xmp = xmp\<lparr>ctx := sync_positions (first_ch xmp) mx (ctx xmp)\<rparr> in
      if stop_requested xmp then Inr (0, stop xmp mx)
      else
        let (xmp, mx) = (if seek_patidx xmp \<ge> 0 then do_seek fl xmp mx else (xmp, mx)) in
        if \<not> f_le0 fl (remaining_samples_in_tick (ctx xmp))
        then Inl (Assertion ''ctx->remaining_samples_in_tick <= 0'')
        else
          let xmp = xmp\<lparr>ctx := xm_tick (ctx xmp)\<rparr> in
          if \<not> looping xmp \<and> loop_count (ctx xmp) > 0 then Inr (0, stop xmp mx)
          else
            let gvol = f_mul fl (global_volume (ctx xmp)) (amplification (ctx xmp)) in
            ebind (update_channels fl gvol (first_ch xmp) (ctx xmp)
                     [0..<num_channels (ctx xmp)] mx)
              (\<lambda>mx. let delay = f_ceil fl (remaining_samples_in_tick (ctx xmp));
                         cx = (ctx xmp)\<lparr>remaining_samples_in_tick :=
                                  f_sub_int fl (remaining_samples_in_tick (ctx xmp)) delay\<rparr>
                     in Inr (delay, xmp\<lparr>ctx := cx\<rparr>, mx)))"

text \<open>The calls of a list that address voice \<open>v\<close>.\<close>

fun call_voice :: "'f mixer_call \<Rightarrow> int" where
  "call_voice (Mixer_ch_play ch w) = ch"
| "call_voice (Mixer_ch_stop ch) = ch"
| "call_voice (Mixer_ch_set_pos ch p) = ch"
| "call_voice (Mixer_ch_set_freq ch fr) = ch"
| "call_voice (Mixer_ch_set_vol ch l r) = ch"

definition calls_on :: "int \<Rightarrow> 'f mixer \<Rightarrow> 'f mixer_call list" where
  "calls_on v mx = filter (\<lambda>c. call_voice c = v) (mx_calls mx)"

text \<open>
  A player of two channels on the voices 4 and 5, with floats stood in for by integers:
  channel 0 holds the sample whose \<^verbatim>\<open>wav64_t\<close> is at address 7, channel 1 holds none. The
  stand-in for \<^verbatim>\<open>xm_tick\<close> starts a tick of 882 output samples and changes nothing else.
\<close>

definition int_floats :: "int float_ops" where
  "int_floats = \<lparr> f_zero = 0, f_mul = (\<lambda>a b. a * b), f_ge0 = (\<lambda>a. a \<ge> 0), f_le0 = (\<lambda>a. a \<le> 0),
                   f_ceil = (\<lambda>a. a), f_sub_int = (\<lambda>a d. a - d) \<rparr>"

definition demo_xm_tick :: "int xm_context_t \<Rightarrow> int xm_context_t" where
  "demo_xm_tick cx = cx\<lparr>remaining_samples_in_tick := remaining_samples_in_tick cx + 882\<rparr>"

definition demo_player :: "int xm64player_t" where
  "demo_player =
     \<lparr> ctx = \<lparr> instruments = [\<lparr> ins_muted = False \<rparr>],
               xm_channels =
                 [\<lparr> instrument = Some 0, sample = Some \<lparr> smp_wave = 7 \<rparr>, sample_position = 0,
                    ch_frequency = 8363, actual_volume = (3, 2), muted = False \<rparr>,
                  \<lparr> instrument = None, sample = None, sample_position = 0,
                    ch_frequency = 0, actual_volume = (0, 0), muted = False \<rparr>],
               current_table_index = 0, current_row = 0, current_tick = 0,
               remaining_samples_in_tick = 0, loop_count = 0, global_volume = 1,
               amplification = 2 \<rparr>,
       first_ch = 4, playing = True, stop_requested = False, looping = True,
       seek_patidx = -1, seek_row = 0, seek_tick = 0 \<rparr>"

definition demo_mixer :: "int mixer" where
  "demo_mixer =
     \<lparr> mx_voice = (\<lambda>ch. \<lparr> v_wave = (if ch = 4 then Some 7 else None),
                           v_pos = (if ch = 4 then 100 else 0), v_freq = 0, v_vol = (0, 0) \<rparr>),
       mx_calls = [] \<rparr>"

section \<open>Sample buffer: index invariant\<close>

declare append_rollback.simps [simp del]

lemma ebind_Inr_iff: "ebind r f = Inr y \<longleftrightarrow> (\<exists>x. r = Inr x \<and> f x = Inr y)"
  by (cases r) (simp_all add: ebind_def)

lemma append_rollback_bounds: "0 \<le> r \<Longrightarrow> 0 \<le> append_rollback s r \<and> append_rollback s r \<le> r"
proof (induction s r rule: append_rollback.induct)
  case (1 s r)
  show ?case
  proof (cases "push_bit s r AND 7 \<noteq> 0")
    case True
    then have "r \<noteq> 0" by auto
    with "1.prems" have "0 \<le> r - 1" by simp
    with "1.IH" True show ?thesis by (simp add: append_rollback.simps [of s r])
  next
    case False
    with "1.prems" show ?thesis by (simp add: append_rollback.simps [of s r])
  qed
qed

lemma odd_phase_nonzero: "push_bit s (i::int) AND 1 \<noteq> 0 \<Longrightarrow> i \<noteq> 0"
  by auto

lemma odd_phase_iff: "push_bit s (i::int) AND 1 \<noteq> 0 \<longleftrightarrow> odd (i * 2 ^ s)"
  unfolding and_1_eq_mod push_bit_eq_mult even_iff_mod_2_eq_zero by (rule refl)

lemma discard_shape:
  assumes "0 \<le> widx buf" "samplebuffer_discard buf wp = Inr b'"
  shows "b' = buf \<or>
         (\<exists>idx. 0 \<le> idx \<and> idx \<le> widx buf \<and> even (idx * 2 ^ bps buf) \<and>
           wpos b' = wpos buf + idx \<and> widx b' = widx buf - idx \<and>
           ridx b' = max 0 (ridx buf - idx) \<and> size_sb b' = size_sb buf \<and>
           bps b' = bps buf \<and> ptr b' = ptr buf \<and> wnext b' = wnext buf)"
proof (cases "wp - wpos buf \<le> 0")
  case True
  with assms show ?thesis by (auto simp: samplebuffer_discard_def)
next
  case False
  define i0 where "i0 = (if wp - wpos buf > widx buf then widx buf else wp - wpos buf)"
  have i0: "0 \<le> i0" "i0 \<le> widx buf" using False assms(1) by (auto simp: i0_def)
  show ?thesis
  proof (cases "push_bit (bps buf) i0 AND 1 \<noteq> 0")
    case odd: True
    then have nz: "i0 \<noteq> 0" by (rule odd_phase_nonzero)
    have ev: "even ((i0 - 1) * 2 ^ bps buf)"
      using odd unfolding odd_phase_iff by (cases "bps buf") auto
    show ?thesis
    proof (cases "i0 - 1 = 0")
      case True
      with assms False odd show ?thesis
        by (auto simp: samplebuffer_discard_def Let_def i0_def)
    next
      case False2: False
      with assms False odd i0 nz ev show ?thesis
        by (intro disjI2 exI [of _ "i0 - 1"])
           (auto simp: samplebuffer_discard_def Let_def i0_def ebind_Inr_iff split: if_splits)
    qed
  next
    case even: False
    then have ev: "even (i0 * 2 ^ bps buf)" unfolding odd_phase_iff by simp
    show ?thesis
    proof (cases "i0 = 0")
      case True
      with assms False even i0 show ?thesis
        by (intro disjI2 exI [of _ 0])
           (auto simp: samplebuffer_discard_def Let_def i0_def ebind_Inr_iff split: if_splits)
    next
      case nz: False
      with assms False even i0 ev show ?thesis
        by (intro disjI2 exI [of _ i0])
           (auto simp: samplebuffer_discard_def Let_def i0_def ebind_Inr_iff split: if_splits)
    qed
  qed
qed

lemma discard_inv:
  assumes "samplebuffer_inv buf" "samplebuffer_discard buf wp = Inr b'"
  shows "samplebuffer_inv b'"
proof -
  from assms(1) have "0 \<le> widx buf" by (simp add: samplebuffer_inv_def)
  from discard_shape [OF this assms(2)] assms(1) show ?thesis
    by (auto simp: samplebuffer_inv_def)
qed

lemma set_bps_inv:
  assumes "samplebuffer_inv buf" "samplebuffer_set_bps buf nbits = Inr b'"
  shows "samplebuffer_inv b'"
  using assms
  by (auto simp: samplebuffer_set_bps_def samplebuffer_inv_def Let_def push_bit_eq_mult
      drop_bit_eq_div pos_imp_zdiv_nonneg_iff split: if_splits)

lemma append_inv:
  assumes "samplebuffer_inv buf" "0 \<le> wl" "samplebuffer_append buf wl = Inr (p, b')"
  shows "samplebuffer_inv b'"
proof -
  from assms(3) obtain b where b: "(if widx buf + wl > size_sb buf then
          if \<not> widx buf \<ge> ridx buf
          then Inl (Assertion ''samplebuffer_append: invalid consistency check'')
          else samplebuffer_discard buf (wpos buf + append_rollback (bps buf) (ridx buf))
        else Inr buf) = Inr b"
    and r: "widx b + wl \<le> size_sb b" "b' = b\<lparr>widx := widx b + wl\<rparr>"
    by (auto simp: samplebuffer_append_def ebind_Inr_iff split: if_splits)
  from b assms(1) have "samplebuffer_inv b"
    by (auto split: if_splits intro: discard_inv)
  with r assms(2) show ?thesis by (auto simp: samplebuffer_inv_def)
qed

lemma undo_inv:
  assumes "samplebuffer_inv buf" "0 \<le> wl" "wl \<le> widx buf - ridx buf" "samplebuffer_undo buf wl = Inr b'"
  shows "samplebuffer_inv b'"
  using assms by (auto simp: samplebuffer_undo_def samplebuffer_inv_def split: if_splits)

lemma init_inv:
  assumes "0 \<le> n" "samplebuffer_init p m n s = Inr b'"
  shows "samplebuffer_inv b'"
  using assms by (auto simp: samplebuffer_init_def samplebuffer_inv_def split: if_splits)

lemma flush_inv: "samplebuffer_inv buf \<Longrightarrow> samplebuffer_inv (samplebuffer_flush buf)"
  by (auto simp: samplebuffer_flush_def samplebuffer_inv_def)

lemma ROUNDUP8_BPS_nonneg:
  assumes "0 \<le> n" "s \<le> 3"
  shows "0 \<le> ROUNDUP8_BPS n s"
proof -
  from assms(2) have "s = 0 \<or> s = 1 \<or> s = 2 \<or> s = 3" by arith
  then have "1 \<le> drop_bit s (8::int)" by (auto simp: drop_bit_eq_div)
  with assms(1) show ?thesis
    by (simp add: ROUNDUP8_BPS_def push_bit_eq_mult drop_bit_eq_div pos_imp_zdiv_nonneg_iff)
qed

text \<open>The three ways through \<^verbatim>\<open>samplebuffer_get\<close>, and what its last lines return.\<close>

lemma get_seek_Inr:
  assumes "get_seek rd c buf wp wl = Inr (c', b')"
  shows "\<exists>b2. rd c ((samplebuffer_flush buf)\<lparr>wpos := (if push_bit (bps buf) wp AND 1 \<noteq> 0 then wp - 1 else wp)\<rparr>)
         (if push_bit (bps buf) wp AND 1 \<noteq> 0 then wp - 1 else wp)
         (ROUNDUP8_BPS (if push_bit (bps buf) wp AND 1 \<noteq> 0 then wl + 1 else wl) (bps buf))
         (wp \<noteq> wnext buf) = Inr (c', b2) \<and> b' = b2\<lparr>wnext := wpos b2 + widx b2\<rparr>"
proof (cases "push_bit (bps buf) wp AND 1 \<noteq> 0")
  case True
  with assms show ?thesis
    by (auto simp: get_seek_def Let_def ebind_Inr_iff samplebuffer_flush_def)
next
  case False
  with assms show ?thesis
    by (auto simp: get_seek_def Let_def ebind_Inr_iff samplebuffer_flush_def)
qed

lemma get_refill_Inr:
  assumes "get_refill rd c buf wp wl = Inr (c', b')"
  shows "(if wpos buf + widx buf - wp < wl
          then \<exists>b2. rd c (buf\<lparr>ridx := wp - wpos buf\<rparr>) (wp + (wpos buf + widx buf - wp))
                 (ROUNDUP8_BPS (wl - (wpos buf + widx buf - wp)) (bps buf)) False = Inr (c', b2) \<and>
               b' = b2\<lparr>wnext := wpos b2 + widx b2\<rparr>
          else c' = c \<and> b' = buf\<lparr>ridx := wp - wpos buf\<rparr>)"
proof (cases "wpos buf + widx buf - wp < wl")
  case True
  with assms have "wp + (wpos buf + widx buf - wp) = wnext buf"
    by (auto simp: get_refill_def Let_def split: if_splits)
  with True assms show ?thesis
    by (simp add: get_refill_def Let_def ebind_Inr_iff) auto
next
  case False
  with assms show ?thesis
    by (auto simp: get_refill_def Let_def)
qed

lemmas get_unfold = samplebuffer_get_def

lemma get_cases:
  assumes "samplebuffer_get rd c buf wp wl = Inr (p, wl', c', b')"
  obtains
    (seek) b1 b2 ln where
      "widx buf = 0 \<or> wp < wpos buf \<or> wp > wpos buf + widx buf"
      "b1 = (samplebuffer_flush buf)\<lparr>wpos := (if push_bit (bps buf) wp AND 1 \<noteq> 0 then wp - 1 else wp)\<rparr>"
      "ln = (if push_bit (bps buf) wp AND 1 \<noteq> 0 then wl + 1 else wl)"
      "rd c b1 (wpos b1) (ROUNDUP8_BPS ln (bps buf)) (wp \<noteq> wnext buf) = Inr (c', b2)"
      "b' = b2\<lparr>wnext := wpos b2 + widx b2\<rparr>"
  | (refill) b1 b2 reuse where
      "\<not> (widx buf = 0 \<or> wp < wpos buf \<or> wp > wpos buf + widx buf)"
      "b1 = buf\<lparr>ridx := wp - wpos buf\<rparr>" "reuse = wpos buf + widx buf - wp" "reuse < wl"
      "rd c b1 (wp + reuse) (ROUNDUP8_BPS (wl - reuse) (bps buf)) False = Inr (c', b2)"
      "b' = b2\<lparr>wnext := wpos b2 + widx b2\<rparr>"
  | (reuse)
      "\<not> (widx buf = 0 \<or> wp < wpos buf \<or> wp > wpos buf + widx buf)"
      "wl \<le> wpos buf + widx buf - wp" "c' = c" "b' = buf\<lparr>ridx := wp - wpos buf\<rparr>"
proof -
  from assms obtain c1 b1 where
    f: "(if widx buf = 0 \<or> wp < wpos buf \<or> wp > wpos buf + widx buf
         then get_seek rd c buf wp wl else get_refill rd c buf wp wl) = Inr (c1, b1)"
    and r: "get_return wp wl (c1, b1) = Inr (p, wl', c', b')"
    unfolding get_unfold ebind_Inr_iff by auto
  from r have e: "c1 = c'" "b1 = b'"
    by (auto simp: get_return_def Let_def split: if_splits)
  show ?thesis
  proof (cases "widx buf = 0 \<or> wp < wpos buf \<or> wp > wpos buf + widx buf")
    case True
    with f e have "get_seek rd c buf wp wl = Inr (c', b')" by simp
    from get_seek_Inr [OF this] obtain b2 where
      "rd c ((samplebuffer_flush buf)\<lparr>wpos := (if push_bit (bps buf) wp AND 1 \<noteq> 0 then wp - 1 else wp)\<rparr>)
         (if push_bit (bps buf) wp AND 1 \<noteq> 0 then wp - 1 else wp)
         (ROUNDUP8_BPS (if push_bit (bps buf) wp AND 1 \<noteq> 0 then wl + 1 else wl) (bps buf))
         (wp \<noteq> wnext buf) = Inr (c', b2)"
      "b' = b2\<lparr>wnext := wpos b2 + widx b2\<rparr>"
      by blast
    then show ?thesis by (intro seek [OF True refl refl]) simp_all
  next
    case False
    with f e have g: "get_refill rd c buf wp wl = Inr (c', b')" by simp
    show ?thesis
    proof (cases "wpos buf + widx buf - wp < wl")
      case True
      with get_refill_Inr [OF g] obtain b2 where
        "rd c (buf\<lparr>ridx := wp - wpos buf\<rparr>) (wp + (wpos buf + widx buf - wp))
           (ROUNDUP8_BPS (wl - (wpos buf + widx buf - wp)) (bps buf)) False = Inr (c', b2)"
        "b' = b2\<lparr>wnext := wpos b2 + widx b2\<rparr>"
        by auto
      then show ?thesis by (rule refill [OF False refl refl True])
    next
      case nr: False
      with get_refill_Inr [OF g] have "c' = c" "b' = buf\<lparr>ridx := wp - wpos buf\<rparr>"
        by auto
      with nr show ?thesis by (intro reuse [OF False]) auto
    qed
  qed
qed


lemma get_inv:
  assumes rd: "read_preserves samplebuffer_inv rd" and inv: "samplebuffer_inv buf"
    and wl: "0 \<le> wl" "bps buf \<le> 3"
    and get: "samplebuffer_get rd c buf wp wl = Inr (p, wl', c', b')"
  shows "samplebuffer_inv b'"
proof -
  have pres: "\<And>c b wp wl sk c' b'. 0 \<le> wl \<Longrightarrow> samplebuffer_inv b \<Longrightarrow>
      rd c b wp wl sk = Inr (c', b') \<Longrightarrow> samplebuffer_inv b'"
    using rd unfolding read_preserves_def by blast
  from get show ?thesis
  proof (cases rule: get_cases)
    case (seek b1 b2 ln)
    have i: "samplebuffer_inv b1"
      using inv seek(2) by (auto simp: samplebuffer_inv_def samplebuffer_flush_def)
    have n: "0 \<le> ROUNDUP8_BPS ln (bps buf)"
      using wl seek(3) by (intro ROUNDUP8_BPS_nonneg) auto
    have "samplebuffer_inv b2" by (rule pres [OF n i seek(4)])
    with seek(5) show ?thesis by (simp add: samplebuffer_inv_def)
  next
    case (refill b1 b2 reuse)
    have i: "samplebuffer_inv b1"
      using inv refill(1,2) by (auto simp: samplebuffer_inv_def)
    have n: "0 \<le> ROUNDUP8_BPS (wl - reuse) (bps buf)"
      using wl refill(4) by (intro ROUNDUP8_BPS_nonneg) auto
    have "samplebuffer_inv b2" by (rule pres [OF n i refill(5)])
    with refill(6) show ?thesis by (simp add: samplebuffer_inv_def)
  next
    case reuse
    with inv show ?thesis by (auto simp: samplebuffer_inv_def)
  qed
qed

lemma step_inv:
  assumes rd: "read_preserves samplebuffer_inv rd" and inv: "samplebuffer_inv (snd cs)"
    and g: "op_guard x (snd cs)" and s: "samplebuffer_step rd x cs = Inr cs'"
  shows "samplebuffer_inv (snd cs')"
proof -
  obtain c buf where cs: "cs = (c, buf)" by (cases cs)
  from inv cs have i: "samplebuffer_inv buf" by simp
  show ?thesis
  proof (cases x)
    case (Op_init p n ss)
    with s cs obtain b where "samplebuffer_init p (mem buf) n ss = Inr b" "cs' = (c, b)"
      by (auto simp: ebind_Inr_iff)
    moreover from g cs Op_init have "0 \<le> n" by simp
    ultimately show ?thesis using init_inv by simp
  next
    case (Op_set_bps nbits)
    with s cs obtain b where "samplebuffer_set_bps buf nbits = Inr b" "cs' = (c, b)"
      by (auto simp: ebind_Inr_iff)
    then show ?thesis using set_bps_inv [OF i] by simp
  next
    case (Op_get wp wl)
    with s cs obtain p wl' c' b where
      "samplebuffer_get rd c buf wp wl = Inr (p, wl', c', b)" "cs' = (c', b)"
      by (auto simp: ebind_Inr_iff)
    moreover from g cs Op_get have "0 \<le> wl" "bps buf \<le> 3" by simp_all
    ultimately show ?thesis using get_inv [OF rd i] by simp
  next
    case (Op_append wl)
    with s cs obtain p b where "samplebuffer_append buf wl = Inr (p, b)" "cs' = (c, b)"
      by (auto simp: ebind_Inr_iff)
    moreover from g cs Op_append have "0 \<le> wl" by simp
    ultimately show ?thesis using append_inv [OF i] by simp
  next
    case (Op_undo wl)
    with s cs obtain b where "samplebuffer_undo buf wl = Inr b" "cs' = (c, b)"
      by (auto simp: ebind_Inr_iff)
    moreover from g cs Op_undo have "0 \<le> wl" "wl \<le> widx buf - ridx buf" by simp_all
    ultimately show ?thesis using undo_inv [OF i] by simp
  next
    case (Op_discard wp)
    with s cs obtain b where "samplebuffer_discard buf wp = Inr b" "cs' = (c, b)"
      by (auto simp: ebind_Inr_iff)
    then show ?thesis using discard_inv [OF i] by simp
  next
    case Op_flush
    with s cs have "cs' = (c, samplebuffer_flush buf)" by simp
    then show ?thesis using flush_inv [OF i] by simp
  qed
qed

lemma raw_read_preserves_inv: "read_preserves samplebuffer_inv raw_read_indices"
  unfolding read_preserves_def raw_read_indices_def
  by (auto simp: ebind_Inr_iff intro: append_inv)

text \<open>The equations that evaluate a run of the buffer on concrete arguments.\<close>

lemmas sb_eval = ebind_def UncachedAddr_def samplebuffer_init_def samplebuffer_set_bps_def samplebuffer_get_def
  get_seek_def get_refill_def get_return_def
  blank_buffer_def samplebuffer_flush_def raw_read_indices_def samplebuffer_append_def
  ROUNDUP8_BPS_def push_bit_eq_mult drop_bit_eq_div samplebuffer_undo_def samplebuffer_inv_def



text \<open>
  C1 (amended). Along every sequence of sample-buffer operations that runs without an
  assertion failure, whose lengths are non-negative, whose read callback keeps the
  invariant and whose every \<^verbatim>\<open>samplebuffer_undo(wlen)\<close> retracts at most the
  \<open>widx - ridx\<close> frames beyond the read cursor, \<open>0 \<le> ridx \<le> widx \<le> size\<close> holds after each
  operation.
\<close>

theorem samplebuffer_trace_inv:
  assumes "read_preserves samplebuffer_inv rd" and "samplebuffer_inv (snd cs)"
    and "trace_guarded rd ops cs" and "samplebuffer_trace rd ops cs = Inr bs"
  shows "\<forall>b \<in> set bs. samplebuffer_inv b"
  using assms(2-)
proof (induction ops arbitrary: cs bs)
  case Nil
  then show ?case by simp
next
  case (Cons x xs)
  from Cons.prems(3) obtain cs' bs' where
    s: "samplebuffer_step rd x cs = Inr cs'" and t: "samplebuffer_trace rd xs cs' = Inr bs'"
    and bs: "bs = snd cs' # bs'"
    by (auto simp: ebind_Inr_iff)
  from Cons.prems(2) s have g: "op_guard x (snd cs)" "trace_guarded rd xs cs'" by auto
  have i: "samplebuffer_inv (snd cs')"
    by (rule step_inv [OF assms(1) Cons.prems(1) g(1) s])
  from Cons.IH [OF i g(2) t] i bs show ?case by simp
qed

theorem samplebuffer_trace_inv_witness:
  "list_all samplebuffer_inv
     (projr (samplebuffer_trace raw_read_indices
        [Op_init 0xA0100000 64 0, Op_set_bps 16, Op_get 0 10, Op_get 5 5, Op_undo 7]
        ((), blank_buffer)))"
proof -
  let ?ops = "[Op_init 0xA0100000 64 0, Op_set_bps 16, Op_get 0 10, Op_get 5 5, Op_undo 7]"
  have i: "samplebuffer_inv (snd ((), blank_buffer))" by (simp add: sb_eval)
  have g: "trace_guarded raw_read_indices ?ops ((), blank_buffer)" by (simp add: sb_eval)
  have "\<exists>bs. samplebuffer_trace raw_read_indices ?ops ((), blank_buffer) = Inr bs"
    by (simp add: sb_eval)
  then obtain bs where t: "samplebuffer_trace raw_read_indices ?ops ((), blank_buffer) = Inr bs" ..
  from samplebuffer_trace_inv [OF raw_read_preserves_inv i g t] t
  show ?thesis by (simp add: list_all_iff)
qed

text \<open>
  C1 as stated fails: after \<^verbatim>\<open>init\<close> (64 bytes), \<^verbatim>\<open>set_bps(16)\<close>, \<^verbatim>\<open>get(0, 10)\<close> and
  \<^verbatim>\<open>get(5, 5)\<close> the buffer has \<open>ridx = 5\<close> and \<open>widx = 12\<close>; \<^verbatim>\<open>undo(8)\<close> passes its
  assertion \<open>widx \<ge> wlen\<close> and leaves \<open>widx = 4 < ridx\<close>.
\<close>

theorem samplebuffer_undo_breaks_inv:
  "\<not> trace_inv (samplebuffer_trace raw_read_indices
     [Op_init 0xA0100000 64 0, Op_set_bps 16, Op_get 0 10, Op_get 5 5, Op_undo 8]
     ((), blank_buffer))"
  by (simp add: sb_eval trace_inv_def)

section \<open>Sample buffer: the contract of \<^verbatim>\<open>samplebuffer_get\<close>\<close>








section \<open>Sample buffer: compaction keeps the retained frames\<close>

lemma byte64_rcat:
  fixes ws :: "8 word list"
  assumes "length ws = 8" "i < 8"
  shows "byte64 (word_rcat ws) i = ws ! i"
proof (rule bit_word_eqI)
  fix n assume n: "n < LENGTH(8)"
  then have n8: "n < 8" by simp
  have d: "(8 * (7 - i) + n) div 8 = 7 - i" "(8 * (7 - i) + n) mod 8 = n"
    using n8 by simp_all
  have r: "rev ws ! (7 - i) = ws ! i"
    using assms by (simp add: rev_nth)
  have lt: "8 * (7 - i) + n < 64" using n8 assms by simp
  have h: "bit (horner_sum uint 256 (rev ws)) (8 * (7 - i) + n) = bit (ws ! i) n"
    using bit_horner_sum_uint_exp_iff [of "rev ws" "8 * (7 - i) + n"] assms n8
    by (simp add: d r less_imp_diff_less)
  show "bit (byte64 (word_rcat ws) i) n = bit (ws ! i) n"
    unfolding byte64_def word_rcat_def
    using n8 assms lt
    by (simp add: bit_ucast_iff bit_drop_bit_eq bit_word_of_int_iff h)
qed

lemma store64_load64:
  "store64 m dst (load64 m src) k = (if dst \<le> k \<and> k < dst + 8 then m (src + (k - dst)) else m k)"
proof (cases "dst \<le> k \<and> k < dst + 8")
  case True
  then have i: "k - dst < 8" by arith
  have "byte64 (word_rcat (map m [src..<src + 8])) (k - dst) = map m [src..<src + 8] ! (k - dst)"
    by (rule byte64_rcat) (simp_all add: i)
  also have "\<dots> = m (src + (k - dst))" using i by simp
  finally show ?thesis using True by (simp add: store64_def load64_def)
next
  case False
  then show ?thesis by (auto simp: store64_def)
qed

lemma copy64_forward:
  assumes "dst \<le> src"
  shows "copy64 n src dst m k = (if dst \<le> k \<and> k < dst + 8 * n then m (k + (src - dst)) else m k)"
  using assms
proof (induction n arbitrary: src dst m)
  case 0
  show ?case by simp
next
  case (Suc n)
  let ?m1 = "store64 m dst (load64 m src)"
  have le: "dst + 8 \<le> src + 8" using Suc.prems by simp
  have d: "src + 8 - (dst + 8) = src - dst" by simp
  have "copy64 (Suc n) src dst m k = copy64 n (src + 8) (dst + 8) ?m1 k" by simp
  also have "\<dots> = (if dst + 8 \<le> k \<and> k < dst + 8 + 8 * n then ?m1 (k + (src - dst)) else ?m1 k)"
    unfolding Suc.IH [OF le] d ..
  also have "\<dots> = (if dst \<le> k \<and> k < dst + 8 * Suc n then m (k + (src - dst)) else m k)"
    using Suc.prems by (auto simp: store64_load64 intro!: arg_cong [where f = m])
  finally show ?case .
qed

lemma cdiv_nonneg: "0 \<le> a \<Longrightarrow> 0 < b \<Longrightarrow> cdiv a b = a div b"
  by (simp add: cdiv_def sgn_if)

lemma round_up_words:
  assumes "0 < kb"
  shows "kb \<le> 8 * int (nat (cdiv (ROUND_UP kb 8) 8))"
proof -
  have "ROUND_UP kb 8 = (kb + 7) div 8 * 8"
    using assms by (simp add: ROUND_UP_def cdiv_nonneg)
  then have "cdiv (ROUND_UP kb 8) 8 = (kb + 7) div 8"
    using assms by (simp add: cdiv_nonneg)
  moreover have "kb \<le> 8 * ((kb + 7) div 8)" "0 \<le> (kb + 7) div 8"
    using assms by presburger+
  ultimately show ?thesis by simp
qed

text \<open>
  C5. If \<^verbatim>\<open>samplebuffer_discard(buf, wpos)\<close> is called with
  \<open>buffer_wpos < wpos < buffer_wpos + widx\<close> and returns, the window still ends at the same
  logical index and starts at or before \<open>wpos\<close>, and every byte of every retained frame
  \<open>q\<close> in \<open>[wpos, old buffer_wpos + old widx)\<close> is found unchanged at the frame's new
  physical offset \<open>(q - new buffer_wpos) \<times> 2^bps\<close>.
\<close>

theorem samplebuffer_discard_retains:
  assumes "wpos buf < wp" and "wp < wpos buf + widx buf"
    and "samplebuffer_discard buf wp = Inr b'"
  shows "wpos b' \<le> wp \<and> wpos b' + widx b' = wpos buf + widx buf \<and> bps b' = bps buf \<and>
         (\<forall>q k. wp \<le> q \<and> q < wpos buf + widx buf \<and> k < 2 ^ bps buf \<longrightarrow>
            mem b' (nat ((q - wpos b') * 2 ^ bps buf) + k) =
            mem buf (nat ((q - wpos buf) * 2 ^ bps buf) + k))"
proof -
  define i0 where "i0 = wp - wpos buf"
  have i0: "0 < i0" "i0 < widx buf" using assms(1,2) by (auto simp: i0_def)
  define idx where "idx = (if push_bit (bps buf) i0 AND 1 \<noteq> 0 then i0 - 1 else i0)"
  have idx: "0 \<le> idx" "idx \<le> i0" using i0 by (auto simp: idx_def)
  show ?thesis
  proof (cases "idx = 0")
    case True
    with assms i0 have "b' = buf"
      by (auto simp: samplebuffer_discard_def Let_def i0_def idx_def split: if_splits)
    with assms(1) show ?thesis by simp
  next
    case False
    define kb where "kb = (widx buf - idx) * 2 ^ bps buf"
    have kb: "0 < kb" using idx i0 by (simp add: kb_def)
    define n where "n = nat (cdiv (ROUND_UP kb 8) 8)"
    define src where "src = nat (idx * 2 ^ bps buf)"
    from assms(3) False i0 kb
    have b': "b' = buf\<lparr>mem := copy64 n src 0 (mem buf), wpos := wpos buf + idx,
                 widx := widx buf - idx, ridx := (if ridx buf - idx < 0 then 0 else ridx buf - idx)\<rparr>"
      by (auto simp: samplebuffer_discard_def Let_def i0_def idx_def kb_def n_def src_def
          push_bit_eq_mult ebind_Inr_iff split: if_splits)
    have ln: "kb \<le> 8 * int n" unfolding n_def using kb by (rule round_up_words)
    have bytes: "mem b' (nat ((q - wpos b') * 2 ^ bps buf) + k) =
                 mem buf (nat ((q - wpos buf) * 2 ^ bps buf) + k)"
      if q: "wp \<le> q" "q < wpos buf + widx buf" and k: "k < 2 ^ bps buf" for q k
    proof -
      define j where "j = q - wpos buf - idx"
      have j: "0 \<le> j" "j < widx buf - idx" using q idx by (auto simp: j_def i0_def)
      have "(j + 1) * 2 ^ bps buf \<le> kb"
        unfolding kb_def using j by (intro mult_right_mono) auto
      then have "j * 2 ^ bps buf + 2 ^ bps buf \<le> kb" by (simp add: algebra_simps)
      moreover have "int k < 2 ^ bps buf" using k by (metis of_nat_less_iff of_nat_numeral of_nat_power)
      ultimately have "j * 2 ^ bps buf + int k < 8 * int n" using ln by linarith
      moreover have "0 \<le> j * 2 ^ bps buf" using j by simp
      ultimately have lt: "nat (j * 2 ^ bps buf) + k < 8 * n" by linarith
      have "nat ((q - wpos buf) * 2 ^ bps buf) = nat (j * 2 ^ bps buf) + src"
      proof -
        have "(q - wpos buf) * 2 ^ bps buf = j * 2 ^ bps buf + idx * 2 ^ bps buf"
          by (simp add: j_def algebra_simps)
        then show ?thesis using j idx by (simp add: src_def nat_add_distrib)
      qed
      moreover have "q - wpos b' = j" by (simp add: b' j_def)
      moreover have "mem b' (nat (j * 2 ^ bps buf) + k) = mem buf (nat (j * 2 ^ bps buf) + k + (src - 0))"
        using lt by (simp add: b' copy64_forward)
      ultimately show ?thesis by (simp add: ac_simps)
    qed
    have "wpos b' \<le> wp" using idx by (simp add: b' i0_def)
    moreover have "wpos b' + widx b' = wpos buf + widx buf" by (simp add: b')
    moreover have "bps b' = bps buf" by (simp add: b')
    ultimately show ?thesis using bytes by blast
  qed
qed

theorem samplebuffer_discard_retains_witness:
  "samplebuffer_discard
     (blank_buffer\<lparr>ptr := 0xA0100000, bps := 1, size_sb := 32, wpos := 10, widx := 6, ridx := 1,
        mem := word_of_nat\<rparr>) 13
   = Inr (blank_buffer\<lparr>ptr := 0xA0100000, bps := 1, size_sb := 32, wpos := 13, widx := 3, ridx := 0,
        mem := copy64 1 6 0 word_of_nat\<rparr>)
   \<and> copy64 1 6 0 word_of_nat 0 = (6 :: 8 word)
   \<and> copy64 1 6 0 word_of_nat 5 = (11 :: 8 word)"
proof -
  let ?b = "blank_buffer\<lparr>ptr := 0xA0100000, bps := 1, size_sb := 32, wpos := 10, widx := 6,
              ridx := 1, mem := word_of_nat\<rparr>"
  let ?b' = "blank_buffer\<lparr>ptr := 0xA0100000, bps := 1, size_sb := 32, wpos := 13, widx := 3,
              ridx := 0, mem := copy64 1 6 0 word_of_nat\<rparr>"
  have d: "samplebuffer_discard ?b 13 = Inr ?b'"
    by (simp add: samplebuffer_discard_def blank_buffer_def Let_def push_bit_eq_mult and_1_eq_mod
        ROUND_UP_def cdiv_def ebind_def)
  have h: "wpos ?b < 13" "13 < wpos ?b + widx ?b" by (simp_all add: blank_buffer_def)
  from samplebuffer_discard_retains [OF h d]
  have r: "\<And>q k. 13 \<le> q \<Longrightarrow> q < 16 \<Longrightarrow> k < 2 \<Longrightarrow>
      copy64 1 6 0 word_of_nat (nat ((q - 13) * 2) + k) = (word_of_nat (nat ((q - 10) * 2) + k) :: 8 word)"
    by (simp add: blank_buffer_def)
  from r [of 13 0] r [of 15 1] d show ?thesis by simp
qed

section \<open>Huffman overlay: single-symbol contexts\<close>

lemma fill_entries_fresh:
  "k \<le> n \<Longrightarrow> fill_entries (replicate n 0) 0 k v = Inr (replicate k v @ replicate (n - k) 0)"
proof (induction k)
  case 0
  show ?case by simp
next
  case (Suc k)
  then have k: "k < n" by simp
  have z: "(replicate k v @ replicate (n - k) 0) ! k = (0 :: 8 word)"
    using k by (simp add: nth_append)
  have u: "(replicate k v @ replicate (n - k) 0)[k := v] = replicate (Suc k) v @ replicate (n - Suc k) 0"
    using k by (intro nth_equalityI) (auto simp: nth_append nth_list_update simp del: replicate.simps)
  from Suc.IH k show ?case by (simp add: ebind_def z u del: replicate.simps)
qed

lemma fill_entries_whole: "fill_entries (replicate 256 0) 0 256 v = Inr (replicate 256 v)"
  using fill_entries_fresh [of 256 256 v] by simp

lemma upt_16: "[0..<16] = [0, 1, 2, 3, 4, 5, 6, 7, 8, 9, 10, 11, 12, 13, 14, 15]"
  by (simp add: upt_rec)

lemma upt_3: "[0..<3] = [0, 1, 2]"
  by (simp add: upt_rec)

lemma fill_unused:
  "symbol_length lengths s = 0xF \<Longrightarrow> fill_symbol lengths vals (Inr codes) s = Inr codes"
  by (simp add: fill_symbol_def ebind_def)

lemma fill_single:
  "symbol_length lengths s = 0 \<Longrightarrow> vals ! s = 0 \<Longrightarrow>
   fill_symbol lengths vals (Inr (replicate 256 0)) s = Inr (replicate 256 (word_of_nat (s * 16)))"
  by (simp add: fill_symbol_def ebind_def fill_entries_whole)

lemma check_zero: "\<exists>j \<in> set [0..<256]. \<not> replicate 256 (0 :: 8 word) ! j \<noteq> 0"
  by (rule bexI [of _ 0]) simp_all

lemma check_nonzero: "v \<noteq> 0 \<Longrightarrow> \<not> (\<exists>j \<in> set [0..<256]. \<not> replicate 256 (v :: 8 word) ! j \<noteq> 0)"
  by simp

lemma build_lookup_zero:
  "build_lookup [0x0F, 0xFF, 0xFF, 0xFF, 0xFF, 0xFF, 0xFF, 0xFF] (replicate 16 0)
     = Inl (Assertion ''lookup[i].codes[j] != 0'')"
proof -
  have "foldl (fill_symbol [0x0F, 0xFF, 0xFF, 0xFF, 0xFF, 0xFF, 0xFF, 0xFF] (replicate 16 0))
          (Inr (replicate 256 0)) [0..<16] = Inr (replicate 256 0)"
    unfolding upt_16
    by (simp add: fill_unused fill_single symbol_length_def)
  then show ?thesis
    using check_zero by (simp add: build_lookup_def ebind_def)
qed

lemma build_lookup_one:
  "build_lookup [0xF0, 0xFF, 0xFF, 0xFF, 0xFF, 0xFF, 0xFF, 0xFF] (replicate 16 0)
     = Inr (replicate 256 0x10)"
proof -
  have "foldl (fill_symbol [0xF0, 0xFF, 0xFF, 0xFF, 0xFF, 0xFF, 0xFF, 0xFF] (replicate 16 0))
          (Inr (replicate 256 0)) [0..<16] = Inr (replicate 256 0x10)"
    unfolding upt_16
    by (simp add: fill_unused fill_single symbol_length_def)
  then show ?thesis
    using check_nonzero [of "0x10"] by (simp add: build_lookup_def ebind_def)
qed


lemma build_lookup_two:
  "build_lookup [0xFF, 0x0F, 0xFF, 0xFF, 0xFF, 0xFF, 0xFF, 0xFF] (replicate 16 0)
     = Inr (replicate 256 0x20)"
proof -
  have "foldl (fill_symbol [0xFF, 0x0F, 0xFF, 0xFF, 0xFF, 0xFF, 0xFF, 0xFF] (replicate 16 0))
          (Inr (replicate 256 0)) [0..<16] = Inr (replicate 256 0x20)"
    unfolding upt_16
    by (simp add: fill_unused fill_single symbol_length_def)
  then show ?thesis
    using check_nonzero [of "0x20"] by (simp add: build_lookup_def ebind_def)
qed

lemma compress_zero_frame:
  "huffv_compress (replicate 9 0) 9 72 =
     Some (Inr ([], concat (replicate 3 ([0x0F, 0xFF, 0xFF, 0xFF, 0xFF, 0xFF, 0xFF, 0xFF] @ replicate 16 0))))"
  by code_simp

lemma compress_predictor_zero_frame:
  "huffv_compress [0x20, 0x12, 0x34, 0x56, 0x78, 0x9a, 0xbc, 0xde, 0xf1] 9 72 =
     Some (Inr ([4, 104, 172, 241, 53, 121, 189, 224],
        [0xFF, 0x0F, 0xFF, 0xFF, 0xFF, 0xFF, 0xFF, 0xFF] @ replicate 16 0 @
        [0x0F, 0xFF, 0xFF, 0xFF, 0xFF, 0xFF, 0xFF, 0xFF] @ replicate 16 0 @
        [243, 68, 68, 68, 68, 68, 68, 68, 0, 0, 2, 3, 4, 5, 6, 7, 8, 9, 10, 11, 12, 13, 14, 15]))"
  by code_simp

lemma replicate_16: "replicate 16 x = [x, x, x, x, x, x, x, x, x, x, x, x, x, x, x, x]"
  by (simp add: numeral_eq_Suc)

lemma init_zero_frame:
  "huffv_decompress_init (concat (replicate 3 ([0x0F, 0xFF, 0xFF, 0xFF, 0xFF, 0xFF, 0xFF, 0xFF] @ replicate 16 0)))
     = Inl (Assertion ''lookup[i].codes[j] != 0'')"
proof -
  have r: "replicate 3 x = [x, x, x]" for x :: "8 word list" by (simp add: numeral_eq_Suc)
  have t: "take 8 ([0x0F, 0xFF, 0xFF, 0xFF, 0xFF, 0xFF, 0xFF, 0xFF] @ xs) = [0x0F, 0xFF, 0xFF, 0xFF, 0xFF, 0xFF, 0xFF, 0xFF :: 8 word]"
    "take 16 (drop 8 ([0x0F, 0xFF, 0xFF, 0xFF, 0xFF, 0xFF, 0xFF, 0xFF :: 8 word] @ replicate 16 0 @ ys)) = replicate 16 0" for xs ys
    by simp_all
  show ?thesis
    unfolding huffv_decompress_init_def upt_3 r
    by (simp add: t build_lookup_zero ebind_def del: replicate.simps)
qed

lemma init_predictor_zero_frame:
  "huffv_decompress_init
     ([0xFF, 0x0F, 0xFF, 0xFF, 0xFF, 0xFF, 0xFF, 0xFF] @ replicate 16 0 @
      [0x0F, 0xFF, 0xFF, 0xFF, 0xFF, 0xFF, 0xFF, 0xFF] @ replicate 16 0 @
      [243, 68, 68, 68, 68, 68, 68, 68, 0, 0, 2, 3, 4, 5, 6, 7, 8, 9, 10, 11, 12, 13, 14, 15])
     = Inl (Assertion ''lookup[i].codes[j] != 0'')"
proof -
  let ?c = "[0xFF, 0x0F, 0xFF, 0xFF, 0xFF, 0xFF, 0xFF, 0xFF] @ replicate 16 0 @
      [0x0F, 0xFF, 0xFF, 0xFF, 0xFF, 0xFF, 0xFF, 0xFF] @ replicate 16 0 @
      [243, 68, 68, 68, 68, 68, 68, 68, 0, 0, 2, 3, 4, 5, 6, 7, 8, 9, 10, 11, 12, 13, 14, 15 :: 8 word]"
  have t: "take 8 (drop (0 * 24) ?c) = [0xFF, 0x0F, 0xFF, 0xFF, 0xFF, 0xFF, 0xFF, 0xFF]"
    "take 16 (drop (0 * 24 + 8) ?c) = replicate 16 0"
    "take 8 (drop (1 * 24) ?c) = [0x0F, 0xFF, 0xFF, 0xFF, 0xFF, 0xFF, 0xFF, 0xFF]"
    "take 16 (drop (1 * 24 + 8) ?c) = replicate 16 0"
    by (simp_all add: replicate_16)
  have l: "length ?c = 72" by simp
  show ?thesis
    unfolding huffv_decompress_init_def upt_3
    by (simp only: l list.map t build_lookup_two build_lookup_zero sequence_err.simps ebind_def
        sum.case if_False not_True_eq_False refl simp_thms)
qed

text \<open>
  C6 (defect). A VADPCM frame whose second nibble (the predictor index) is 0, and the frame
  of nine zero bytes, are compressed by \<^verbatim>\<open>huffv_compress\<close> into contexts in which symbol 0
  is the only symbol, with length 0; \<^verbatim>\<open>huffv_decompress_init\<close> then aborts on its check
  that no table entry is zero, and nothing is decoded.
\<close>

theorem huffv_roundtrip_single_symbol_zero:
  "huffv_roundtrip [0x20, 0x12, 0x34, 0x56, 0x78, 0x9a, 0xbc, 0xde, 0xf1]
     = Some (Inl (Assertion ''lookup[i].codes[j] != 0''))
   \<and> huffv_roundtrip (replicate 9 0) = Some (Inl (Assertion ''lookup[i].codes[j] != 0''))"
proof -
  have n: "length [0x20, 0x12, 0x34, 0x56, 0x78, 0x9a, 0xbc, 0xde, 0xf1 :: 8 word] = 9"
    "length (replicate 9 (0 :: 8 word)) = 9" by simp_all
  show ?thesis
    unfolding huffv_roundtrip_def n compress_zero_frame compress_predictor_zero_frame
    by (simp only: option.map sum.case ebind_def prod.case init_zero_frame init_predictor_zero_frame
        simp_thms)
qed

text \<open>
  C7 (defect). The context in which symbol 0 is the only symbol, stored with the legal
  length 0, is a valid prefix code, yet building its table fails: the entry for symbol 0
  and length 0 is the byte 0, which the final check takes for an entry never written.
  The same context for symbol 1 builds the table of 256 entries \<open>0x10\<close>.
\<close>

theorem build_lookup_symbol_zero_length_zero:
  "build_lookup [0x0F, 0xFF, 0xFF, 0xFF, 0xFF, 0xFF, 0xFF, 0xFF] (replicate 16 0)
     = Inl (Assertion ''lookup[i].codes[j] != 0'')
   \<and> build_lookup [0xF0, 0xFF, 0xFF, 0xFF, 0xFF, 0xFF, 0xFF, 0xFF] (replicate 16 0)
     = Inr (replicate 256 0x10)"
  by (simp only: build_lookup_zero build_lookup_one simp_thms)

text \<open>The failing context meets the hypothesis of the property: it is a valid prefix code.\<close>

lemma single_symbol_zero_valid_prefix_code:
  "valid_prefix_code [0x0F, 0xFF, 0xFF, 0xFF, 0xFF, 0xFF, 0xFF, 0xFF] (replicate 16 0)"
  by code_simp

section \<open>Binary output helpers: back-patching\<close>

text \<open>
  C8 (defect). A 64-bit placeholder emitted at offset 0 and set at offset 8 is patched by
  \<^verbatim>\<open>__placeholder_make\<close> through \<^verbatim>\<open>w32_at\<close>: only its first four bytes are written, so the
  field reads \<open>8 \<times> 2^32\<close> instead of 8. The 32-bit placeholder of the same producer holds
  its offset 4.
\<close>

theorem placeholder_make_w64_patched_as_w32:
  "file_bytes (emit_then_set w64_placeholder_named ''samples'') = Inr [0, 0, 0, 8, 0, 0, 0, 0]
   \<and> be_value [0, 0, 0, 8, 0, 0, 0, 0] 0 8 = 34359738368
   \<and> file_bytes (emit_then_set w32_placeholder_named ''samples'') = Inr [0, 0, 0, 4]"
proof -
  have "file_bytes (emit_then_set w64_placeholder_named ''samples'') = Inr [0, 0, 0, 8, 0, 0, 0, 0]"
    by code_simp
  moreover have "file_bytes (emit_then_set w32_placeholder_named ''samples'') = Inr [0, 0, 0, 4]"
    by code_simp
  moreover have "be_value [0, 0, 0, 8, 0, 0, 0, 0] 0 8 = 34359738368"
    by (simp add: be_value_def)
  ultimately show ?thesis by (simp only: simp_thms)
qed

section \<open>VADPCM: seeking through the read hook\<close>

text \<open>
  C2 as stated fails: on a VADPCM WAV64 without Huffman and without a skip point at sample
  32, the first access \<^verbatim>\<open>get(32, 16)\<close> reaches the read hook with \<open>seeking = true\<close>, which
  finds no skip point for 32 and aborts; nothing is sought or decoded.
\<close>

theorem vadpcm_seek_without_skippoint_aborts: "samplebuffer_get waveform_vadpcm_read (demo_vadpcm []) demo_voice_buffer 32 16
   = Inl (Assertion ''wav64: invalid VADPCM seeking point'')"
  by (simp add: samplebuffer_get_def get_seek_def demo_voice_buffer_def blank_buffer_def
      samplebuffer_flush_def waveform_vadpcm_read_def demo_vadpcm_def vadpcm_seek_def
      rspq_write_def ebind_def push_bit_eq_mult and_1_eq_mod ROUNDUP8_BPS_def drop_bit_eq_div
      Let_def)

lemma vadpcm_seek_skippoint:
  assumes "\<not> is_huffman vhead" and "wp \<noteq> 0"
  shows "vadpcm_seek vhead c wp True =
     (case find_skippoint (take (nat (num_skippoints vhead)) (skip_points vhead)) 0 wp of
        None \<Rightarrow> Inl (Assertion ''wav64: invalid VADPCM seeking point'')
      | Some i \<Rightarrow>
          Inr (c\<lparr>io_bitpos := skip_bitpos (skip_points vhead ! i),
                 io_rspq := io_rspq c @ [Rspq_highpri_begin, Rsp_vadpcm_copystate (Some i), Rspq_highpri_end],
                 io_fd := lseek_set (io_fd c) (base_offset (io_st c) + cdiv wp 16 * 9)\<rparr>))"
  using assms
  by (simp add: vadpcm_seek_def Let_def rspq_write_def ebind_def split: option.split)

lemma vadpcm_seek_start:
  "vadpcm_seek vhead c 0 True =
     Inr (c\<lparr>io_bitpos := 0,
            io_rspq := io_rspq c @ [Rspq_highpri_begin, Rsp_vadpcm_copystate None, Rspq_highpri_end],
            io_fd := lseek_set (io_fd c) (base_offset (io_st c))\<rparr>)"
  by (simp add: vadpcm_seek_def Let_def rspq_write_def ebind_def)

lemma cdiv_32_16: "cdiv 32 16 = 2" "cdiv 94 2 = 47" "ROUND_UP 16 32 = 32"
  by (simp_all add: cdiv_def ROUND_UP_def)

lemma vadpcm_chunks_two_frames:
  assumes nh: "\<not> is_huffman vhead" and mono: "channels (io_wave c) = 1"
    and buf: "widx b = 0" "wpos b = 32" "bps b = 1" "32 \<le> size_sb b"
    and fl: "0 \<le> fd_offset (io_fd c)"
      "fd_offset (io_fd c) + 18 \<le> int (length (fd_data (io_fd c)))"
  shows "vadpcm_chunks vhead (c, b) 32 32 False =
     Inr ((c\<lparr>io_fd := (io_fd c)\<lparr>fd_offset := fd_offset (io_fd c) + 18\<rparr>,
              io_rspq := io_rspq c @ [Rspq_highpri_begin,
                           Rsp_vadpcm_decompress (ptr b + 46) (ptr b) False 2]\<rparr>,
           b\<lparr>widx := 32,
             mem := store_bytes (mem b) 46
                      (take 18 (drop (nat (fd_offset (io_fd c))) (fd_data (io_fd c))))\<rparr>),
          64, True)"
proof -
  let ?bytes = "take 18 (drop (nat (fd_offset (io_fd c))) (fd_data (io_fd c)))"
  have ln: "length ?bytes = 18" using fl by simp
  have app: "samplebuffer_append b 32 = Inr (ptr b, b\<lparr>widx := 32\<rparr>)"
    using buf by (simp add: samplebuffer_append_def ebind_def push_bit_eq_mult)
  have src: "ptr b + word_of_int (push_bit 1 32) - word_of_int 18 = ptr b + 46"
    by (simp add: push_bit_eq_mult)
  have off: "unat (ptr b + 46 - ptr b) = 46" by simp
  have rd: "read_fd (io_fd c) 18 = (?bytes, (io_fd c)\<lparr>fd_offset := fd_offset (io_fd c) + 18\<rparr>)"
    using ln by (simp add: read_fd_def Let_def)
  have chunk: "vadpcm_chunk vhead (c, b) 32 False =
     Inr ((c\<lparr>io_fd := (io_fd c)\<lparr>fd_offset := fd_offset (io_fd c) + 18\<rparr>,
              io_rspq := io_rspq c @ [Rspq_highpri_begin,
                           Rsp_vadpcm_decompress (ptr b + 46) (ptr b) False 2]\<rparr>,
           b\<lparr>widx := 32, mem := store_bytes (mem b) 46 ?bytes\<rparr>), 2)"
    using nh mono buf(3) ln
    by (simp add: vadpcm_chunk_def Let_def cdiv_32_16 app ebind_def src off rd rspq_write_def)
  show ?thesis
    by (subst vadpcm_chunks.simps, simp add: chunk, subst vadpcm_chunks.simps, simp)
qed

text \<open>
  C2 (amended), for a mono VADPCM WAV64 without Huffman (\<open>channels = 1\<close>). With a skip
  point registered at sample 32, a first access \<^verbatim>\<open>get(32, 16)\<close> on the 16-bit buffer of a
  voice calls the read hook with \<open>seeking = true\<close>; the hook restores the bit position and
  (through the RSP) the predictor state of that skip point, seeks the file to
  \<open>base_offset + (32/16) \<times> 9 = base_offset + 18\<close>, reads the 18 bytes of two frames from
  there to the tail of the 32 reserved samples and queues their decompression. On such a
  mono stream, for every \<open>wpos > 0\<close> the seeking hook aborts unless \<open>wpos\<close> is a registered
  skip point, and for a registered one it targets
  \<open>base_offset + (wpos / 16) \<times> 9 \<times> channels\<close>; only \<open>wpos = 0\<close> clears the predictor
  state and rewinds to \<open>base_offset\<close>.
\<close>

theorem vadpcm_first_get_at_skippoint:
  assumes ex: "ext (io_st c) = Some vhead" and nh: "\<not> is_huffman vhead"
    and mono: "channels (io_wave c) = 1"
    and buf: "widx buf = 0" "wnext buf = -1" "bps buf = 1" "32 \<le> size_sb buf"
      "48 \<le> state_size buf"
    and sp: "find_skippoint (take (nat (num_skippoints vhead)) (skip_points vhead)) 0 32 = Some i"
    and fl: "0 \<le> base_offset (io_st c)"
      "base_offset (io_st c) + 36 \<le> int (length (fd_data (io_fd c)))"
    and noloop: "loop_len (io_wave c) = 0 \<or> 64 \<le> len (io_wave c)"
  shows "samplebuffer_get waveform_vadpcm_read c buf 32 16 =
           Inr (ptr buf, 16,
                c\<lparr>io_bitpos := skip_bitpos (skip_points vhead ! i),
                  io_rspq := io_rspq c @
                    [Rspq_highpri_begin, Rsp_vadpcm_copystate (Some i), Rspq_highpri_end,
                     Rspq_highpri_begin, Rsp_vadpcm_decompress (ptr buf + 46) (ptr buf) False 2,
                     Rspq_highpri_end],
                  io_fd := (io_fd c)\<lparr>fd_offset := base_offset (io_st c) + 18 + 18\<rparr>\<rparr>,
                buf\<lparr>wpos := 32, widx := 32, ridx := 0, wnext := 64,
                    mem := store_bytes (mem buf) 46
                             (take 18 (drop (nat (base_offset (io_st c) + 18))
                                (fd_data (io_fd c))))\<rparr>)
         \<and> (\<forall>wp. 0 < wp \<longrightarrow>
               vadpcm_seek vhead c wp True =
                 (case find_skippoint (take (nat (num_skippoints vhead)) (skip_points vhead)) 0 wp of
                    None \<Rightarrow> Inl (Assertion ''wav64: invalid VADPCM seeking point'')
                  | Some j \<Rightarrow>
                      Inr (c\<lparr>io_bitpos := skip_bitpos (skip_points vhead ! j),
                             io_rspq := io_rspq c @
                               [Rspq_highpri_begin, Rsp_vadpcm_copystate (Some j), Rspq_highpri_end],
                             io_fd := (io_fd c)\<lparr>fd_offset :=
                                         base_offset (io_st c)
                                           + wp div 16 * 9 * channels (io_wave c)\<rparr>\<rparr>)))
         \<and> vadpcm_seek vhead c 0 True =
               Inr (c\<lparr>io_bitpos := 0,
                      io_rspq := io_rspq c @
                        [Rspq_highpri_begin, Rsp_vadpcm_copystate None, Rspq_highpri_end],
                      io_fd := (io_fd c)\<lparr>fd_offset := base_offset (io_st c)\<rparr>\<rparr>)"
proof (intro conjI allI impI)
  let ?b1 = "(samplebuffer_flush buf)\<lparr>wpos := 32\<rparr>"
  let ?c1 = "c\<lparr>io_bitpos := skip_bitpos (skip_points vhead ! i),
               io_rspq := io_rspq c @ [Rspq_highpri_begin, Rsp_vadpcm_copystate (Some i), Rspq_highpri_end],
               io_fd := (io_fd c)\<lparr>fd_offset := base_offset (io_st c) + 18\<rparr>\<rparr>"
  have seek: "vadpcm_seek vhead c 32 True = Inr ?c1"
    using fl(1) by (simp add: vadpcm_seek_skippoint [OF nh] sp cdiv_32_16 lseek_set_def)
  have chunks: "vadpcm_chunks vhead (?c1, ?b1) 32 32 False =
     Inr ((?c1\<lparr>io_fd := (io_fd ?c1)\<lparr>fd_offset := fd_offset (io_fd ?c1) + 18\<rparr>,
              io_rspq := io_rspq ?c1 @ [Rspq_highpri_begin,
                           Rsp_vadpcm_decompress (ptr ?b1 + 46) (ptr ?b1) False 2]\<rparr>,
           ?b1\<lparr>widx := 32,
             mem := store_bytes (mem ?b1) 46
                      (take 18 (drop (nat (fd_offset (io_fd ?c1))) (fd_data (io_fd ?c1))))\<rparr>),
          64, True)"
    using nh mono buf fl
    by (intro vadpcm_chunks_two_frames) (simp_all add: samplebuffer_flush_def)
  have rd: "waveform_vadpcm_read c ?b1 32 16 True =
     Inr (c\<lparr>io_bitpos := skip_bitpos (skip_points vhead ! i),
            io_rspq := io_rspq c @
              [Rspq_highpri_begin, Rsp_vadpcm_copystate (Some i), Rspq_highpri_end,
               Rspq_highpri_begin, Rsp_vadpcm_decompress (ptr buf + 46) (ptr buf) False 2,
               Rspq_highpri_end],
            io_fd := (io_fd c)\<lparr>fd_offset := base_offset (io_st c) + 18 + 18\<rparr>\<rparr>,
          buf\<lparr>wpos := 32, widx := 32, ridx := 0, wnext := -1,
              mem := store_bytes (mem buf) 46
                       (take 18 (drop (nat (base_offset (io_st c) + 18)) (fd_data (io_fd c))))\<rparr>)"
    using ex buf(5) noloop
    by (auto simp add: waveform_vadpcm_read_def seek ebind_def cdiv_32_16 rspq_write_def
        chunks [unfolded samplebuffer_flush_def, simplified] samplebuffer_flush_def)
  show "samplebuffer_get waveform_vadpcm_read c buf 32 16 =
           Inr (ptr buf, 16,
                c\<lparr>io_bitpos := skip_bitpos (skip_points vhead ! i),
                  io_rspq := io_rspq c @
                    [Rspq_highpri_begin, Rsp_vadpcm_copystate (Some i), Rspq_highpri_end,
                     Rspq_highpri_begin, Rsp_vadpcm_decompress (ptr buf + 46) (ptr buf) False 2,
                     Rspq_highpri_end],
                  io_fd := (io_fd c)\<lparr>fd_offset := base_offset (io_st c) + 18 + 18\<rparr>\<rparr>,
                buf\<lparr>wpos := 32, widx := 32, ridx := 0, wnext := 64,
                    mem := store_bytes (mem buf) 46
                             (take 18 (drop (nat (base_offset (io_st c) + 18))
                                (fd_data (io_fd c))))\<rparr>)"
    using buf(1,2,3)
    by (simp add: samplebuffer_get_def get_seek_def get_return_def Let_def push_bit_eq_mult
        and_1_eq_mod ROUNDUP8_BPS_def drop_bit_eq_div
        rd [unfolded samplebuffer_flush_def, simplified] samplebuffer_flush_def ebind_def)
next
  fix wp :: int assume wp: "0 < wp"
  then have d: "cdiv wp 16 = wp div 16" by (simp add: cdiv_nonneg)
  have "0 \<le> base_offset (io_st c) + wp div 16 * 9"
    using fl(1) wp by (simp add: pos_imp_zdiv_nonneg_iff)
  then show "vadpcm_seek vhead c wp True =
                 (case find_skippoint (take (nat (num_skippoints vhead)) (skip_points vhead)) 0 wp of
                    None \<Rightarrow> Inl (Assertion ''wav64: invalid VADPCM seeking point'')
                  | Some j \<Rightarrow>
                      Inr (c\<lparr>io_bitpos := skip_bitpos (skip_points vhead ! j),
                             io_rspq := io_rspq c @
                               [Rspq_highpri_begin, Rsp_vadpcm_copystate (Some j), Rspq_highpri_end],
                             io_fd := (io_fd c)\<lparr>fd_offset :=
                                         base_offset (io_st c)
                                           + wp div 16 * 9 * channels (io_wave c)\<rparr>\<rparr>))"
    using wp
    by (simp add: vadpcm_seek_skippoint [OF nh] d lseek_set_def mono split: option.split)
next
  show "vadpcm_seek vhead c 0 True =
               Inr (c\<lparr>io_bitpos := 0,
                      io_rspq := io_rspq c @
                        [Rspq_highpri_begin, Rsp_vadpcm_copystate None, Rspq_highpri_end],
                      io_fd := (io_fd c)\<lparr>fd_offset := base_offset (io_st c)\<rparr>\<rparr>)"
    using fl(1) by (simp add: vadpcm_seek_start lseek_set_def)
qed

theorem vadpcm_first_get_at_skippoint_witness:
  "map_sum id (\<lambda>(p, wl, c, b). (p, wl, io_rspq c, fd_offset (io_fd c), io_bitpos c, wpos b, widx b,
       mem b 46, mem b 63))
     (samplebuffer_get waveform_vadpcm_read
        (demo_vadpcm [\<lparr>skip_state = [replicate 8 5, replicate 8 0], skip_bitpos = 144,
                        skip_offset = 32\<rparr>]) demo_voice_buffer 32 16)
   = Inr (0xA0100000, 16,
          [Rspq_highpri_begin, Rsp_vadpcm_copystate (Some 0), Rspq_highpri_end,
           Rspq_highpri_begin, Rsp_vadpcm_decompress 0xA010002E 0xA0100000 False 2,
           Rspq_highpri_end],
          136, 144, 32, 32, 118, 135)"
proof -
  let ?sp = "\<lparr>skip_state = [replicate 8 5, replicate 8 0], skip_bitpos = 144, skip_offset = 32\<rparr>"
  let ?vh = "\<lparr> npredictors = 1, order = 2, vflags = 0, num_skippoints = int (length [?sp]),
               huff_tbl = None, skip_points = [?sp], huff_ctx = [], codebook = [] \<rparr>"
  have h: "ext (io_st (demo_vadpcm [?sp])) = Some ?vh" "\<not> is_huffman ?vh"
    "channels (io_wave (demo_vadpcm [?sp])) = 1"
    "widx demo_voice_buffer = 0" "wnext demo_voice_buffer = -1" "bps demo_voice_buffer = 1"
    "32 \<le> size_sb demo_voice_buffer" "48 \<le> state_size demo_voice_buffer"
    "find_skippoint (take (nat (num_skippoints ?vh)) (skip_points ?vh)) 0 32 = Some 0"
    "0 \<le> base_offset (io_st (demo_vadpcm [?sp]))"
    "base_offset (io_st (demo_vadpcm [?sp])) + 36 \<le> int (length (fd_data (io_fd (demo_vadpcm [?sp]))))"
    "loop_len (io_wave (demo_vadpcm [?sp])) = 0 \<or> 64 \<le> len (io_wave (demo_vadpcm [?sp]))"
    by (simp_all add: demo_vadpcm_def demo_voice_buffer_def blank_buffer_def is_huffman_def)
  have b: "take 18 (drop 118 (map word_of_nat [0..<136])) ! 0 = (118 :: 8 word)"
    "take 18 (drop 118 (map word_of_nat [0..<136])) ! 17 = (135 :: 8 word)"
    by (simp_all add: drop_map take_map)
  from vadpcm_first_get_at_skippoint [OF h, THEN conjunct1] b
  show ?thesis
    by (simp add: demo_vadpcm_def demo_voice_buffer_def blank_buffer_def store_bytes_def)
qed

section \<open>WAV64 container: what opening and closing leave behind\<close>

lemma algos_init_keeps:
  assumes "algos_init fmt = Some init" "init (w, s) n = Inr ws'"
  shows "\<exists>r. fst ws' = w\<lparr>read := r\<rparr>"
  using assms
  by (auto simp: algos_init_def wav64_none_init_def wav64_vadpcm_init_def ebind_Inr_iff
           split: if_splits option.splits)

lemma header_check_keeps:
  assumes "header_check head = Inr init" "init (w, s) n = Inr ws'"
  shows "\<exists>r. fst ws' = w\<lparr>read := r\<rparr>"
  using assms
  by (auto simp: header_check_def split: if_splits option.splits dest: algos_init_keeps)

lemma none_init_keeps:
  assumes "wav64_none_init (w, s) n = Inr ws'"
  shows "\<exists>r. fst ws' = w\<lparr>read := r\<rparr>"
  using assms by (auto simp: wav64_none_init_def split: if_splits)

lemma open_preload_keeps:
  assumes "open_preload head heap ws fd = Inr (w', s', fd')"
  shows "\<exists>r. w' = (fst ws)\<lparr>read := r\<rparr>"
  using assms
  by (auto simp: open_preload_def Let_def ebind_Inr_iff dest!: none_init_keeps)

lemma internal_open_steps:
  assumes o: "internal_open as_vhead sys (-1) file_name mode = Inr (wav, sys')"
    and f: "sys_files sys (open_name (-1) file_name) = Some data"
  shows "\<exists>init s n ws. header_check (read_header (take 28 data)) = Inr init
           \<and> init (header_wave (open_name (-1) file_name) (read_header (take 28 data)), s) n = Inr ws
           \<and> (if mode = WAV64_STREAMING_NONE
              then \<exists>heap fd s' fd'. open_preload (read_header (take 28 data)) heap ws fd
                                      = Inr (wave wav, s', fd')
              else wave wav = fst ws)"
proof -
  from f have h: "open_handle sys (-1) (open_name (-1) file_name)
      = Inr (sys_next_fd sys, 0, True,
             sys\<lparr>sys_fds := (sys_fds sys)(sys_next_fd sys \<mapsto> \<lparr> fd_data = data, fd_offset = 0 \<rparr>),
                 sys_next_fd := sys_next_fd sys + 1\<rparr>)"
    by (simp add: open_handle_def)
  have r: "fst (read_fd \<lparr> fd_data = data, fd_offset = 0 \<rparr> 28) = take 28 data"
    by (simp add: read_fd_def)
  show ?thesis
  proof (cases mode)
    case WAV64_STREAMING_FULL
    with o show ?thesis
      unfolding internal_open_def h
      apply (clarsimp simp: Let_def ebind_Inr_iff read_fd_def split: prod.splits)
      apply blast
      done
  next
    case WAV64_STREAMING_NONE
    with o show ?thesis
      unfolding internal_open_def h
      apply (clarsimp simp: Let_def ebind_Inr_iff read_fd_def split: prod.splits)
      apply blast
      done
  qed
qed

lemma internal_open_wave:
  assumes o: "internal_open as_vhead sys (-1) file_name mode = Inr (wav, sys')"
    and f: "sys_files sys (open_name (-1) file_name) = Some data"
  shows "\<exists>r. wave wav = (header_wave (open_name (-1) file_name) (read_header (take 28 data)))
                      \<lparr>read := r\<rparr>"
proof -
  from internal_open_steps [OF o f] obtain init s n ws where
    c: "header_check (read_header (take 28 data)) = Inr init"
    and i: "init (header_wave (open_name (-1) file_name) (read_header (take 28 data)), s) n = Inr ws"
    and p: "if mode = WAV64_STREAMING_NONE
              then \<exists>heap fd s' fd'. open_preload (read_header (take 28 data)) heap ws fd
                                      = Inr (wave wav, s', fd')
              else wave wav = fst ws"
    by blast
  from header_check_keeps [OF c i] obtain r where 1: "fst ws = (header_wave (open_name (-1) file_name) (read_header (take 28 data)))\<lparr>read := r\<rparr>" ..
  show ?thesis
  proof (cases "mode = WAV64_STREAMING_NONE")
    case True
    with p obtain heap fd s' fd' where "open_preload (read_header (take 28 data)) heap ws fd
                                      = Inr (wave wav, s', fd')" by auto
    from open_preload_keeps [OF this] 1 show ?thesis by auto
  next
    case False
    with p 1 show ?thesis by auto
  qed
qed


lemma demo_header:
  "read_header (take 28 demo_loop_file) =
    \<lparr> head_id = WAV64_ID, head_version = 4, head_format = 0, head_channels = 1, head_nbits = 8,
      head_freq = 32000, head_len = 33, head_loop_len = 17, head_start_offset = 28,
      head_state_size = 0 \<rparr>"
  by code_simp

text \<open>
  C3 (as stated). Loading an 8-bit waveform whose header stores the odd loop length 17 does
  not round it: the opened waveform has \<open>loop_len = 17\<close>.
\<close>

theorem wav64_load_keeps_odd_loop_len:
  "map_sum id (\<lambda>r. (bits (wave (fst r)), len (wave (fst r)), loop_len (wave (fst r))))
     (wav64_load no_vhead demo_sys ''loop.wav64'' WAV64_STREAMING_FULL) = Inr (8, 33, 17)"
  by code_simp

text \<open>
  C3 (amended). \<^verbatim>\<open>wav64_load\<close> takes the bit depth, the length and the loop length of the
  waveform from the file header as they are stored there. An even loop length for 8-bit
  waveforms is what \<^verbatim>\<open>wav64_set_loop\<close> establishes: with looping enabled it sets the loop
  length to the waveform length, rounded down to the nearest even value when the waveform
  is 8-bit; with looping disabled it sets it to 0.
\<close>

theorem wav64_load_loop_len:
  assumes "wav64_load as_vhead sys file_name mode = Inr (wav, sys')"
    and "sys_files sys (open_name (-1) file_name) = Some data"
  shows "bits (wave wav) = head_nbits (read_header (take 28 data))
       \<and> len (wave wav) = head_len (read_header (take 28 data))
       \<and> loop_len (wave wav) = head_loop_len (read_header (take 28 data))
       \<and> loop_len (wave (wav64_set_loop wav False)) = 0
       \<and> loop_len (wave (wav64_set_loop wav True)) =
           (if bits (wave wav) = 8 then 2 * (len (wave wav) div 2) else len (wave wav))"
proof -
  from internal_open_wave [OF assms [unfolded wav64_load_def]]
  have "bits (wave wav) = head_nbits (read_header (take 28 data))
       \<and> len (wave wav) = head_len (read_header (take 28 data))
       \<and> loop_len (wave wav) = head_loop_len (read_header (take 28 data))"
    by (auto simp: header_wave_def)
  moreover have "loop_len (wave (wav64_set_loop wav False)) = 0"
    by (simp add: wav64_set_loop_def)
  moreover have "loop_len (wave (wav64_set_loop wav True)) =
           (if bits (wave wav) = 8 then 2 * (len (wave wav) div 2) else len (wave wav))"
    by (auto simp: wav64_set_loop_def Let_def and_1_eq_mod) presburger+
  ultimately show ?thesis by simp
qed

theorem wav64_load_loop_len_witness:
  "map_sum id (\<lambda>r. (loop_len (wave (fst r)), loop_len (wave (wav64_set_loop (fst r) True))))
     (wav64_load no_vhead demo_sys ''loop.wav64'' WAV64_STREAMING_NONE) = Inr (17, 32)"
proof -
  have "\<not> isl (wav64_load no_vhead demo_sys ''loop.wav64'' WAV64_STREAMING_NONE)"
    by code_simp
  then obtain wav sys' where
    l: "wav64_load no_vhead demo_sys ''loop.wav64'' WAV64_STREAMING_NONE = Inr (wav, sys')"
    by (cases "wav64_load no_vhead demo_sys ''loop.wav64'' WAV64_STREAMING_NONE") auto
  have f: "sys_files demo_sys (open_name (-1) ''loop.wav64'') = Some demo_loop_file"
    by (simp add: demo_sys_def open_name_def)
  from wav64_load_loop_len [OF l f] show ?thesis
    by (simp add: l demo_header)
qed

text \<open>
  C10. \<^verbatim>\<open>wav64_close\<close> on an open \<^verbatim>\<open>wav64_t\<close> (its \<open>st\<close> points to a live block) returns
  with the structure zeroed, so \<open>st\<close> is NULL, the block freed and no mixer channel playing
  the waveform any more; a second \<^verbatim>\<open>wav64_close\<close> on the same structure returns at once and
  changes nothing.
\<close>

theorem wav64_close_twice:
  assumes "st wav = Some h" and "sys_heap sys h = Some s"
  shows "\<exists>sys'. wav64_close a (wav, sys) = Inr (wav64_zero, sys')
           \<and> st wav64_zero = None
           \<and> sys_heap sys' h = None
           \<and> (\<forall>i<MIXER_MAX_CHANNELS. sys_playing sys' i \<noteq> Some a)
           \<and> wav64_close a (wav64_zero, sys') = Inr (wav64_zero, sys')"
  using assms by (simp add: wav64_close_def Let_def wav64_zero_def)

theorem wav64_close_twice_witness:
  "\<exists>sys'. wav64_close 7 (demo_open_wav, demo_open_sys) = Inr (wav64_zero, sys')
      \<and> sys_heap sys' 4096 = None \<and> sys_playing sys' 0 = None
      \<and> wav64_close 7 (wav64_zero, sys') = Inr (wav64_zero, sys')"
proof -
  have "st demo_open_wav = Some 4096" "sys_heap demo_open_sys 4096 = Some demo_open_state"
    by (simp_all add: demo_open_wav_def demo_open_sys_def)
  from wav64_close_twice [OF this, of 7] obtain sys' where
    c: "wav64_close 7 (demo_open_wav, demo_open_sys) = Inr (wav64_zero, sys')"
      "sys_heap sys' 4096 = None" "wav64_close 7 (wav64_zero, sys') = Inr (wav64_zero, sys')"
    by blast
  from c(1) have "sys_playing sys' 0 = None"
    by (auto simp: wav64_close_def Let_def demo_open_wav_def demo_open_sys_def
          MIXER_MAX_CHANNELS_def split: if_splits)
  with c show ?thesis by blast
qed

section \<open>XM64 player: what a tick does to each voice\<close>

lemma stop_channels_0: "stop_channels first 0 mx = mx"
  by (simp add: stop_channels_def)

lemma stop_channels_Suc:
  "stop_channels first (Suc n) mx = mixer_ch_stop (first + int n) (stop_channels first n mx)"
  by (simp add: stop_channels_def)

lemma mixer_ch_stop_voice:
  "mx_voice (mixer_ch_stop ch mx) v = (if v = ch then (mx_voice mx v)\<lparr>v_wave := None\<rparr> else mx_voice mx v)"
  by (simp add: mixer_ch_stop_def)

lemma mixer_ch_stop_calls:
  "calls_on v (mixer_ch_stop ch mx) = calls_on v mx @ (if v = ch then [Mixer_ch_stop ch] else [])"
  by (simp add: mixer_ch_stop_def calls_on_def)

lemma stop_channels_voice:
  "mx_voice (stop_channels first n mx) v =
     (if first \<le> v \<and> v < first + int n then (mx_voice mx v)\<lparr>v_wave := None\<rparr> else mx_voice mx v)"
  by (induction n) (auto simp: stop_channels_0 stop_channels_Suc mixer_ch_stop_voice)

lemma stop_channels_calls:
  "calls_on v (stop_channels first n mx) =
     calls_on v mx @ (if first \<le> v \<and> v < first + int n then [Mixer_ch_stop v] else [])"
  by (induction n) (auto simp: stop_channels_0 stop_channels_Suc mixer_ch_stop_calls)


lemma mixer_ops_voice:
  "mx_voice (mixer_ch_play fl ch w mx) v =
     (if v = ch then (mx_voice mx v)\<lparr>v_wave := Some w, v_pos := f_zero fl\<rparr> else mx_voice mx v)"
  "mx_voice (mixer_ch_set_pos ch p mx) v =
     (if v = ch then (mx_voice mx v)\<lparr>v_pos := p\<rparr> else mx_voice mx v)"
  "mx_voice (mixer_ch_set_freq ch fr mx) v =
     (if v = ch then (mx_voice mx v)\<lparr>v_freq := fr\<rparr> else mx_voice mx v)"
  "mx_voice (mixer_ch_set_vol ch l r mx) v =
     (if v = ch then (mx_voice mx v)\<lparr>v_vol := (l, r)\<rparr> else mx_voice mx v)"
  by (simp_all add: mixer_ch_play_def mixer_ch_set_pos_def mixer_ch_set_freq_def
      mixer_ch_set_vol_def)

lemma mixer_ops_calls:
  "calls_on v (mixer_ch_play fl ch w mx) = calls_on v mx @ (if v = ch then [Mixer_ch_play ch w] else [])"
  "calls_on v (mixer_ch_set_pos ch p mx) = calls_on v mx @ (if v = ch then [Mixer_ch_set_pos ch p] else [])"
  "calls_on v (mixer_ch_set_freq ch fr mx) = calls_on v mx @ (if v = ch then [Mixer_ch_set_freq ch fr] else [])"
  "calls_on v (mixer_ch_set_vol ch l r mx) = calls_on v mx @ (if v = ch then [Mixer_ch_set_vol ch l r] else [])"
  by (simp_all add: mixer_ch_play_def mixer_ch_set_pos_def mixer_ch_set_freq_def
      mixer_ch_set_vol_def calls_on_def)

lemmas mixer_view = mixer_ch_stop_voice mixer_ch_stop_calls mixer_ops_voice mixer_ops_calls
  wav64_play_def mixer_ch_playing_waveform_def

lemma update_channel_other:
  assumes u: "update_channel fl gvol first cx i mx = Inr mx'" and v: "v \<noteq> first + int i"
  shows "mx_voice mx' v = mx_voice mx v \<and> calls_on v mx' = calls_on v mx"
proof (cases "sample (xm_channels cx ! i) \<noteq> None \<and> f_ge0 fl (sample_position (xm_channels cx ! i))")
  case True
  with u obtain m where "mx' = mixer_ch_set_vol (first + int i)
                     (if m then f_zero fl else f_mul fl gvol (fst (actual_volume (xm_channels cx ! i))))
                     (if m then f_zero fl else f_mul fl gvol (snd (actual_volume (xm_channels cx ! i))))
       (mixer_ch_set_freq (first + int i) (ch_frequency (xm_channels cx ! i))
       (mixer_ch_set_pos (first + int i) (sample_position (xm_channels cx ! i))
         (if mixer_ch_playing_waveform mx (first + int i) \<noteq> Some (smp_wave (the (sample (xm_channels cx ! i))))
          then wav64_play fl (smp_wave (the (sample (xm_channels cx ! i)))) (first + int i) mx else mx)))"
    by (auto simp: update_channel_def Let_def ebind_Inr_iff)
  with v show ?thesis by (simp add: mixer_view)
next
  case False
  with u have "mx' = mixer_ch_stop (first + int i) mx"
    by (auto simp: update_channel_def Let_def)
  with v show ?thesis by (simp add: mixer_view)
qed

lemma update_channel_own:
  assumes u: "update_channel fl gvol first cx i mx = Inr mx'"
  shows "if sample (xm_channels cx ! i) \<noteq> None \<and> f_ge0 fl (sample_position (xm_channels cx ! i))
         then \<exists>m. channel_muted cx (xm_channels cx ! i) = Inr m
              \<and> mx_voice mx' (first + int i) =
                  (mx_voice mx (first + int i))
                    \<lparr>v_wave := Some (smp_wave (the (sample (xm_channels cx ! i)))),
                      v_pos := sample_position (xm_channels cx ! i),
                      v_freq := ch_frequency (xm_channels cx ! i),
                      v_vol := (if m then (f_zero fl, f_zero fl)
                                else (f_mul fl gvol (fst (actual_volume (xm_channels cx ! i))),
                                      f_mul fl gvol (snd (actual_volume (xm_channels cx ! i)))))\<rparr>
              \<and> calls_on (first + int i) mx' =
                  calls_on (first + int i) mx
                  @ (if v_wave (mx_voice mx (first + int i))
                        = Some (smp_wave (the (sample (xm_channels cx ! i))))
                     then [] else [Mixer_ch_play (first + int i)
                                     (smp_wave (the (sample (xm_channels cx ! i))))])
                  @ [Mixer_ch_set_pos (first + int i) (sample_position (xm_channels cx ! i)),
                     Mixer_ch_set_freq (first + int i) (ch_frequency (xm_channels cx ! i)),
                     Mixer_ch_set_vol (first + int i)
                       (if m then f_zero fl
                        else f_mul fl gvol (fst (actual_volume (xm_channels cx ! i))))
                       (if m then f_zero fl
                        else f_mul fl gvol (snd (actual_volume (xm_channels cx ! i))))]
         else mx_voice mx' (first + int i) = (mx_voice mx (first + int i))\<lparr>v_wave := None\<rparr>
              \<and> calls_on (first + int i) mx' = calls_on (first + int i) mx @ [Mixer_ch_stop (first + int i)]"
proof (cases "sample (xm_channels cx ! i) \<noteq> None \<and> f_ge0 fl (sample_position (xm_channels cx ! i))")
  case True
  with u obtain m where m: "channel_muted cx (xm_channels cx ! i) = Inr m"
    and mx': "mx' = mixer_ch_set_vol (first + int i)
                     (if m then f_zero fl else f_mul fl gvol (fst (actual_volume (xm_channels cx ! i))))
                     (if m then f_zero fl else f_mul fl gvol (snd (actual_volume (xm_channels cx ! i))))
       (mixer_ch_set_freq (first + int i) (ch_frequency (xm_channels cx ! i))
       (mixer_ch_set_pos (first + int i) (sample_position (xm_channels cx ! i))
         (if mixer_ch_playing_waveform mx (first + int i) \<noteq> Some (smp_wave (the (sample (xm_channels cx ! i))))
          then wav64_play fl (smp_wave (the (sample (xm_channels cx ! i)))) (first + int i) mx else mx)))"
    by (auto simp: update_channel_def Let_def ebind_Inr_iff)
  show ?thesis
    unfolding mx' using True m by (simp add: mixer_view)
next
  case False
  with u have "mx' = mixer_ch_stop (first + int i) mx"
    by (auto simp: update_channel_def Let_def)
  with False show ?thesis by (simp add: mixer_view)
qed

lemma update_channels_other:
  assumes "update_channels fl gvol first cx ids mx = Inr mx'" and "\<forall>i \<in> set ids. v \<noteq> first + int i"
  shows "mx_voice mx' v = mx_voice mx v \<and> calls_on v mx' = calls_on v mx"
  using assms
proof (induction ids arbitrary: mx)
  case Nil
  then show ?case by simp
next
  case (Cons j ids)
  from Cons.prems(1) obtain mx1 where
    1: "update_channel fl gvol first cx j mx = Inr mx1"
    and 2: "update_channels fl gvol first cx ids mx1 = Inr mx'"
    by (auto simp: ebind_Inr_iff)
  from Cons.prems(2) have "v \<noteq> first + int j" "\<forall>i \<in> set ids. v \<noteq> first + int i" by auto
  with update_channel_other [OF 1] Cons.IH [OF 2] show ?case by simp
qed

lemma update_channels_own:
  assumes "update_channels fl gvol first cx ids mx = Inr mx'" and "distinct ids" and "i \<in> set ids"
  shows "\<exists>mxa mxb. update_channel fl gvol first cx i mxa = Inr mxb
           \<and> mx_voice mxa (first + int i) = mx_voice mx (first + int i)
           \<and> calls_on (first + int i) mxa = calls_on (first + int i) mx
           \<and> mx_voice mx' (first + int i) = mx_voice mxb (first + int i)
           \<and> calls_on (first + int i) mx' = calls_on (first + int i) mxb"
  using assms
proof (induction ids arbitrary: mx)
  case Nil
  then show ?case by simp
next
  case (Cons j ids)
  from Cons.prems(1) obtain mx1 where
    1: "update_channel fl gvol first cx j mx = Inr mx1"
    and 2: "update_channels fl gvol first cx ids mx1 = Inr mx'"
    by (auto simp: ebind_Inr_iff)
  show ?case
  proof (cases "i = j")
    case True
    with Cons.prems(2) have "\<forall>k \<in> set ids. first + int i \<noteq> first + int k" by auto
    from update_channels_other [OF 2 this]
    have "mx_voice mx' (first + int i) = mx_voice mx1 (first + int i)"
      "calls_on (first + int i) mx' = calls_on (first + int i) mx1" by simp_all
    with 1 True show ?thesis
      by (intro exI [of _ mx] exI [of _ mx1]) simp
  next
    case False
    with Cons.prems have "distinct ids" "i \<in> set ids" by auto
    from Cons.IH [OF 2 this] obtain mxa mxb where
      a: "update_channel fl gvol first cx i mxa = Inr mxb"
        "mx_voice mxa (first + int i) = mx_voice mx1 (first + int i)"
        "calls_on (first + int i) mxa = calls_on (first + int i) mx1"
        "mx_voice mx' (first + int i) = mx_voice mxb (first + int i)"
        "calls_on (first + int i) mx' = calls_on (first + int i) mxb"
      by blast
    from False have "first + int i \<noteq> first + int j" by simp
    from update_channel_other [OF 1 this]
    have "mx_voice mx1 (first + int i) = mx_voice mx (first + int i)"
      "calls_on (first + int i) mx1 = calls_on (first + int i) mx" by simp_all
    with a show ?thesis
      by (intro exI [of _ mxa] exI [of _ mxb]) simp
  qed
qed


lemma sync_positions_length: "num_channels (sync_positions first mx cx) = num_channels cx"
  by (simp add: sync_positions_def num_channels_def)

lemma do_seek_fields:
  "first_ch (fst (do_seek fl xmp mx)) = first_ch xmp"
  "looping (fst (do_seek fl xmp mx)) = looping xmp"
  "num_channels (ctx (fst (do_seek fl xmp mx))) = num_channels (ctx xmp)"
  "snd (do_seek fl xmp mx) = stop_channels (first_ch xmp) (num_channels (ctx xmp)) mx"
  by (simp_all add: do_seek_def Let_def xm_seek_def num_channels_def)

text \<open>
  C9 (amended). Take a tick that returns, with an engine step that keeps the number of
  channels, and channel \<open>i\<close> of the player on voice \<open>first_ch + i\<close>. If a stop request was
  pending, or looping is disabled and the module has looped after the engine step, the tick
  returns 0, the player is no longer playing, the voice is stopped and no position,
  frequency or volume is set on it. On every other tick: if the channel's sample is NULL or
  its \<open>sample_position\<close> is negative, the voice is stopped; otherwise the voice plays the
  WAV64 of the sample, \<^verbatim>\<open>wav64_play\<close> being called only if the voice was not already playing
  that waveform when the channel loop reached it (a pending seek stops every voice first),
  and position, frequency and volume are set to the channel's \<open>sample_position\<close>,
  \<open>frequency\<close> and \<open>gvol \<times> actual_volume[0..1]\<close>, both volumes being 0 when the channel or
  its instrument is muted. No other call is made on the voice.
\<close>

theorem tick_channel_update:
  assumes t: "tick fl xm_tick xmp mx = Inr (delay, xmp', mx')"
    and keep: "\<forall>cx. num_channels (xm_tick cx) = num_channels cx"
    and i: "i < num_channels (ctx xmp')"
  shows "let ch = xm_channels (ctx xmp') ! i;
             v = first_ch xmp + int i;
             gvol = f_mul fl (global_volume (ctx xmp')) (amplification (ctx xmp'));
             sought = (\<not> stop_requested xmp \<and> 0 \<le> seek_patidx xmp);
             before = calls_on v mx @ (if sought then [Mixer_ch_stop v] else [])
         in if stop_requested xmp \<or> (\<not> looping xmp \<and> 0 < loop_count (ctx xmp'))
            then delay = 0 \<and> \<not> playing xmp' \<and> v_wave (mx_voice mx' v) = None
                 \<and> calls_on v mx' = before @ [Mixer_ch_stop v]
            else if sample ch \<noteq> None \<and> f_ge0 fl (sample_position ch)
            then \<exists>m. channel_muted (ctx xmp') ch = Inr m
                 \<and> v_wave (mx_voice mx' v) = Some (smp_wave (the (sample ch)))
                 \<and> v_pos (mx_voice mx' v) = sample_position ch
                 \<and> v_freq (mx_voice mx' v) = ch_frequency ch
                 \<and> v_vol (mx_voice mx' v) =
                     (if m then (f_zero fl, f_zero fl)
                      else (f_mul fl gvol (fst (actual_volume ch)),
                            f_mul fl gvol (snd (actual_volume ch))))
                 \<and> calls_on v mx' =
                     before
                     @ (if \<not> sought \<and> v_wave (mx_voice mx v) = Some (smp_wave (the (sample ch)))
                        then [] else [Mixer_ch_play v (smp_wave (the (sample ch)))])
                     @ [Mixer_ch_set_pos v (sample_position ch),
                        Mixer_ch_set_freq v (ch_frequency ch),
                        Mixer_ch_set_vol v
                          (if m then f_zero fl else f_mul fl gvol (fst (actual_volume ch)))
                          (if m then f_zero fl else f_mul fl gvol (snd (actual_volume ch)))]
            else v_wave (mx_voice mx' v) = None \<and> calls_on v mx' = before @ [Mixer_ch_stop v]"
proof -
  define x0 where "x0 = xmp\<lparr>ctx := sync_positions (first_ch xmp) mx (ctx xmp)\<rparr>"
  define sm where "sm = (if seek_patidx x0 \<ge> 0 then do_seek fl x0 mx else (x0, mx))"
  define x2 where "x2 = (fst sm)\<lparr>ctx := xm_tick (ctx (fst sm))\<rparr>"
  define v where "v = first_ch xmp + int i"
  define n where "n = num_channels (ctx xmp)"
  have x0: "first_ch x0 = first_ch xmp" "stop_requested x0 = stop_requested xmp"
    "seek_patidx x0 = seek_patidx xmp" "looping x0 = looping xmp" "num_channels (ctx x0) = n"
    by (simp_all add: x0_def sync_positions_length n_def)
  have sm: "first_ch (fst sm) = first_ch xmp" "looping (fst sm) = looping xmp"
    "num_channels (ctx (fst sm)) = n"
    "snd sm = (if 0 \<le> seek_patidx xmp then stop_channels (first_ch xmp) n mx else mx)"
    by (simp_all add: sm_def do_seek_fields x0)
  have x2: "first_ch x2 = first_ch xmp" "looping x2 = looping xmp" "num_channels (ctx x2) = n"
    using keep by (simp_all add: x2_def sm)
  have tick_eq: "tick fl xm_tick xmp mx =
     (if stop_requested xmp then Inr (0, stop x0 mx)
      else if \<not> f_le0 fl (remaining_samples_in_tick (ctx (fst sm)))
      then Inl (Assertion ''ctx->remaining_samples_in_tick <= 0'')
      else if \<not> looping xmp \<and> loop_count (ctx x2) > 0 then Inr (0, stop x2 (snd sm))
      else ebind (update_channels fl (f_mul fl (global_volume (ctx x2)) (amplification (ctx x2)))
                    (first_ch xmp) (ctx x2) [0..<n] (snd sm))
             (\<lambda>mx. Inr (f_ceil fl (remaining_samples_in_tick (ctx x2)),
                        x2\<lparr>ctx := (ctx x2)\<lparr>remaining_samples_in_tick :=
                              f_sub_int fl (remaining_samples_in_tick (ctx x2))
                                (f_ceil fl (remaining_samples_in_tick (ctx x2)))\<rparr>\<rparr>, mx)))"
    unfolding tick_def Let_def x0_def [symmetric] x0(2) sm_def [symmetric] case_prod_beta
      x2_def [symmetric] x2 by (rule refl)
  have seek_voice: "mx_voice (snd sm) v =
      (if 0 \<le> seek_patidx xmp \<and> i < n then (mx_voice mx v)\<lparr>v_wave := None\<rparr> else mx_voice mx v)"
    by (simp add: sm stop_channels_voice v_def)
  have seek_calls: "calls_on v (snd sm) =
      calls_on v mx @ (if 0 \<le> seek_patidx xmp \<and> i < n then [Mixer_ch_stop v] else [])"
    by (simp add: sm stop_channels_calls v_def)
  show ?thesis
  proof (cases "stop_requested xmp")
    case True
    with t tick_eq have r: "delay = 0" "xmp' = x0\<lparr>playing := False, stop_requested := False\<rparr>"
      "mx' = stop_channels (first_ch xmp) n mx"
      by (simp_all add: stop_def x0)
    from i r have "i < n" by (simp add: x0)
    with True r show ?thesis
      by (simp add: Let_def stop_channels_voice stop_channels_calls)
  next
    case ns: False
    show ?thesis
    proof (cases "\<not> looping xmp \<and> loop_count (ctx x2) > 0")
      case True
      with ns t tick_eq have r: "delay = 0" "xmp' = x2\<lparr>playing := False, stop_requested := False\<rparr>"
        "mx' = stop_channels (first_ch xmp) n (snd sm)"
        by (simp_all add: stop_def x2 split: if_splits)
      from i r have "i < n" by (simp add: x2)
      with True ns r seek_voice seek_calls show ?thesis
        by (simp add: Let_def stop_channels_voice stop_channels_calls v_def)
    next
      case nl: False
      let ?gvol = "f_mul fl (global_volume (ctx x2)) (amplification (ctx x2))"
      from nl ns t tick_eq obtain
        u: "update_channels fl ?gvol (first_ch xmp) (ctx x2) [0..<n] (snd sm) = Inr mx'"
        and r: "xmp' = x2\<lparr>ctx := (ctx x2)\<lparr>remaining_samples_in_tick :=
                              f_sub_int fl (remaining_samples_in_tick (ctx x2))
                                (f_ceil fl (remaining_samples_in_tick (ctx x2)))\<rparr>\<rparr>"
        by (auto simp: ebind_Inr_iff split: if_splits)
      from r have c: "xm_channels (ctx xmp') = xm_channels (ctx x2)"
        "global_volume (ctx xmp') = global_volume (ctx x2)"
        "amplification (ctx xmp') = amplification (ctx x2)"
        "loop_count (ctx xmp') = loop_count (ctx x2)"
        "instruments (ctx xmp') = instruments (ctx x2)"
        by simp_all
      from i r have n: "i < n" by (simp add: x2 [symmetric] num_channels_def)
      then have "i \<in> set [0..<n]" by simp
      from update_channels_own [OF u distinct_upt this] obtain mxa mxb where
        a: "update_channel fl ?gvol (first_ch xmp) (ctx x2) i mxa = Inr mxb"
          "mx_voice mxa v = mx_voice (snd sm) v" "calls_on v mxa = calls_on v (snd sm)"
          "mx_voice mx' v = mx_voice mxb v" "calls_on v mx' = calls_on v mxb"
        unfolding v_def by blast
      have cm: "channel_muted (ctx xmp') = channel_muted (ctx x2)"
        by (rule ext) (simp only: channel_muted_def c)
      note own = update_channel_own [OF a(1), folded v_def, unfolded a(2,3) seek_voice seek_calls]
      show ?thesis
      proof (cases "sample (xm_channels (ctx x2) ! i) \<noteq> None
                    \<and> f_ge0 fl (sample_position (xm_channels (ctx x2) ! i))")
        case True
        with own obtain m where m:
          "channel_muted (ctx x2) (xm_channels (ctx x2) ! i) = Inr m"
          "mx_voice mxb v =
             (if 0 \<le> seek_patidx xmp \<and> i < n
              then mx_voice mx v\<lparr>v_wave := None\<rparr> else mx_voice mx v)
             \<lparr>v_wave := Some (smp_wave (the (sample (xm_channels (ctx x2) ! i)))),
               v_pos := sample_position (xm_channels (ctx x2) ! i),
               v_freq := ch_frequency (xm_channels (ctx x2) ! i),
               v_vol := if m then (f_zero fl, f_zero fl)
                        else (f_mul fl ?gvol (fst (actual_volume (xm_channels (ctx x2) ! i))),
                              f_mul fl ?gvol (snd (actual_volume (xm_channels (ctx x2) ! i))))\<rparr>"
          "calls_on v mxb =
             (calls_on v mx @ (if 0 \<le> seek_patidx xmp \<and> i < n then [Mixer_ch_stop v] else []))
             @ (if v_wave (if 0 \<le> seek_patidx xmp \<and> i < n
                           then mx_voice mx v\<lparr>v_wave := None\<rparr> else mx_voice mx v)
                   = Some (smp_wave (the (sample (xm_channels (ctx x2) ! i))))
                then [] else [Mixer_ch_play v (smp_wave (the (sample (xm_channels (ctx x2) ! i))))])
             @ [Mixer_ch_set_pos v (sample_position (xm_channels (ctx x2) ! i)),
                Mixer_ch_set_freq v (ch_frequency (xm_channels (ctx x2) ! i)),
                Mixer_ch_set_vol v
                  (if m then f_zero fl
                   else f_mul fl ?gvol (fst (actual_volume (xm_channels (ctx x2) ! i))))
                  (if m then f_zero fl
                   else f_mul fl ?gvol (snd (actual_volume (xm_channels (ctx x2) ! i))))]"
          by auto
        from True nl ns n m show ?thesis
          unfolding Let_def v_def [symmetric] c cm a(4,5)
          by simp
      next
        case False
        with own nl ns n show ?thesis
          unfolding Let_def v_def [symmetric] c cm a(4,5)
          by (auto split: if_splits)
      qed
    qed
  qed
qed


text \<open>
  C9 (as stated) fails on a tick that finds a stop request pending. Channel 0 of the player
  has a valid sample at address 7 and the position 100 read back from its voice, which is
  playing that waveform; the tick stops the voices 4 and 5 and returns: the voice of
  channel 0 is stopped, and its position, frequency and volume are not updated.
\<close>

theorem tick_stop_request_updates_nothing:
  "map_sum id (\<lambda>(d, xmp, mx).
       (map_option smp_wave (sample (xm_channels (ctx xmp) ! 0)),
        sample_position (xm_channels (ctx xmp) ! 0), v_wave (mx_voice demo_mixer 4),
        v_wave (mx_voice mx 4), mx_calls mx))
     (tick int_floats demo_xm_tick (demo_player\<lparr>stop_requested := True\<rparr>) demo_mixer)
   = Inr (Some 7, 100, Some 7, None, [Mixer_ch_stop 4, Mixer_ch_stop 5])"
  by code_simp

theorem tick_channel_update_witness:
  "map_sum id (\<lambda>(d, xmp, mx). (v_wave (mx_voice mx 4), v_pos (mx_voice mx 4), v_vol (mx_voice mx 4),
        calls_on 4 mx, v_wave (mx_voice mx 5), calls_on 5 mx))
     (tick int_floats demo_xm_tick demo_player demo_mixer)
   = Inr (Some 7, 100, (6, 4),
          [Mixer_ch_set_pos 4 100, Mixer_ch_set_freq 4 8363, Mixer_ch_set_vol 4 6 4],
          None, [Mixer_ch_stop 5])"
proof -
  have ev: "map_sum id (\<lambda>(d, xmp, mx). (xm_channels (ctx xmp), global_volume (ctx xmp),
                amplification (ctx xmp), loop_count (ctx xmp), instruments (ctx xmp)))
     (tick int_floats demo_xm_tick demo_player demo_mixer)
     = Inr ([\<lparr> instrument = Some 0, sample = Some \<lparr> smp_wave = 7 \<rparr>, sample_position = 100,
               ch_frequency = 8363, actual_volume = (3, 2), muted = False \<rparr>,
             \<lparr> instrument = None, sample = None, sample_position = 0,
               ch_frequency = 0, actual_volume = (0, 0), muted = False \<rparr>],
            1, 2, 0, [\<lparr> ins_muted = False \<rparr>])"
    by code_simp
  then obtain d xmp' mx' where t: "tick int_floats demo_xm_tick demo_player demo_mixer = Inr (d, xmp', mx')"
    by (cases "tick int_floats demo_xm_tick demo_player demo_mixer") auto
  with ev have c: "xm_channels (ctx xmp') =
      [\<lparr> instrument = Some 0, sample = Some \<lparr> smp_wave = 7 \<rparr>, sample_position = 100,
         ch_frequency = 8363, actual_volume = (3, 2), muted = False \<rparr>,
       \<lparr> instrument = None, sample = None, sample_position = 0,
         ch_frequency = 0, actual_volume = (0, 0), muted = False \<rparr>]"
    "global_volume (ctx xmp') = 1" "amplification (ctx xmp') = 2" "loop_count (ctx xmp') = 0"
    "instruments (ctx xmp') = [\<lparr> ins_muted = False \<rparr>]"
    by simp_all
  have keep: "\<forall>cx. num_channels (demo_xm_tick cx) = num_channels cx"
    by (simp add: demo_xm_tick_def num_channels_def)
  have n: "0 < num_channels (ctx xmp')" "1 < num_channels (ctx xmp')"
    by (simp_all add: num_channels_def c)
  have p: "\<not> stop_requested demo_player" "looping demo_player" "seek_patidx demo_player = -1"
    "first_ch demo_player = 4" "calls_on 4 demo_mixer = []" "calls_on 5 demo_mixer = []"
    "v_wave (mx_voice demo_mixer 4) = Some 7"
    by (simp_all add: demo_player_def demo_mixer_def calls_on_def)
  from tick_channel_update [OF t keep n(1)]
  have a: "v_wave (mx_voice mx' 4) = Some 7 \<and> v_pos (mx_voice mx' 4) = 100
      \<and> v_vol (mx_voice mx' 4) = (6, 4)
      \<and> calls_on 4 mx' = [Mixer_ch_set_pos 4 100, Mixer_ch_set_freq 4 8363, Mixer_ch_set_vol 4 6 4]"
    by (auto simp add: c p Let_def channel_muted_def int_floats_def)
  from tick_channel_update [OF t keep n(2)]
  have b: "v_wave (mx_voice mx' 5) = None \<and> calls_on 5 mx' = [Mixer_ch_stop 5]"
    by (simp add: c p Let_def)
  from a b show ?thesis by (simp add: t)
qed

end
